(* ===== verification/Prelude.thy ===== *)
theory Prelude
  imports Main "HOL-Library.Word"
begin

text \<open>
  Shared vocabulary of the development: the widths of Go's machine integers, byte strings,
  errors as values with their bind, the little-endian layout of \<open>encoding/binary\<close>, and the
  facts on words that the overflow guards of the source rest on.
\<close>

section \<open>Machine types\<close>

text \<open>
  A Go \<open>uintN\<close> is an \<open>N word\<close>. A fixed array \<open>[32]byte\<close> (public keys, hashes, addresses)
  is a \<open>256 word\<close> whose octet \<open>i\<close>, counted from the low end, is element \<open>i\<close> of the array, and
  \<open>[64]byte\<close> (signatures) is a \<open>512 word\<close>: both types have exactly the values of the array, so
  no length invariant is needed. Slices and strings are lists of octets. A Go \<open>int\<close> that is the
  length of a slice is a \<^typ>\<open>nat\<close>; an \<open>int\<close> that can be negative is an \<^typ>\<open>int\<close>.
\<close>

type_synonym byte = "8 word"
type_synonym u8 = "8 word"
type_synonym u16 = "16 word"
type_synonym u32 = "32 word"
type_synonym u64 = "64 word"
type_synonym bytes = "byte list"
type_synonym gostring = "byte list"
type_synonym hash = "256 word"
type_synonym pubkey = "256 word"
type_synonym signature = "512 word"

text \<open>The conversion of a Go \<open>int\<close> expression to 64 bits, two's complement.\<close>

definition int64_wrap :: "int \<Rightarrow> int" where
  "int64_wrap i = sint (word_of_int i :: u64)"

lemma sint_small:
  assumes "unat (w :: u64) < 2 ^ 63"
  shows "sint w = int (unat w)"
proof -
  have "int (unat w) < int (2 ^ 63)" using assms by (simp only: of_nat_less_iff)
  then have "uint w < 2 ^ 63" by simp
  then have "sint w = uint w"
    unfolding sint_uint by (intro signed_take_bit_int_eq_self) (auto intro: order_trans [OF _ uint_ge_0])
  then show ?thesis by simp
qed

text \<open>A string constant of the source, as its octets.\<close>

definition ascii :: "string \<Rightarrow> bytes" where
  "ascii s = map (\<lambda>c. of_nat (of_char c)) s"

lemma length_ascii [simp]: "length (ascii s) = length s"
  by (simp add: ascii_def)

named_theorems result_simps \<open>inversion of a result that is known to be a success or an error\<close>
named_theorems codec_simps \<open>reading back what was written\<close>

section \<open>Errors as values\<close>

text \<open>
  A Go function that returns \<open>(T, error)\<close> returns a value of \<open>'e + 'a\<close>: \<open>Inl e\<close> for the error,
  \<open>Inr x\<close> for the value. \<open>rbind\<close> is the idiom \<open>if err != nil \<^bold>{ return err \<^bold>}\<close>.
\<close>

definition rbind :: "'e + 'a \<Rightarrow> ('a \<Rightarrow> 'e + 'b) \<Rightarrow> 'e + 'b" where
  "rbind r f = (case r of Inl e \<Rightarrow> Inl e | Inr x \<Rightarrow> f x)"

lemma rbind_Inl [simp]: "rbind (Inl e) f = Inl e"
  by (simp add: rbind_def)

lemma rbind_Inr [simp]: "rbind (Inr x) f = f x"
  by (simp add: rbind_def)

lemma rbind_eq_Inr [result_simps]: "rbind r f = Inr y \<longleftrightarrow> (\<exists>x. r = Inr x \<and> f x = Inr y)"
  by (cases r) auto

lemma rbind_eq_Inl [result_simps]:
  "rbind r f = Inl e \<longleftrightarrow> r = Inl e \<or> (\<exists>x. r = Inr x \<and> f x = Inl e)"
  by (cases r) auto

lemma rbind_assoc: "rbind (rbind r f) g = rbind r (\<lambda>x. rbind (f x) g)"
  by (cases r) auto

lemma rbind_cong [fundef_cong]:
  "r = r' \<Longrightarrow> (\<And>x. r' = Inr x \<Longrightarrow> f x = f' x) \<Longrightarrow> rbind r f = rbind r' f'"
  by (cases r') auto

lemma if_Inl_eq_Inr [result_simps]:
  "(if c then Inl e else r) = Inr x \<longleftrightarrow> \<not> c \<and> r = Inr x"
  "(if c then r else Inl e) = Inr x \<longleftrightarrow> c \<and> r = Inr x"
  by auto

text \<open>\<open>wrap_err\<close> is \<open>fmt.Errorf("...: %w", err)\<close>: it renames the error and keeps the value.\<close>

definition wrap_err :: "('e \<Rightarrow> 'f) \<Rightarrow> 'e + 'a \<Rightarrow> 'f + 'a" where
  "wrap_err w r = (case r of Inl e \<Rightarrow> Inl (w e) | Inr x \<Rightarrow> Inr x)"

lemma wrap_err_simps [simp]:
  "wrap_err w (Inl e) = Inl (w e)"
  "wrap_err w (Inr x) = Inr x"
  by (simp_all add: wrap_err_def)

lemma wrap_err_eq_Inr [result_simps]: "wrap_err w r = Inr x \<longleftrightarrow> r = Inr x"
  by (cases r) auto

lemma wrap_err_eq_Inl [result_simps]: "wrap_err w r = Inl f \<longleftrightarrow> (\<exists>e. r = Inl e \<and> f = w e)"
  by (cases r) auto

text \<open>A loop that stops at the first error and returns the list of results.\<close>

fun rmap :: "('a \<Rightarrow> 'e + 'b) \<Rightarrow> 'a list \<Rightarrow> 'e + 'b list" where
  "rmap f [] = Inr []"
| "rmap f (x # xs) = rbind (f x) (\<lambda>y. rbind (rmap f xs) (\<lambda>ys. Inr (y # ys)))"

text \<open>A loop that only checks, and stops at the first error.\<close>

fun rforall :: "('a \<Rightarrow> 'e + unit) \<Rightarrow> 'a list \<Rightarrow> 'e + unit" where
  "rforall f [] = Inr ()"
| "rforall f (x # xs) = rbind (f x) (\<lambda>_. rforall f xs)"

lemma rforall_Inr: "rforall f xs = Inr u \<longleftrightarrow> (\<forall>x \<in> set xs. f x = Inr ())"
  by (induction xs) (auto simp: result_simps)

lemma length_rmap: "rmap f xs = Inr ys \<Longrightarrow> length ys = length xs"
  by (induction xs arbitrary: ys) (auto simp: result_simps)

lemma rmap_nth: "rmap f xs = Inr ys \<Longrightarrow> i < length xs \<Longrightarrow> f (xs ! i) = Inr (ys ! i)"
proof (induction xs arbitrary: ys i)
  case Nil
  then show ?case by simp
next
  case (Cons x xs)
  then show ?case by (cases i) (auto simp: result_simps)
qed

section \<open>Little-endian layout\<close>

text \<open>
  \<open>binary.LittleEndian.PutUintN\<close> writes the octets of a value from the low end;
  \<open>binary.LittleEndian.UintN\<close> reads them back. Both are given on natural numbers, for any
  number of octets.
\<close>

fun nat_le :: "nat \<Rightarrow> nat \<Rightarrow> bytes" where
  "nat_le 0 n = []"
| "nat_le (Suc k) n = of_nat (n mod 256) # nat_le k (n div 256)"

fun le_nat :: "bytes \<Rightarrow> nat" where
  "le_nat [] = 0"
| "le_nat (b # bs) = unat b + 256 * le_nat bs"

lemma length_nat_le [simp]: "length (nat_le k n) = k"
  by (induction k arbitrary: n) auto

lemma nat_le_numeral [simp]:
  "nat_le (numeral k) n = of_nat (n mod 256) # nat_le (pred_numeral k) (n div 256)"
  unfolding numeral_eq_Suc [of k] by (rule nat_le.simps(2))

lemma unat_byte_lt [simp]: "unat (b :: byte) < 256"
  using unsigned_less [of b] by simp

lemma of_nat_byte_inverse [simp]: "n < 256 \<Longrightarrow> unat (of_nat n :: byte) = n"
  by (simp add: unat_of_nat)

lemma le_nat_less: "le_nat bs < 256 ^ length bs"
proof (induction bs)
  case Nil
  then show ?case by simp
next
  case (Cons b bs)
  have "unat b + 256 * le_nat bs < 256 * (le_nat bs + 1)"
    using unat_byte_lt [of b] by simp
  also have "\<dots> \<le> 256 * 256 ^ length bs"
    using Cons.IH by (intro mult_le_mono2) simp
  finally show ?case by simp
qed

lemma le_nat_nat_le: "le_nat (nat_le k n) = n mod 256 ^ k"
proof (induction k arbitrary: n)
  case 0
  then show ?case by simp
next
  case (Suc k)
  have "n mod 256 ^ Suc k = n mod 256 + 256 * (n div 256 mod 256 ^ k)"
    using mod_mult2_eq [of n 256 "256 ^ k"] by simp
  with Suc.IH show ?case by simp
qed

lemma nat_le_le_nat: "nat_le (length bs) (le_nat bs) = bs"
proof (induction bs)
  case Nil
  then show ?case by simp
next
  case (Cons b bs)
  have "(unat b + 256 * le_nat bs) mod 256 = unat b"
    using unat_byte_lt [of b] by simp
  moreover have "(unat b + 256 * le_nat bs) div 256 = le_nat bs"
    using unat_byte_lt [of b] by simp
  ultimately show ?case using Cons.IH by simp
qed

text \<open>The same, for a value of a given width.\<close>

definition put_le :: "nat \<Rightarrow> 'a::len word \<Rightarrow> bytes" where
  "put_le k w = nat_le k (unat w)"

definition get_le :: "bytes \<Rightarrow> 'a::len word" where
  "get_le bs = of_nat (le_nat bs)"

lemma length_put_le [simp]: "length (put_le k w) = k"
  by (simp add: put_le_def)

lemma get_le_put_le:
  assumes "LENGTH('a) \<le> 8 * k"
  shows "get_le (put_le k (w :: 'a::len word)) = w"
proof -
  have "unat w < 2 ^ LENGTH('a)" by (rule unsigned_less)
  also have "(2 :: nat) ^ LENGTH('a) \<le> 2 ^ (8 * k)"
    using assms by (simp add: power_increasing)
  also have "(2 :: nat) ^ (8 * k) = 256 ^ k"
    by (simp add: power_mult)
  finally show ?thesis
    by (simp add: get_le_def put_le_def le_nat_nat_le)
qed

lemma put_le_get_le:
  assumes "length bs = k" and "8 * k \<le> LENGTH('a)"
  shows "put_le k (get_le bs :: 'a::len word) = bs"
proof -
  have "le_nat bs < 256 ^ k" using le_nat_less [of bs] assms(1) by simp
  also have "(256 :: nat) ^ k = 2 ^ (8 * k)"
    by (simp add: power_mult)
  also have "\<dots> \<le> 2 ^ LENGTH('a)"
    using assms(2) by (simp add: power_increasing)
  finally have "unat (of_nat (le_nat bs) :: 'a word) = le_nat bs"
    by (simp add: unat_of_nat)
  then show ?thesis
    using nat_le_le_nat [of bs] assms(1) by (simp add: put_le_def get_le_def)
qed

lemmas get_put_uint [simp, codec_simps] =
  get_le_put_le [where k = 1 and 'a = 8, simplified]
  get_le_put_le [where k = 2 and 'a = 16, simplified]
  get_le_put_le [where k = 4 and 'a = 32, simplified]
  get_le_put_le [where k = 8 and 'a = 64, simplified]
  get_le_put_le [where k = 32 and 'a = 256, simplified]
  get_le_put_le [where k = 64 and 'a = 512, simplified]

section \<open>Overflow guards\<close>

text \<open>\<open>left > ^uint64(0) - right\<close> says that the sum does not fit.\<close>

lemma unat_minus_one: "unat (- 1 :: 'a::len word) = 2 ^ LENGTH('a) - 1"
  by (simp add: unsigned_minus_1_eq_mask mask_eq_exp_minus_1)

lemma add_guard:
  fixes a b :: "'a::len word"
  shows "- 1 - b < a \<longleftrightarrow> 2 ^ LENGTH('a) \<le> unat a + unat b"
proof -
  have "unat (- 1 - b) = 2 ^ LENGTH('a) - 1 - unat b"
    by (subst unat_sub) (simp_all add: unat_minus_one)
  moreover have "unat b < 2 ^ LENGTH('a)" by (rule unsigned_less)
  ultimately show ?thesis by (simp only: word_less_nat_alt) linarith
qed

lemma unat_add_guarded:
  fixes a b :: "'a::len word"
  assumes "\<not> - 1 - b < a"
  shows "unat (a + b) = unat a + unat b"
  using assms by (simp add: add_guard unat_word_ariths)

text \<open>\<open>left > ^uint64(0) / right\<close> says that the product does not fit.\<close>

lemma mul_guard:
  fixes a b :: "'a::len word"
  assumes "b \<noteq> 0"
  shows "- 1 div b < a \<longleftrightarrow> 2 ^ LENGTH('a) \<le> unat a * unat b"
proof -
  have b: "0 < unat b" using assms by (simp add: unat_gt_0)
  have "- 1 div b < a \<longleftrightarrow> (2 ^ LENGTH('a) - 1) div unat b < unat a"
    by (simp add: word_less_nat_alt unat_div unat_minus_one)
  also have "\<dots> \<longleftrightarrow> 2 ^ LENGTH('a) - 1 < unat a * unat b"
    using b by (simp add: div_less_iff_less_mult)
  also have "\<dots> \<longleftrightarrow> 2 ^ LENGTH('a) \<le> unat a * unat b"
    by (metis Suc_pred' less_Suc_eq_le not_less zero_less_numeral zero_less_power)
  finally show ?thesis .
qed

lemma unat_mul_guarded:
  fixes a b :: "'a::len word"
  assumes "\<not> - 1 div b < a" and "b \<noteq> 0"
  shows "unat (a * b) = unat a * unat b"
  using assms by (simp add: mul_guard unat_word_ariths)

text \<open>A widening conversion keeps the number.\<close>

lemma unat_ucast_up:
  assumes "LENGTH('a) \<le> LENGTH('b)"
  shows "unat (ucast (w :: 'a::len word) :: 'b::len word) = unat w"
proof -
  have "unat w < 2 ^ LENGTH('a)" by (rule unsigned_less)
  also have "(2 :: nat) ^ LENGTH('a) \<le> 2 ^ LENGTH('b)" using assms by (simp add: power_increasing)
  finally show ?thesis by (simp add: unsigned_ucast_eq take_bit_nat_eq_self)
qed

section \<open>Lists\<close>

text \<open>\<open>copy(dst[off:], src)\<close> where the source fits.\<close>

definition overwrite :: "'a list \<Rightarrow> nat \<Rightarrow> 'a list \<Rightarrow> 'a list" where
  "overwrite xs off ys = take off xs @ ys @ drop (off + length ys) xs"

lemma length_overwrite [simp]:
  "off + length ys \<le> length xs \<Longrightarrow> length (overwrite xs off ys) = length xs"
  by (simp add: overwrite_def)

lemma overwrite_read_back:
  "off + length ys \<le> length xs \<Longrightarrow> take (length ys) (drop off (overwrite xs off ys)) = ys"
  by (simp add: overwrite_def)

lemma overwrite_nth_outside:
  assumes "off + length ys \<le> length xs" and "i < length xs" and "i < off \<or> off + length ys \<le> i"
  shows "overwrite xs off ys ! i = xs ! i"
  using assms by (auto simp: overwrite_def nth_append)

lemma sum_list_update_nat:
  fixes f :: "'a \<Rightarrow> nat"
  assumes "i < length xs"
  shows "sum_list (map f (xs[i := x])) + f (xs ! i) = sum_list (map f xs) + f x"
  using assms
proof (induction xs arbitrary: i)
  case Nil
  then show ?case by simp
next
  case (Cons y ys)
  then show ?case by (cases i) auto
qed

section \<open>Invariants\<close>

text \<open>
  The interface of a state machine with an invariant: every step keeps it, so every state
  reached from a state that has it has it too.
\<close>

locale step_invariant =
  fixes step :: "'s \<Rightarrow> 's \<Rightarrow> bool" and inv :: "'s \<Rightarrow> bool"
  assumes step_inv: "inv s \<Longrightarrow> step s t \<Longrightarrow> inv t"
begin

lemma reachable_inv: "step\<^sup>*\<^sup>* s t \<Longrightarrow> inv s \<Longrightarrow> inv t"
  by (induction rule: rtranclp_induct) (auto intro: step_inv)

end

end
