(* ===== verification/Go_Strings.thy ===== *)
theory Go_Strings
  imports Prelude "HOL-Library.List_Lexorder"
begin

text \<open>
  What the source uses of the standard packages \<open>unicode/utf8\<close> and \<open>strings\<close>: validity of UTF-8,
  the test \<open>strings.TrimSpace(s) == ""\<close>, and the comparison of strings, which is the
  lexicographic order on octets that the library gives for lists of words.
\<close>

section \<open>UTF-8\<close>

definition utf8_cont :: "byte \<Rightarrow> bool" where
  "utf8_cont b \<longleftrightarrow> 0x80 \<le> b \<and> b \<le> 0xBF"

text \<open>The second octet a lead octet of a three-octet form allows, and of a four-octet form.\<close>

definition utf8_second3 :: "byte \<Rightarrow> byte \<Rightarrow> bool" where
  "utf8_second3 b b2 \<longleftrightarrow>
     (if b = 0xE0 then 0xA0 \<le> b2 \<and> b2 \<le> 0xBF
      else if b = 0xED then 0x80 \<le> b2 \<and> b2 \<le> 0x9F
      else 0xE1 \<le> b \<and> b \<le> 0xEF \<and> utf8_cont b2)"

definition utf8_second4 :: "byte \<Rightarrow> byte \<Rightarrow> bool" where
  "utf8_second4 b b2 \<longleftrightarrow>
     (if b = 0xF0 then 0x90 \<le> b2 \<and> b2 \<le> 0xBF
      else if b = 0xF4 then 0x80 \<le> b2 \<and> b2 \<le> 0x8F
      else 0xF1 \<le> b \<and> b \<le> 0xF3 \<and> utf8_cont b2)"

text \<open>\<open>utf8.Valid\<close> and \<open>utf8.ValidString\<close>.\<close>

fun utf8_valid :: "bytes \<Rightarrow> bool" where
  "utf8_valid [] = True"
| "utf8_valid (b # r) =
     (if b < 0x80 then utf8_valid r
      else case r of [] \<Rightarrow> False
        | b2 # r2 \<Rightarrow>
            (if 0xC2 \<le> b \<and> b \<le> 0xDF then utf8_cont b2 \<and> utf8_valid r2
             else case r2 of [] \<Rightarrow> False
               | b3 # r3 \<Rightarrow>
                   (if 0xE0 \<le> b \<and> b \<le> 0xEF
                    then utf8_second3 b b2 \<and> utf8_cont b3 \<and> utf8_valid r3
                    else case r3 of [] \<Rightarrow> False
                      | b4 # r4 \<Rightarrow>
                          0xF0 \<le> b \<and> b \<le> 0xF4 \<and> utf8_second4 b b2 \<and> utf8_cont b3 \<and>
                          utf8_cont b4 \<and> utf8_valid r4)))"

lemma utf8_valid_ascii: "\<forall>b \<in> set bs. b < 0x80 \<Longrightarrow> utf8_valid bs"
  by (induction bs) auto

section \<open>Blank strings\<close>

text \<open>The octets of the three-octet code points that \<open>unicode.IsSpace\<close> accepts.\<close>

definition space3 :: "byte \<Rightarrow> byte \<Rightarrow> byte \<Rightarrow> bool" where
  "space3 b1 b2 b3 \<longleftrightarrow>
     b1 = 0xE1 \<and> b2 = 0x9A \<and> b3 = 0x80 \<or>
     b1 = 0xE2 \<and> b2 = 0x80 \<and> (0x80 \<le> b3 \<and> b3 \<le> 0x8A \<or> b3 \<in> {0xA8, 0xA9, 0xAF}) \<or>
     b1 = 0xE2 \<and> b2 = 0x81 \<and> b3 = 0x9F \<or>
     b1 = 0xE3 \<and> b2 = 0x80 \<and> b3 = 0x80"

text \<open>
  \<open>strings.TrimSpace(s) == ""\<close>: the string is a sequence of white-space code points. The
  one-octet ones are tab, line feed, vertical tab, form feed, carriage return and space, the
  two-octet ones U+0085 and U+00A0.
\<close>

fun blank :: "gostring \<Rightarrow> bool" where
  "blank [] = True"
| "blank (b # r) =
     (if b \<in> {9, 10, 11, 12, 13, 32} then blank r
      else case r of [] \<Rightarrow> False
        | b2 # r2 \<Rightarrow>
            (if b = 0xC2 \<and> (b2 = 0x85 \<or> b2 = 0xA0) then blank r2
             else case r2 of [] \<Rightarrow> False
               | b3 # r3 \<Rightarrow> space3 b b2 b3 \<and> blank r3))"

section \<open>Trimming\<close>

text \<open>
  \<open>strings.TrimSpace\<close>. \<open>trim_left\<close> drops the white-space code points at the start of a string;
  \<open>trim_rev\<close> drops them from the end, on the reversed string, where
  \<open>utf8.DecodeLastRuneInString\<close> finds the same code points.
\<close>

fun trim_left :: "gostring \<Rightarrow> gostring" where
  "trim_left [] = []"
| "trim_left (b # r) =
     (if b \<in> {9, 10, 11, 12, 13, 32} then trim_left r
      else case r of [] \<Rightarrow> b # r
        | b2 # r2 \<Rightarrow>
            (if b = 0xC2 \<and> (b2 = 0x85 \<or> b2 = 0xA0) then trim_left r2
             else case r2 of [] \<Rightarrow> b # r
               | b3 # r3 \<Rightarrow> if space3 b b2 b3 then trim_left r3 else b # r))"

fun trim_rev :: "gostring \<Rightarrow> gostring" where
  "trim_rev [] = []"
| "trim_rev (c # r) =
     (if c \<in> {9, 10, 11, 12, 13, 32} then trim_rev r
      else case r of [] \<Rightarrow> c # r
        | b # r2 \<Rightarrow>
            (if b = 0xC2 \<and> (c = 0x85 \<or> c = 0xA0) then trim_rev r2
             else case r2 of [] \<Rightarrow> c # r
               | a # r3 \<Rightarrow> if space3 a b c then trim_rev r3 else c # r))"

definition TrimSpace :: "gostring \<Rightarrow> gostring" where
  "TrimSpace s = rev (trim_rev (rev (trim_left s)))"

end
