(* ===== verification/Sha256.thy ===== *)
theory Sha256
  imports Prelude
begin

text \<open>
  The standard package \<open>crypto/sha256\<close>, which program checksums, derived addresses, validator
  identities, leader selection and epoch commitments use: FIPS 180-4, on lists of octets.
\<close>

unbundle bit_operations_syntax

definition sha_K :: "u32 list" where
  "sha_K =
    [1116352408, 1899447441, 3049323471, 3921009573, 961987163, 1508970993, 2453635748, 2870763221,
     3624381080, 310598401, 607225278, 1426881987, 1925078388, 2162078206, 2614888103, 3248222580,
     3835390401, 4022224774, 264347078, 604807628, 770255983, 1249150122, 1555081692, 1996064986,
     2554220882, 2821834349, 2952996808, 3210313671, 3336571891, 3584528711, 113926993, 338241895,
     666307205, 773529912, 1294757372, 1396182291, 1695183700, 1986661051, 2177026350, 2456956037,
     2730485921, 2820302411, 3259730800, 3345764771, 3516065817, 3600352804, 4094571909, 275423344,
     430227734, 506948616, 659060556, 883997877, 958139571, 1322822218, 1537002063, 1747873779,
     1955562222, 2024104815, 2227730452, 2361852424, 2428436474, 2756734187, 3204031479, 3329325298]"

type_synonym sha_state = "u32 \<times> u32 \<times> u32 \<times> u32 \<times> u32 \<times> u32 \<times> u32 \<times> u32"

definition sha_H0 :: sha_state where
  "sha_H0 = (0x6a09e667, 0xbb67ae85, 0x3c6ef372, 0xa54ff53a,
             0x510e527f, 0x9b05688c, 0x1f83d9ab, 0x5be0cd19)"

definition rotr32 :: "nat \<Rightarrow> u32 \<Rightarrow> u32" where
  "rotr32 n w = drop_bit n w OR push_bit (32 - n) w"

definition sha_big0 :: "u32 \<Rightarrow> u32" where
  "sha_big0 x = rotr32 2 x XOR rotr32 13 x XOR rotr32 22 x"

definition sha_big1 :: "u32 \<Rightarrow> u32" where
  "sha_big1 x = rotr32 6 x XOR rotr32 11 x XOR rotr32 25 x"

definition sha_small0 :: "u32 \<Rightarrow> u32" where
  "sha_small0 x = rotr32 7 x XOR rotr32 18 x XOR drop_bit 3 x"

definition sha_small1 :: "u32 \<Rightarrow> u32" where
  "sha_small1 x = rotr32 17 x XOR rotr32 19 x XOR drop_bit 10 x"

text \<open>Big-endian octets of a number and the number of big-endian octets.\<close>

definition nat_be :: "nat \<Rightarrow> nat \<Rightarrow> bytes" where
  "nat_be k n = rev (nat_le k n)"

definition get_be32 :: "bytes \<Rightarrow> u32" where
  "get_be32 bs = of_nat (le_nat (rev bs))"

definition sha_pad :: "bytes \<Rightarrow> bytes" where
  "sha_pad m = m @ [0x80] @ replicate ((119 - length m mod 64) mod 64) 0 @ nat_be 8 (8 * length m)"

fun chunks :: "nat \<Rightarrow> nat \<Rightarrow> 'a list \<Rightarrow> 'a list list" where
  "chunks 0 n xs = []"
| "chunks (Suc c) n xs = take n xs # chunks c n (drop n xs)"

text \<open>The message schedule; the list is kept with the newest word first.\<close>

fun sha_extend :: "nat \<Rightarrow> u32 list \<Rightarrow> u32 list" where
  "sha_extend 0 ws = ws"
| "sha_extend (Suc k) ws =
     sha_extend k ((sha_small1 (ws ! 1) + ws ! 6 + sha_small0 (ws ! 14) + ws ! 15) # ws)"

fun sha_round :: "sha_state \<Rightarrow> u32 \<times> u32 \<Rightarrow> sha_state" where
  "sha_round (a, b, c, d, e, f, g, h) (k, w) =
     (let t1 = h + sha_big1 e + ((e AND f) XOR (NOT e AND g)) + k + w;
          t2 = sha_big0 a + ((a AND b) XOR (a AND c) XOR (b AND c))
      in (t1 + t2, a, b, c, d + t1, e, f, g))"

fun sha_add :: "sha_state \<Rightarrow> sha_state \<Rightarrow> sha_state" where
  "sha_add (a, b, c, d, e, f, g, h) (a', b', c', d', e', f', g', h') =
     (a + a', b + b', c + c', d + d', e + e', f + f', g + g', h + h')"

definition sha_block :: "sha_state \<Rightarrow> bytes \<Rightarrow> sha_state" where
  "sha_block st block =
     (let ws = rev (sha_extend 48 (rev (map get_be32 (chunks 16 4 block))))
      in sha_add st (foldl sha_round st (zip sha_K ws)))"

fun sha_digest :: "sha_state \<Rightarrow> bytes" where
  "sha_digest (a, b, c, d, e, f, g, h) =
     concat (map (\<lambda>w. nat_be 4 (unat w)) [a, b, c, d, e, f, g, h])"

text \<open>\<open>sha256.Sum256\<close> and \<open>utils.SHA256\<close>.\<close>

definition sha256 :: "bytes \<Rightarrow> bytes" where
  "sha256 m =
     (let p = sha_pad m in sha_digest (foldl sha_block sha_H0 (chunks (length p div 64) 64 p)))"

lemma length_sha_digest: "length (sha_digest st) = 32"
  by (cases st rule: sha_digest.cases) (simp add: nat_be_def)

lemma length_sha256 [simp]: "length (sha256 m) = 32"
  by (simp add: sha256_def Let_def length_sha_digest)

text \<open>\<open>structure.NewHash(utils.SHA256(m))\<close>, whose length check a digest always passes.\<close>

definition sha256_hash :: "bytes \<Rightarrow> hash" where
  "sha256_hash m = get_le (sha256 m)"

end
