(* ===== verification/Borsh.thy ===== *)
theory Borsh
  imports Prelude Go_Strings
begin

text \<open>
  The package \<open>codec/borsh\<close>: the writer and the reader of the deterministic binary format that
  accounts, instructions, votes and certificates are stored and sent in. A \<open>bytes.Reader\<close> is the
  list of octets it has not delivered yet. The locale \<open>borsh_codec\<close> is what the record formats
  built on this package rely on; every primitive of the package is an instance of it.
\<close>

section \<open>Model\<close>

datatype borsh_error = ErrInvalidData | ErrInvalidLength | ErrInvalidBool

definition DefaultMaxContainerLength :: nat where
  "DefaultMaxContainerLength = 64 * 1024"

definition normalizeMaxContainerLength :: "int \<Rightarrow> nat" where
  "normalizeMaxContainerLength maxContainerLength =
     (if maxContainerLength \<le> 0 then DefaultMaxContainerLength
      else if 2 ^ 32 - 1 < maxContainerLength then 2 ^ 32 - 1
      else nat maxContainerLength)"

record writer =
  w_buffer :: bytes
  w_max :: nat

definition NewWriter :: "int \<Rightarrow> writer" where
  "NewWriter maxContainerLength =
     \<lparr>w_buffer = [], w_max = normalizeMaxContainerLength maxContainerLength\<rparr>"

definition w_append :: "bytes \<Rightarrow> writer \<Rightarrow> writer" where
  "w_append bs w = w\<lparr>w_buffer := w_buffer w @ bs\<rparr>"

definition WriteUint8 :: "u8 \<Rightarrow> writer \<Rightarrow> writer" where
  "WriteUint8 v = w_append [v]"

definition WriteUint16 :: "u16 \<Rightarrow> writer \<Rightarrow> writer" where
  "WriteUint16 v = w_append (put_le 2 v)"

definition WriteUint32 :: "u32 \<Rightarrow> writer \<Rightarrow> writer" where
  "WriteUint32 v = w_append (put_le 4 v)"

definition WriteUint64 :: "u64 \<Rightarrow> writer \<Rightarrow> writer" where
  "WriteUint64 v = w_append (put_le 8 v)"

text \<open>An \<open>int64\<close> is carried as the word of its two's complement, so the conversion is free.\<close>

definition WriteInt64 :: "u64 \<Rightarrow> writer \<Rightarrow> writer" where
  "WriteInt64 v = WriteUint64 v"

definition WriteBool :: "bool \<Rightarrow> writer \<Rightarrow> writer" where
  "WriteBool v w = (if v then w_append [1] w else w_append [0] w)"

definition WriteBytes :: "bytes \<Rightarrow> writer \<Rightarrow> borsh_error + writer" where
  "WriteBytes v w =
     (if w_max w < length v then Inl ErrInvalidLength
      else Inr (w_append v (WriteUint32 (of_nat (length v)) w)))"

definition WriteFixedBytes :: "bytes \<Rightarrow> writer \<Rightarrow> writer" where
  "WriteFixedBytes v = w_append v"

definition WriteString :: "gostring \<Rightarrow> writer \<Rightarrow> borsh_error + writer" where
  "WriteString v w = (if \<not> utf8_valid v then Inl ErrInvalidData else WriteBytes v w)"

record reader =
  r_rest :: bytes
  r_max :: nat

definition NewReader :: "bytes \<Rightarrow> int \<Rightarrow> reader" where
  "NewReader data maxContainerLength =
     \<lparr>r_rest = data, r_max = normalizeMaxContainerLength maxContainerLength\<rparr>"

text \<open>\<open>io.ReadFull\<close> on a \<open>bytes.Reader\<close>.\<close>

definition read_full :: "nat \<Rightarrow> reader \<Rightarrow> borsh_error + bytes \<times> reader" where
  "read_full n r =
     (if length (r_rest r) < n then Inl ErrInvalidData
      else Inr (take n (r_rest r), r\<lparr>r_rest := drop n (r_rest r)\<rparr>))"

definition ReadUint8 :: "reader \<Rightarrow> borsh_error + u8 \<times> reader" where
  "ReadUint8 r =
     (case r_rest r of [] \<Rightarrow> Inl ErrInvalidData | b # bs \<Rightarrow> Inr (b, r\<lparr>r_rest := bs\<rparr>))"

definition ReadUint16 :: "reader \<Rightarrow> borsh_error + u16 \<times> reader" where
  "ReadUint16 r = rbind (read_full 2 r) (\<lambda>(bs, r). Inr (get_le bs, r))"

definition ReadUint32 :: "reader \<Rightarrow> borsh_error + u32 \<times> reader" where
  "ReadUint32 r = rbind (read_full 4 r) (\<lambda>(bs, r). Inr (get_le bs, r))"

definition ReadUint64 :: "reader \<Rightarrow> borsh_error + u64 \<times> reader" where
  "ReadUint64 r = rbind (read_full 8 r) (\<lambda>(bs, r). Inr (get_le bs, r))"

definition ReadInt64 :: "reader \<Rightarrow> borsh_error + u64 \<times> reader" where
  "ReadInt64 r = ReadUint64 r"

definition ReadBool :: "reader \<Rightarrow> borsh_error + bool \<times> reader" where
  "ReadBool r =
     rbind (ReadUint8 r) (\<lambda>(v, r).
       if v = 0 then Inr (False, r) else if v = 1 then Inr (True, r) else Inl ErrInvalidBool)"

definition ReadBytes :: "reader \<Rightarrow> borsh_error + bytes \<times> reader" where
  "ReadBytes r =
     rbind (ReadUint32 r) (\<lambda>(len, r).
       if (of_nat (r_max r) :: u32) < len then Inl ErrInvalidLength
       else if (of_nat (length (r_rest r)) :: u32) < len then Inl ErrInvalidLength
       else read_full (unat len) r)"

definition ReadFixedBytes :: "nat \<Rightarrow> reader \<Rightarrow> borsh_error + bytes \<times> reader" where
  "ReadFixedBytes n r =
     (if r_max r < n then Inl ErrInvalidLength
      else if length (r_rest r) < n then Inl ErrInvalidLength
      else read_full n r)"

definition ReadString :: "reader \<Rightarrow> borsh_error + gostring \<times> reader" where
  "ReadString r =
     rbind (ReadBytes r) (\<lambda>(v, r). if \<not> utf8_valid v then Inl ErrInvalidData else Inr (v, r))"

definition EnsureEOF :: "reader \<Rightarrow> borsh_error + unit" where
  "EnsureEOF r = (if r_rest r \<noteq> [] then Inl ErrInvalidData else Inr ())"

definition Remaining :: "reader \<Rightarrow> nat" where
  "Remaining r = length (r_rest r)"

text \<open>What the writers add to the buffer, as functions of the value.\<close>

definition enc_bytes :: "bytes \<Rightarrow> bytes" where
  "enc_bytes v = put_le 4 (of_nat (length v) :: u32) @ v"

definition enc_bool :: "bool \<Rightarrow> bytes" where
  "enc_bool v = [if v then 1 else 0]"

abbreviation at :: "bytes \<Rightarrow> nat \<Rightarrow> reader" where
  "at bs m \<equiv> \<lparr>r_rest = bs, r_max = m\<rparr>"

section \<open>The interface of a field format\<close>

text \<open>
  A field format gives the octets of a value and reads a value off the front of the input.
  Reading returns what was written and leaves what follows it (\<open>rd_wr\<close>), and a field that is
  accepted is one that could have been written, octet for octet (\<open>wr_rd\<close>): formats are
  canonical, so there is no second spelling of a value.
\<close>

locale borsh_codec =
  fixes wr :: "'a \<Rightarrow> bytes"
    and rd :: "reader \<Rightarrow> borsh_error + 'a \<times> reader"
    and ok :: "nat \<Rightarrow> 'a \<Rightarrow> bool"
  assumes rd_wr: "ok m x \<Longrightarrow> m < 2 ^ 32 \<Longrightarrow> length (wr x) + length rest < 2 ^ 32 \<Longrightarrow>
      rd (at (wr x @ rest) m) = Inr (x, at rest m)"
    and wr_rd: "rd (at bs m) = Inr (x, r') \<Longrightarrow>
      bs = wr x @ r_rest r' \<and> r_max r' = m \<and> ok m x"
begin

lemma rd_consumes:
  assumes "rd r = Inr (x, r')"
  shows "r_rest r = wr x @ r_rest r' \<and> r_max r' = r_max r \<and> ok (r_max r) x"
proof -
  have "at (r_rest r) (r_max r) = r" by simp
  with assms have "rd (at (r_rest r) (r_max r)) = Inr (x, r')" by (simp only:)
  then show ?thesis by (rule wr_rd)
qed

text \<open>The last field of a record has nothing after it.\<close>

lemma rd_wr_last: "ok m x \<Longrightarrow> m < 2 ^ 32 \<Longrightarrow> length (wr x) < 2 ^ 32 \<Longrightarrow> rd (at (wr x) m) = Inr (x, at [] m)"
  using rd_wr [of m x "[]"] by simp

text \<open>No encoding is a proper prefix of another: a sequence of fields has one reading.\<close>

lemma wr_prefix_free:
  assumes "ok m x" and "ok m y" and "m < 2 ^ 32"
    and "length (wr x) + length s < 2 ^ 32" and "wr x @ s = wr y @ t"
  shows "x = y \<and> s = t"
proof -
  have "rd (at (wr x @ s) m) = Inr (x, at s m)"
    by (rule rd_wr [OF assms(1,3,4)])
  moreover have "length (wr y) + length t = length (wr x) + length s"
    using arg_cong [OF assms(5) [symmetric], of length] by (simp only: length_append)
  then have "length (wr y) + length t < 2 ^ 32"
    using assms(4) by (simp only:)
  then have "rd (at (wr y @ t) m) = Inr (y, at t m)"
    by (rule rd_wr [OF assms(2,3)])
  ultimately have "(Inr (x, at s m) :: borsh_error + 'a \<times> reader) = Inr (y, at t m)"
    by (simp only: assms(5))
  then show ?thesis by simp
qed

end

section \<open>Instances\<close>

lemma read_full_at [simp]:
  "read_full n (at bs m) = (if length bs < n then Inl ErrInvalidData
     else Inr (take n bs, at (drop n bs) m))"
  by (simp add: read_full_def)

lemma read_full_le:
  assumes "rbind (read_full k (at bs m)) (\<lambda>(bs, r). Inr (get_le bs, r)) = Inr (x :: 'a::len word, r')"
    and "8 * k \<le> LENGTH('a)"
  shows "bs = put_le k x @ r_rest r' \<and> r_max r' = m"
  using assms by (auto simp: result_simps put_le_get_le split: if_splits)

interpretation bu8: borsh_codec "\<lambda>v. [v]" ReadUint8 "\<lambda>m v. True"
  by unfold_locales (auto simp: ReadUint8_def split: list.splits)

interpretation bu16: borsh_codec "put_le 2" ReadUint16 "\<lambda>m v. True"
proof unfold_locales
  show "bs = put_le 2 x @ r_rest r' \<and> r_max r' = m \<and> True"
    if "ReadUint16 (at bs m) = Inr (x, r')" for bs m x r'
    using read_full_le [of 2 bs m x r'] that by (simp add: ReadUint16_def)
qed (simp add: ReadUint16_def)

interpretation bu32: borsh_codec "put_le 4" ReadUint32 "\<lambda>m v. True"
proof unfold_locales
  show "bs = put_le 4 x @ r_rest r' \<and> r_max r' = m \<and> True"
    if "ReadUint32 (at bs m) = Inr (x, r')" for bs m x r'
    using read_full_le [of 4 bs m x r'] that by (simp add: ReadUint32_def)
qed (simp add: ReadUint32_def)

interpretation bu64: borsh_codec "put_le 8" ReadUint64 "\<lambda>m v. True"
proof unfold_locales
  show "bs = put_le 8 x @ r_rest r' \<and> r_max r' = m \<and> True"
    if "ReadUint64 (at bs m) = Inr (x, r')" for bs m x r'
    using read_full_le [of 8 bs m x r'] that by (simp add: ReadUint64_def)
qed (simp add: ReadUint64_def)

interpretation bbool: borsh_codec enc_bool ReadBool "\<lambda>m v. True"
  by unfold_locales
    (auto simp: ReadBool_def ReadUint8_def enc_bool_def result_simps split: list.splits if_splits)

interpretation bfixed: borsh_codec "\<lambda>v. v" "ReadFixedBytes n" "\<lambda>m v. length v = n \<and> n \<le> m" for n
  by unfold_locales (auto simp: ReadFixedBytes_def split: if_splits)

lemma ReadBytes_wr:
  assumes "length v \<le> m" and "m < 2 ^ 32" and "length (enc_bytes v) + length rest < 2 ^ 32"
  shows "ReadBytes (at (enc_bytes v @ rest) m) = Inr (v, at rest m)"
proof -
  have l: "unat (of_nat (length v) :: u32) = length v"
    and m: "unat (of_nat m :: u32) = m"
    using assms by (simp_all add: unat_of_nat)
  have r: "unat (of_nat (length v + length rest) :: u32) = length v + length rest"
    using assms(3) by (simp add: unat_of_nat enc_bytes_def del: of_nat_add)
  have g: "\<not> (of_nat m :: u32) < of_nat (length v)"
    "\<not> (of_nat (length v + length rest) :: u32) < of_nat (length v)"
    by (simp_all add: word_less_nat_alt l m r assms(1) not_less del: of_nat_add)
  have "ReadUint32 (at (enc_bytes v @ rest) m) = Inr (of_nat (length v), at (v @ rest) m)"
    using bu32.rd_wr [of m "of_nat (length v)" "v @ rest"] assms by (simp add: enc_bytes_def)
  then show ?thesis using g l by (simp add: ReadBytes_def)
qed

lemma ReadBytes_rd:
  assumes "ReadBytes (at bs m) = Inr (v, r')"
  shows "bs = enc_bytes v @ r_rest r' \<and> r_max r' = m \<and> length v \<le> m"
proof -
  obtain len r where len: "ReadUint32 (at bs m) = Inr (len, r)"
    and nle: "\<not> (of_nat (r_max r) :: u32) < len"
    and full: "read_full (unat len) r = Inr (v, r')"
    using assms by (auto simp: ReadBytes_def result_simps split: if_splits)
  from bu32.rd_consumes [OF len] have bs: "bs = put_le 4 len @ r_rest r" and m: "r_max r = m"
    by simp_all
  from full have v: "length v = unat len" "r_rest r = v @ r_rest r'" "r_max r' = m"
    using m by (auto simp: read_full_def split: if_splits)
  have "unat len \<le> unat (of_nat m :: u32)"
    using nle m by (simp add: word_less_nat_alt)
  also have "\<dots> \<le> m" by (simp add: unat_of_nat)
  finally have "length v \<le> m" using v(1) by simp
  moreover have "(of_nat (length v) :: u32) = len" using v(1) by simp
  ultimately show ?thesis using bs v by (simp add: enc_bytes_def)
qed

interpretation bbytes: borsh_codec enc_bytes ReadBytes "\<lambda>m v. length v \<le> m"
  by unfold_locales (rule ReadBytes_wr ReadBytes_rd, assumption+)+

interpretation bstring: borsh_codec enc_bytes ReadString "\<lambda>m v. length v \<le> m \<and> utf8_valid v"
proof unfold_locales
  fix m x and rest :: bytes
  assume "length x \<le> m \<and> utf8_valid x" "m < 2 ^ 32" "length (enc_bytes x) + length rest < 2 ^ 32"
  then show "ReadString (at (enc_bytes x @ rest) m) = Inr (x, at rest m)"
    by (simp add: ReadString_def ReadBytes_wr)
next
  fix bs m x r'
  assume "ReadString (at bs m) = Inr (x, r')"
  then have "ReadBytes (at bs m) = Inr (x, r')" and u: "utf8_valid x"
    by (auto simp: ReadString_def result_simps split: if_splits)
  from ReadBytes_rd [OF this(1)] u
  show "bs = enc_bytes x @ r_rest r' \<and> r_max r' = m \<and> length x \<le> m \<and> utf8_valid x" by simp
qed

lemmas borsh_reads [codec_simps] =
  bu8.rd_wr bu16.rd_wr bu32.rd_wr bu64.rd_wr bbool.rd_wr bfixed.rd_wr bbytes.rd_wr bstring.rd_wr
  bu8.rd_wr_last bu16.rd_wr_last bu32.rd_wr_last bu64.rd_wr_last bbool.rd_wr_last bbytes.rd_wr_last
  bstring.rd_wr_last bfixed.rd_wr_last

text \<open>The other direction: what a successful read says of the input.\<close>

lemmas borsh_consumes =
  bu8.rd_consumes bu16.rd_consumes bu32.rd_consumes bu64.rd_consumes bbool.rd_consumes
  bfixed.rd_consumes bbytes.rd_consumes bstring.rd_consumes

lemma length_enc_bytes [simp]: "length (enc_bytes v) = 4 + length v"
  by (simp add: enc_bytes_def)

lemma length_enc_bool [simp]: "length (enc_bool v) = 1"
  by (simp add: enc_bool_def)

lemma EnsureEOF_Inr [result_simps]: "EnsureEOF r = Inr u \<longleftrightarrow> r_rest r = []"
  by (simp add: EnsureEOF_def)

lemma EnsureEOF_end [codec_simps]: "EnsureEOF (at [] m) = Inr ()"
  by (simp add: EnsureEOF_def)

text \<open>What each writer adds.\<close>

lemma w_buffer_append [simp]: "w_buffer (w_append bs w) = w_buffer w @ bs"
  and w_max_append [simp]: "w_max (w_append bs w) = w_max w"
  by (simp_all add: w_append_def)

lemma WriteBytes_Inr:
  "WriteBytes v w = Inr w' \<longleftrightarrow> length v \<le> w_max w \<and> w' = w_append (enc_bytes v) w"
  by (auto simp: WriteBytes_def WriteUint32_def w_append_def enc_bytes_def)

lemma WriteString_Inr:
  "WriteString v w = Inr w' \<longleftrightarrow>
     utf8_valid v \<and> length v \<le> w_max w \<and> w' = w_append (enc_bytes v) w"
  by (auto simp: WriteString_def WriteBytes_Inr)

lemma WriteBool_eq: "WriteBool v w = w_append (enc_bool v) w"
  by (simp add: WriteBool_def enc_bool_def)

lemma normalizeMax_pos: "0 < k \<Longrightarrow> k < 2 ^ 32 \<Longrightarrow> normalizeMaxContainerLength k = nat k"
  by (simp add: normalizeMaxContainerLength_def)

lemma normalizeMax_less: "normalizeMaxContainerLength k < 2 ^ 32"
  unfolding normalizeMaxContainerLength_def DefaultMaxContainerLength_def by auto

section \<open>The interface of a whole message\<close>

text \<open>
  A record that is sent or stored has a \<open>MarshalBinary\<close>, which validates and encodes, and an
  \<open>Unmarshal...Binary\<close>, which decodes, refuses trailing octets and validates. The two laws say
  that they are inverse to each other on what they accept. \<open>wf\<close> picks the values that carry no
  field the encoding does not write (the parameters of another instruction type, say).
\<close>

locale message_codec =
  fixes wf :: "'a \<Rightarrow> bool"
    and marshal :: "'a \<Rightarrow> 'e + bytes"
    and unmarshal :: "bytes \<Rightarrow> 'e + 'a"
  assumes unmarshal_marshal: "wf x \<Longrightarrow> marshal x = Inr bs \<Longrightarrow> unmarshal bs = Inr x"
    and marshal_unmarshal: "unmarshal bs = Inr x \<Longrightarrow> wf x \<and> marshal x = Inr bs"
begin

lemma codec_iff: "unmarshal bs = Inr x \<longleftrightarrow> wf x \<and> marshal x = Inr bs"
  by (blast dest: marshal_unmarshal unmarshal_marshal)

lemma marshal_inj: "wf x \<Longrightarrow> wf y \<Longrightarrow> marshal x = Inr bs \<Longrightarrow> marshal y = Inr bs \<Longrightarrow> x = y"
  by (metis unmarshal_marshal sum.inject(2))

text \<open>A message has one encoding: two accepted byte strings for one value are the same.\<close>

lemma unmarshal_inj: "unmarshal bs = Inr x \<Longrightarrow> unmarshal cs = Inr x \<Longrightarrow> bs = cs"
  by (metis marshal_unmarshal sum.inject(2))

lemma accepts_iff: "(\<exists>x. unmarshal bs = Inr x) \<longleftrightarrow> (\<exists>x. wf x \<and> marshal x = Inr bs)"
  by (blast intro: unmarshal_marshal dest: marshal_unmarshal)

end

end
