(* ===== verification/Structure_Base.thy ===== *)
theory Structure_Base
  imports Borsh
begin

text \<open>
  The value objects of the package \<open>structure\<close> that every later component shares: its errors,
  the permission metadata of an account, the compiled instruction, the message header, the
  resolved message, the table of builtin program identifiers, and checked \<open>uint64\<close> arithmetic.
\<close>

section \<open>Errors\<close>

text \<open>
  The sentinels of \<open>structure/errors.go\<close>. An error that wraps one of \<open>codec/borsh\<close> is
  \<open>SBorsh\<close>, and an error with a text and no sentinel is \<open>SText\<close>.
\<close>

datatype structure_error =
    ErrInvalidMessageHeader | ErrEmptyAccountKeys | ErrEmptyRecentBlockhash | ErrEmptyInstructions
  | ErrInvalidAccountMeta | ErrInvalidAccount | ErrInvalidRentConfig | ErrAccountDataTooLarge
  | ErrInsufficientLamports | ErrRentExemption | ErrInvalidInstruction | ErrInvalidSystemInstruction
  | ErrInvalidFee | ErrInvalidExecutionResult | ErrInvalidLoadedTransaction | ErrInvalidSysvar
  | ErrInvalidBlockhashQueue | ErrInvalidStatusCache | ErrInvalidAddressTableLookup
  | ErrInvalidMessageVersion | ErrInvalidTransactionEncoding | ErrTransactionTooLarge
  | ErrMissingWritableSigner | ErrMissingRequiredSignature | ErrTooManyTransactions
  | ErrInvalidBlockHeader | ErrEmptyBlockhash
  | SBorsh borsh_error
  | SText string

section \<open>Fixed-width values\<close>

definition PublicKeySize :: nat where
  "PublicKeySize = 32"

definition HashSize :: nat where
  "HashSize = 32"

definition SignatureSize :: nat where
  "SignatureSize = 64"

text \<open>\<open>NewPublicKey\<close> and \<open>NewHash\<close> copy exactly 32 octets, \<open>NewSignature\<close> exactly 64.\<close>

definition NewPublicKey :: "bytes \<Rightarrow> structure_error + pubkey" where
  "NewPublicKey value =
     (if length value \<noteq> PublicKeySize then Inl (SText ''public key length'') else Inr (get_le value))"

definition NewHash :: "bytes \<Rightarrow> structure_error + hash" where
  "NewHash value =
     (if length value \<noteq> HashSize then Inl (SText ''hash length'') else Inr (get_le value))"

definition NewSignature :: "bytes \<Rightarrow> structure_error + signature" where
  "NewSignature value =
     (if length value \<noteq> SignatureSize then Inl (SText ''signature length'') else Inr (get_le value))"

abbreviation key_bytes :: "pubkey \<Rightarrow> bytes" where
  "key_bytes k \<equiv> put_le 32 k"

lemma NewPublicKey_key_bytes [simp]: "NewPublicKey (key_bytes k) = Inr k"
  by (simp add: NewPublicKey_def PublicKeySize_def)

lemma NewPublicKey_Inr: "NewPublicKey bs = Inr k \<longleftrightarrow> bs = key_bytes k"
  by (auto simp: NewPublicKey_def PublicKeySize_def put_le_get_le)

lemma NewHash_key_bytes [simp]: "NewHash (key_bytes k) = Inr k"
  by (simp add: NewHash_def HashSize_def)

lemma NewHash_Inr: "NewHash bs = Inr k \<longleftrightarrow> bs = key_bytes k"
  by (auto simp: NewHash_def HashSize_def put_le_get_le)

lemma NewSignature_Inr: "NewSignature bs = Inr k \<longleftrightarrow> bs = put_le 64 k"
  by (auto simp: NewSignature_def SignatureSize_def put_le_get_le)

lemma NewSignature_put [simp]: "NewSignature (put_le 64 k) = Inr k"
  by (simp add: NewSignature_def SignatureSize_def)

section \<open>Checked arithmetic\<close>

definition safeAddUint64 :: "u64 \<Rightarrow> u64 \<Rightarrow> structure_error + u64" where
  "safeAddUint64 left right = (if - 1 - right < left then Inl ErrInvalidAccount else Inr (left + right))"

definition safeMulUint64 :: "u64 \<Rightarrow> u64 \<Rightarrow> structure_error + u64" where
  "safeMulUint64 left right =
     (if left = 0 \<or> right = 0 then Inr 0
      else if - 1 div right < left then Inl ErrInvalidAccount
      else Inr (left * right))"

lemma safeAddUint64_Inr:
  "safeAddUint64 a b = Inr c \<longleftrightarrow> unat a + unat b < 2 ^ 64 \<and> c = a + b"
  by (auto simp: safeAddUint64_def add_guard)

lemma safeAddUint64_unat: "safeAddUint64 a b = Inr c \<Longrightarrow> unat c = unat a + unat b"
  by (simp add: safeAddUint64_Inr unat_word_ariths)

lemma safeMulUint64_Inr:
  "safeMulUint64 a b = Inr c \<longleftrightarrow> unat a * unat b < 2 ^ 64 \<and> c = a * b"
  by (auto simp: safeMulUint64_def mul_guard)

lemma safeMulUint64_unat: "safeMulUint64 a b = Inr c \<Longrightarrow> unat c = unat a * unat b"
  by (simp add: safeMulUint64_Inr unat_word_ariths)

section \<open>Instructions and messages\<close>

record AccountMeta =
  m_key :: pubkey
  m_signer :: bool
  m_writable :: bool

record MessageHeader =
  h_required :: u8
  h_ro_signed :: u8
  h_ro_unsigned :: u8

record CompiledInstruction =
  ci_program :: u8
  ci_accounts :: "u8 list"
  ci_data :: bytes

record MessageAddressTableLookup =
  l_key :: pubkey
  l_writable :: "u8 list"
  l_readonly :: "u8 list"

record OrdexusMessage =
  msg_header :: MessageHeader
  msg_keys :: "pubkey list"
  msg_blockhash :: hash
  msg_instructions :: "CompiledInstruction list"
  msg_lookups :: "MessageAddressTableLookup list"
  msg_version :: u8
  msg_uses_table :: bool

record LoadedAddresses =
  la_writable :: "pubkey list"
  la_readonly :: "pubkey list"

record ResolvedMessage =
  rm_header :: MessageHeader
  rm_static_keys :: "pubkey list"
  rm_loaded :: LoadedAddresses
  rm_keys :: "pubkey list"
  rm_blockhash :: hash
  rm_instructions :: "CompiledInstruction list"

record BuiltinProgramIDs =
  pid_System :: pubkey
  pid_ComputeBudget :: pubkey
  pid_AddressLookupTable :: pubkey
  pid_NativeLoader :: pubkey
  pid_BPFLoader :: pubkey
  pid_Vote :: pubkey
  pid_Token :: pubkey
  pid_Stake :: pubkey
  pid_Config :: pubkey
  pid_Shielded :: pubkey

definition BuiltinProgramIDs_Validate :: "BuiltinProgramIDs \<Rightarrow> structure_error + unit" where
  "BuiltinProgramIDs_Validate p =
     (if pid_ComputeBudget p = 0 \<or> pid_AddressLookupTable p = 0 \<or> pid_NativeLoader p = 0 \<or>
         pid_BPFLoader p = 0 \<or> pid_Vote p = 0 \<or> pid_Token p = 0 \<or> pid_Stake p = 0 \<or>
         pid_Config p = 0 \<or> pid_Shielded p = 0
      then Inl ErrInvalidAccount else Inr ())"

definition IsBuiltinProgram :: "BuiltinProgramIDs \<Rightarrow> pubkey \<Rightarrow> bool" where
  "IsBuiltinProgram p k \<longleftrightarrow>
     k = pid_System p \<or> k = pid_ComputeBudget p \<or> k = pid_AddressLookupTable p \<or>
     k = pid_NativeLoader p \<or> k = pid_BPFLoader p \<or> k = pid_Vote p \<or> k = pid_Token p \<or>
     k = pid_Stake p \<or> k = pid_Config p \<or> k = pid_Shielded p"

end
