(* ===== verification/Accounts.thy ===== *)
theory Accounts
  imports Structure_Base "HOL-Library.Multiset"
begin

text \<open>
  \<open>structure/account.go\<close>: the ledger account, the rent parameters and the balance an account has
  to keep, the operations that change an account, its binary form, and the account metadata
  that the message builder merges and sorts.
\<close>

section \<open>Rent\<close>

definition MaxAccountDataSize :: nat where
  "MaxAccountDataSize = 10 * 1024 * 1024"

definition MaxAccountDataIncreasePerInstruction :: nat where
  "MaxAccountDataIncreasePerInstruction = 60 * 1024"

record RentConfig =
  rc_per_byte_year :: u64
  rc_years :: u64
  rc_overhead :: u64

definition DefaultRentConfig :: RentConfig where
  "DefaultRentConfig = \<lparr>rc_per_byte_year = 3480, rc_years = 2, rc_overhead = 128\<rparr>"

definition RentConfig_Validate :: "RentConfig \<Rightarrow> structure_error + unit" where
  "RentConfig_Validate rc =
     (if rc_per_byte_year rc = 0 then Inl ErrInvalidRentConfig
      else if rc_years rc = 0 then Inl ErrInvalidRentConfig
      else Inr ())"

definition MinimumBalance :: "RentConfig \<Rightarrow> int \<Rightarrow> structure_error + u64" where
  "MinimumBalance rc dataLength =
     rbind (RentConfig_Validate rc) (\<lambda>_.
       if dataLength < 0 then Inl ErrInvalidAccount
       else if int MaxAccountDataSize < dataLength then Inl ErrAccountDataTooLarge
       else
         rbind (safeAddUint64 (word_of_int dataLength) (rc_overhead rc)) (\<lambda>totalBytes.
         rbind (safeMulUint64 totalBytes (rc_per_byte_year rc)) (\<lambda>lamportsPerYear.
           safeMulUint64 lamportsPerYear (rc_years rc))))"

section \<open>Accounts\<close>

record account =
  a_lamports :: u64
  a_data :: bytes
  a_owner :: pubkey
  a_executable :: bool
  a_rent_epoch :: u64

definition ValidateWithRent :: "account \<Rightarrow> RentConfig \<Rightarrow> structure_error + unit" where
  "ValidateWithRent a rc =
     (if MaxAccountDataSize < length (a_data a) then Inl ErrAccountDataTooLarge
      else if a_lamports a = 0 then
        (if a_data a \<noteq> [] \<or> a_executable a then Inl ErrRentExemption else Inr ())
      else
        rbind (MinimumBalance rc (int (length (a_data a)))) (\<lambda>minimumBalance.
          if a_lamports a < minimumBalance then Inl ErrRentExemption else Inr ()))"

definition Account_Validate :: "account \<Rightarrow> structure_error + unit" where
  "Account_Validate a = ValidateWithRent a DefaultRentConfig"

definition NewAccountWithRent ::
    "u64 \<Rightarrow> bytes \<Rightarrow> pubkey \<Rightarrow> bool \<Rightarrow> u64 \<Rightarrow> RentConfig \<Rightarrow> structure_error + account" where
  "NewAccountWithRent lamports data owner executable rentEpoch rc =
     (let a = \<lparr>a_lamports = lamports, a_data = data, a_owner = owner,
               a_executable = executable, a_rent_epoch = rentEpoch\<rparr>
      in rbind (ValidateWithRent a rc) (\<lambda>_. Inr a))"

definition NewAccount :: "u64 \<Rightarrow> bytes \<Rightarrow> pubkey \<Rightarrow> bool \<Rightarrow> u64 \<Rightarrow> structure_error + account" where
  "NewAccount lamports data owner executable rentEpoch =
     NewAccountWithRent lamports data owner executable rentEpoch DefaultRentConfig"

definition IsRentExempt :: "account \<Rightarrow> RentConfig \<Rightarrow> structure_error + bool" where
  "IsRentExempt a rc =
     rbind (MinimumBalance rc (int (length (a_data a)))) (\<lambda>minimumBalance.
       Inr (minimumBalance \<le> a_lamports a))"

text \<open>
  The methods with a pointer receiver return the changed account; an error leaves the caller's
  account as it was. A nil receiver is not a value of the model.
\<close>

definition CreditLamports :: "account \<Rightarrow> u64 \<Rightarrow> structure_error + account" where
  "CreditLamports a lamports =
     rbind (safeAddUint64 (a_lamports a) lamports) (\<lambda>nextLamports. Inr (a\<lparr>a_lamports := nextLamports\<rparr>))"

definition DebitLamports :: "account \<Rightarrow> u64 \<Rightarrow> RentConfig \<Rightarrow> structure_error + account" where
  "DebitLamports a lamports rc =
     (if a_lamports a < lamports then Inl ErrInsufficientLamports
      else
        let nextAccount = a\<lparr>a_lamports := a_lamports a - lamports\<rparr>
        in rbind (ValidateWithRent nextAccount rc) (\<lambda>_. Inr nextAccount))"

definition SetData :: "account \<Rightarrow> bytes \<Rightarrow> RentConfig \<Rightarrow> structure_error + account" where
  "SetData a data rc =
     (if MaxAccountDataSize < length data then Inl ErrAccountDataTooLarge
      else if length (a_data a) + MaxAccountDataIncreasePerInstruction < length data
        then Inl ErrAccountDataTooLarge
      else
        let nextAccount = a\<lparr>a_data := data\<rparr>
        in rbind (ValidateWithRent nextAccount rc) (\<lambda>_. Inr nextAccount))"

definition ResizeData :: "account \<Rightarrow> int \<Rightarrow> RentConfig \<Rightarrow> structure_error + account" where
  "ResizeData a dataLength rc =
     (if dataLength < 0 then Inl ErrInvalidAccount
      else if int MaxAccountDataSize < dataLength then Inl ErrAccountDataTooLarge
      else if int (length (a_data a)) + int MaxAccountDataIncreasePerInstruction < dataLength
        then Inl ErrAccountDataTooLarge
      else
        let n = nat dataLength
        in SetData a (take n (a_data a) @ replicate (n - length (a_data a)) 0) rc)"

definition Account_MarshalBinary :: "account \<Rightarrow> structure_error + bytes" where
  "Account_MarshalBinary a =
     rbind (Account_Validate a) (\<lambda>_.
       let w = WriteUint64 (a_lamports a) (NewWriter (int MaxAccountDataSize)) in
       rbind (wrap_err SBorsh (WriteBytes (a_data a) w)) (\<lambda>w.
         let w = WriteFixedBytes (key_bytes (a_owner a)) w;
             w = WriteBool (a_executable a) w;
             w = WriteUint64 (a_rent_epoch a) w
         in Inr (w_buffer w)))"

definition UnmarshalAccountBinary :: "bytes \<Rightarrow> structure_error + account" where
  "UnmarshalAccountBinary data =
     (let r = NewReader data (int MaxAccountDataSize) in
      rbind (wrap_err SBorsh (ReadUint64 r)) (\<lambda>(lamports, r).
      rbind (wrap_err SBorsh (ReadBytes r)) (\<lambda>(accountData, r).
      rbind (wrap_err SBorsh (ReadFixedBytes PublicKeySize r)) (\<lambda>(ownerBytes, r).
      rbind (NewPublicKey ownerBytes) (\<lambda>owner.
      rbind (wrap_err SBorsh (ReadBool r)) (\<lambda>(executable, r).
      rbind (wrap_err SBorsh (ReadUint64 r)) (\<lambda>(rentEpoch, r).
      rbind (wrap_err SBorsh (EnsureEOF r)) (\<lambda>_.
        let a = \<lparr>a_lamports = lamports, a_data = accountData, a_owner = owner,
                 a_executable = executable, a_rent_epoch = rentEpoch\<rparr>
        in rbind (Account_Validate a) (\<lambda>_. Inr a)))))))))"

section \<open>Account metadata\<close>

definition accountPermissionGroup :: "AccountMeta \<Rightarrow> nat" where
  "accountPermissionGroup m =
     (if m_signer m \<and> m_writable m then 0
      else if m_signer m then 1
      else if m_writable m then 2
      else 3)"

definition IsFeePayer :: "AccountMeta \<Rightarrow> bool" where
  "IsFeePayer m \<longleftrightarrow> m_signer m \<and> m_writable m"

text \<open>\<open>sort.SliceStable\<close> on the permission group.\<close>

definition SortAccountMetasForMessage :: "AccountMeta list \<Rightarrow> AccountMeta list" where
  "SortAccountMetasForMessage ms = sort_key accountPermissionGroup ms"

text \<open>The loop of \<open>MergeAccountMetas\<close>; the index map always locates the one entry with the key.\<close>

fun merge_meta :: "AccountMeta list \<Rightarrow> AccountMeta \<Rightarrow> AccountMeta list" where
  "merge_meta [] m = [m]"
| "merge_meta (x # xs) m =
     (if m_key x = m_key m
      then x\<lparr>m_signer := m_signer x \<or> m_signer m, m_writable := m_writable x \<or> m_writable m\<rparr> # xs
      else x # merge_meta xs m)"

definition MergeAccountMetas :: "AccountMeta list \<Rightarrow> AccountMeta list" where
  "MergeAccountMetas ms = foldl merge_meta [] ms"

definition MaxAccountsPerTransaction :: nat where
  "MaxAccountsPerTransaction = 64"

fun index_metas :: "nat \<Rightarrow> (pubkey \<rightharpoonup> u8) \<Rightarrow> AccountMeta list \<Rightarrow> structure_error + (pubkey \<rightharpoonup> u8)" where
  "index_metas i ix [] = Inr ix"
| "index_metas i ix (m # ms) =
     (if ix (m_key m) \<noteq> None then Inl ErrInvalidAccountMeta
      else index_metas (Suc i) (ix(m_key m \<mapsto> of_nat i)) ms)"

definition AccountIndexMap :: "AccountMeta list \<Rightarrow> structure_error + (pubkey \<rightharpoonup> u8)" where
  "AccountIndexMap ms =
     (if MaxAccountsPerTransaction < length ms then Inl (SText ''account count'')
      else index_metas 0 Map.empty ms)"

section \<open>Rent facts\<close>

lemma MinimumBalance_unat:
  assumes "MinimumBalance rc (int n) = Inr m"
  shows "unat m = (n + unat (rc_overhead rc)) * unat (rc_per_byte_year rc) * unat (rc_years rc)"
proof -
  have n: "n < 2 ^ 64" if "\<not> int MaxAccountDataSize < int n"
    using that by (simp add: MaxAccountDataSize_def)
  from assms obtain t y where g: "\<not> int MaxAccountDataSize < int n"
    and t: "safeAddUint64 (word_of_int (int n)) (rc_overhead rc) = Inr t"
    and y: "safeMulUint64 t (rc_per_byte_year rc) = Inr y"
    and m: "safeMulUint64 y (rc_years rc) = Inr m"
    by (auto simp: MinimumBalance_def result_simps split: if_splits)
  have "unat (word_of_int (int n) :: u64) = n"
    using n [OF g] by (simp add: unat_of_nat)
  then show ?thesis
    using safeAddUint64_unat [OF t] safeMulUint64_unat [OF y] safeMulUint64_unat [OF m] by simp
qed

lemma ValidateWithRent_frame:
  "a_lamports a = a_lamports b \<Longrightarrow> a_data a = a_data b \<Longrightarrow> a_executable a = a_executable b \<Longrightarrow>
   ValidateWithRent a rc = ValidateWithRent b rc"
  by (simp add: ValidateWithRent_def)

text \<open>The validity of an account, with the arithmetic carried out.\<close>

lemma ValidateWithRent_pos:
  assumes "ValidateWithRent a rc = Inr ()" and "a_lamports a \<noteq> 0"
  shows "(length (a_data a) + unat (rc_overhead rc)) * unat (rc_per_byte_year rc) * unat (rc_years rc)
           \<le> unat (a_lamports a)"
proof -
  from assms obtain mb where mb: "MinimumBalance rc (int (length (a_data a))) = Inr mb"
    and le: "mb \<le> a_lamports a"
    by (auto simp: ValidateWithRent_def result_simps split: if_splits)
  from MinimumBalance_unat [OF mb] le show ?thesis
    by (simp add: word_le_nat_alt)
qed

lemma DebitLamports_Inr:
  "DebitLamports a l rc = Inr b \<longleftrightarrow>
     l \<le> a_lamports a \<and> b = a\<lparr>a_lamports := a_lamports a - l\<rparr> \<and> ValidateWithRent b rc = Inr ()"
  by (auto simp: DebitLamports_def Let_def result_simps not_less)

lemma CreditLamports_Inr:
  "CreditLamports a l = Inr b \<longleftrightarrow>
     unat (a_lamports a) + unat l < 2 ^ 64 \<and> b = a\<lparr>a_lamports := a_lamports a + l\<rparr>"
  by (auto simp: CreditLamports_def safeAddUint64_Inr result_simps)

lemma debit_unat:
  "DebitLamports a l rc = Inr b \<Longrightarrow> unat (a_lamports b) + unat l = unat (a_lamports a)"
  by (auto simp: DebitLamports_Inr unat_sub word_le_nat_alt)

lemma credit_unat:
  "CreditLamports a l = Inr b \<Longrightarrow> unat (a_lamports b) = unat (a_lamports a) + unat l"
  by (auto simp: CreditLamports_Inr unat_word_ariths)

lemma SetData_Inr:
  "SetData a d rc = Inr b \<longleftrightarrow>
     length d \<le> MaxAccountDataSize \<and>
     length d \<le> length (a_data a) + MaxAccountDataIncreasePerInstruction \<and>
     b = a\<lparr>a_data := d\<rparr> \<and> ValidateWithRent b rc = Inr ()"
  by (auto simp: SetData_def Let_def result_simps)

section \<open>The binary form\<close>

definition account_layout :: "account \<Rightarrow> bytes" where
  "account_layout a =
     put_le 8 (a_lamports a) @ enc_bytes (a_data a) @ key_bytes (a_owner a) @
     enc_bool (a_executable a) @ put_le 8 (a_rent_epoch a)"

lemma Account_Validate_size: "Account_Validate a = Inr () \<Longrightarrow> length (a_data a) \<le> MaxAccountDataSize"
  by (auto simp: Account_Validate_def ValidateWithRent_def split: if_splits)

lemma account_max: "normalizeMaxContainerLength (int MaxAccountDataSize) = MaxAccountDataSize"
  by (simp add: normalizeMaxContainerLength_def MaxAccountDataSize_def)

lemma Account_MarshalBinary_Inr:
  "Account_MarshalBinary a = Inr bs \<longleftrightarrow> Account_Validate a = Inr () \<and> bs = account_layout a"
  by (auto simp: Account_MarshalBinary_def Let_def result_simps WriteBytes_Inr WriteUint64_def
      WriteFixedBytes_def WriteBool_eq NewWriter_def account_max account_layout_def
      dest: Account_Validate_size)

lemma UnmarshalAccount_layout:
  assumes "Account_Validate a = Inr ()"
  shows "UnmarshalAccountBinary (account_layout a) = Inr a"
  using Account_Validate_size [OF assms] assms
  by (cases a) (simp add: UnmarshalAccountBinary_def NewReader_def normalizeMax_pos account_layout_def Let_def
      codec_simps MaxAccountDataSize_def PublicKeySize_def)

lemma UnmarshalAccount_Inr:
  assumes "UnmarshalAccountBinary bs = Inr a"
  shows "bs = account_layout a \<and> Account_Validate a = Inr ()"
  using assms
  by (auto simp: UnmarshalAccountBinary_def NewReader_def Let_def result_simps NewPublicKey_Inr
      account_layout_def dest!: borsh_consumes)

interpretation account_message:
    message_codec "\<lambda>_. True" Account_MarshalBinary UnmarshalAccountBinary
  by unfold_locales
    (auto simp: Account_MarshalBinary_Inr UnmarshalAccount_layout dest: UnmarshalAccount_Inr)

section \<open>The life of an account\<close>

text \<open>
  An account changes by these steps. \<open>CreditLamports\<close> itself does not look at the rent: whoever
  credits an empty account validates it afterwards, as \<open>runtime.TransferLamports\<close> does.
\<close>

inductive account_step :: "RentConfig \<Rightarrow> account \<Rightarrow> account \<Rightarrow> bool" for rc where
  debit: "DebitLamports a l rc = Inr b \<Longrightarrow> account_step rc a b"
| credit: "CreditLamports a l = Inr b \<Longrightarrow> a_lamports a \<noteq> 0 \<Longrightarrow> account_step rc a b"
| fund: "CreditLamports a l = Inr b \<Longrightarrow> ValidateWithRent b rc = Inr () \<Longrightarrow> account_step rc a b"
| set_data: "SetData a d rc = Inr b \<Longrightarrow> account_step rc a b"
| resize: "ResizeData a n rc = Inr b \<Longrightarrow> account_step rc a b"

lemma ResizeData_Inr:
  assumes "ResizeData a n rc = Inr b"
  shows "ValidateWithRent b rc = Inr () \<and> a_data b = take (nat n) (a_data a) @ replicate (nat n - length (a_data a)) 0"
  using assms by (auto simp: ResizeData_def SetData_Inr Let_def result_simps)

lemma credit_keeps_rent:
  assumes "CreditLamports a l = Inr b" and "a_lamports a \<noteq> 0" and "ValidateWithRent a rc = Inr ()"
  shows "ValidateWithRent b rc = Inr ()"
proof -
  have "unat (a_lamports b) = unat (a_lamports a) + unat l" by (rule credit_unat [OF assms(1)])
  moreover have "a_data b = a_data a" "a_executable b = a_executable a"
    using assms(1) by (auto simp: CreditLamports_Inr)
  moreover have "0 < unat (a_lamports a)" using assms(2) by (simp add: unat_gt_0)
  ultimately show ?thesis
    using assms(2,3)
    by (auto simp: ValidateWithRent_def result_simps word_le_nat_alt word_less_nat_alt not_less
        simp flip: unat_eq_zero split: if_splits)
qed

interpretation account_life: step_invariant "account_step rc" "\<lambda>a. ValidateWithRent a rc = Inr ()" for rc
proof
  fix a b
  assume "ValidateWithRent a rc = Inr ()" and "account_step rc a b"
  from this(2,1) show "ValidateWithRent b rc = Inr ()"
    by induction (auto simp: DebitLamports_Inr SetData_Inr dest: ResizeData_Inr intro: credit_keeps_rent)
qed

section \<open>Merging account metas\<close>

definition permits :: "AccountMeta list \<Rightarrow> pubkey \<Rightarrow> (bool \<times> bool) option" where
  "permits ms k =
     (if k \<in> m_key ` set ms
      then Some (\<exists>m \<in> set ms. m_key m = k \<and> m_signer m, \<exists>m \<in> set ms. m_key m = k \<and> m_writable m)
      else None)"

lemma keys_merge_meta:
  "m_key ` set (merge_meta xs m) = insert (m_key m) (m_key ` set xs)"
  by (induction xs) auto

lemma distinct_merge_meta:
  "distinct (map m_key xs) \<Longrightarrow> distinct (map m_key (merge_meta xs m))"
proof (induction xs)
  case (Cons x xs)
  moreover have "m_key x \<notin> m_key ` set (merge_meta xs m)" if "m_key x \<noteq> m_key m"
    using Cons.prems that by (simp add: keys_merge_meta)
  ultimately show ?case by (auto simp: image_iff)
qed simp

lemma flags_merge_meta:
  "(\<exists>x \<in> set (merge_meta xs m). m_key x = k \<and> m_signer x) \<longleftrightarrow>
     (\<exists>x \<in> set (xs @ [m]). m_key x = k \<and> m_signer x)"
  "(\<exists>x \<in> set (merge_meta xs m). m_key x = k \<and> m_writable x) \<longleftrightarrow>
     (\<exists>x \<in> set (xs @ [m]). m_key x = k \<and> m_writable x)"
  by (induction xs) auto

lemma MergeAccountMetas_snoc: "MergeAccountMetas (ms @ [m]) = merge_meta (MergeAccountMetas ms) m"
  by (simp add: MergeAccountMetas_def)

lemma distinct_MergeAccountMetas: "distinct (map m_key (MergeAccountMetas ms))"
  by (induction ms rule: rev_induct) (simp_all add: MergeAccountMetas_def distinct_merge_meta)

lemma keys_MergeAccountMetas: "m_key ` set (MergeAccountMetas ms) = m_key ` set ms"
  by (induction ms rule: rev_induct)
    (simp_all add: MergeAccountMetas_snoc keys_merge_meta, simp add: MergeAccountMetas_def)

lemma flags_MergeAccountMetas:
  "(\<exists>x \<in> set (MergeAccountMetas ms). m_key x = k \<and> m_signer x) \<longleftrightarrow>
     (\<exists>x \<in> set ms. m_key x = k \<and> m_signer x)"
  "(\<exists>x \<in> set (MergeAccountMetas ms). m_key x = k \<and> m_writable x) \<longleftrightarrow>
     (\<exists>x \<in> set ms. m_key x = k \<and> m_writable x)"
proof (induction ms rule: rev_induct)
  case (snoc m ms)
  {
    case 1
    from snoc.IH(1) show ?case unfolding MergeAccountMetas_snoc flags_merge_meta by simp
  next
    case 2
    from snoc.IH(2) show ?case unfolding MergeAccountMetas_snoc flags_merge_meta by simp
  }
qed (simp_all add: MergeAccountMetas_def)

lemma permits_MergeAccountMetas: "permits (MergeAccountMetas ms) = permits ms"
  unfolding permits_def fun_eq_iff keys_MergeAccountMetas flags_MergeAccountMetas by simp

section \<open>Properties\<close>

text \<open>
  C33: \<open>MinimumBalance\<close> returns exactly the rent-exempt balance (data length plus overhead, times the
  price per byte and year, times the years), and it succeeds exactly when the parameters are
  valid, the length is within the limit and that number fits in a \<open>uint64\<close>: no wrap-around.
\<close>

theorem MinimumBalance_exact:
  "MinimumBalance rc (int n) = Inr m \<longleftrightarrow>
     rc_per_byte_year rc \<noteq> 0 \<and> rc_years rc \<noteq> 0 \<and> n \<le> MaxAccountDataSize \<and>
     (n + unat (rc_overhead rc)) * unat (rc_per_byte_year rc) * unat (rc_years rc) = unat m"
proof
  assume "MinimumBalance rc (int n) = Inr m"
  with MinimumBalance_unat [OF this]
  show "rc_per_byte_year rc \<noteq> 0 \<and> rc_years rc \<noteq> 0 \<and> n \<le> MaxAccountDataSize \<and>
     (n + unat (rc_overhead rc)) * unat (rc_per_byte_year rc) * unat (rc_years rc) = unat m"
    by (auto simp: MinimumBalance_def RentConfig_Validate_def result_simps split: if_splits)
next
  let ?p = "unat (rc_per_byte_year rc)" and ?y = "unat (rc_years rc)" and ?t = "n + unat (rc_overhead rc)"
  assume a: "rc_per_byte_year rc \<noteq> 0 \<and> rc_years rc \<noteq> 0 \<and> n \<le> MaxAccountDataSize \<and> ?t * ?p * ?y = unat m"
  then have "1 \<le> ?p" "1 \<le> ?y" by (simp_all add: Suc_le_eq unat_gt_0)
  then have b: "?t \<le> ?t * ?p" "?t * ?p \<le> ?t * ?p * ?y" by simp_all
  moreover have m: "unat m < 2 ^ 64" using unsigned_less [of m] by simp
  ultimately have lt: "?t < 2 ^ 64" "?t * ?p < 2 ^ 64" "?t * ?p * ?y < 2 ^ 64" using a by linarith+
  define t l where "t = (of_nat n + rc_overhead rc :: u64)" and "l = t * rc_per_byte_year rc"
  have n: "unat (of_nat n :: u64) = n" using lt(1) by (simp add: unat_of_nat)
  have t: "unat t = ?t" using lt(1) by (simp add: t_def unat_word_ariths n)
  have l: "unat l = ?t * ?p" using lt(2) by (simp add: l_def unat_word_ariths t)
  have "m = l * rc_years rc"
    using a lt(3) l by (intro word_unat_eq_iff [THEN iffD2]) (simp add: unat_word_ariths)
  then have "safeMulUint64 l (rc_years rc) = Inr m" using lt(3) l by (simp add: safeMulUint64_Inr)
  moreover have "safeMulUint64 t (rc_per_byte_year rc) = Inr l"
    using lt(2) t by (simp add: safeMulUint64_Inr l_def)
  moreover have "safeAddUint64 (word_of_int (int n)) (rc_overhead rc) = Inr t"
    using lt(1) n by (simp add: safeAddUint64_Inr t_def)
  ultimately show "MinimumBalance rc (int n) = Inr m"
    using a by (simp add: MinimumBalance_def RentConfig_Validate_def)
qed


lemma sample_account_steps:
  "NewAccountWithRent 1000000 [] 7 False 0 DefaultRentConfig =
     Inr \<lparr>a_lamports = 1000000, a_data = [], a_owner = 7, a_executable = False, a_rent_epoch = 0\<rparr>"
  "DebitLamports \<lparr>a_lamports = 1000000, a_data = [], a_owner = 7, a_executable = False, a_rent_epoch = 0\<rparr>
     100000 DefaultRentConfig =
     Inr \<lparr>a_lamports = 900000, a_data = [], a_owner = 7, a_executable = False, a_rent_epoch = 0\<rparr>"
  by (simp_all add: NewAccountWithRent_def DebitLamports_def ValidateWithRent_def MinimumBalance_def
      RentConfig_Validate_def DefaultRentConfig_def MaxAccountDataSize_def safeAddUint64_def
      safeMulUint64_def)


text \<open>
  the binary form of accounts is canonical: \<open>UnmarshalAccountBinary\<close> accepts a byte string as an
  account exactly when \<open>MarshalBinary\<close> of that account is that byte string.
\<close>

theorem account_binary_canonical:
  "UnmarshalAccountBinary bs = Inr a \<longleftrightarrow> Account_MarshalBinary a = Inr bs"
  using account_message.codec_iff by simp

text \<open>
  merging the account metas of several instructions keeps one entry per key, grants a key
  exactly the signer and writable permissions that some entry asked for, and sorting the result
  puts it in the order of the message header without changing what it grants.
\<close>

theorem merged_metas_permissions:
  "let ms' = SortAccountMetasForMessage (MergeAccountMetas ms) in
   distinct (map m_key ms') \<and> permits ms' = permits ms \<and> sorted (map accountPermissionGroup ms')"
proof -
  let ?u = "MergeAccountMetas ms"
  have mset: "mset (SortAccountMetasForMessage ?u) = mset ?u" by (simp add: SortAccountMetasForMessage_def)
  then have "distinct (map m_key (SortAccountMetasForMessage ?u))"
    using distinct_MergeAccountMetas [of ms] by (metis mset_eq_imp_distinct_iff mset_map)
  moreover have "set (SortAccountMetasForMessage ?u) = set ?u" using mset by (metis set_mset_mset)
  then have "permits (SortAccountMetasForMessage ?u) = permits ?u" by (simp add: permits_def fun_eq_iff)
  ultimately show ?thesis
    by (simp add: Let_def permits_MergeAccountMetas SortAccountMetasForMessage_def)
qed

end
