(* ===== verification/System_Instructions.thy ===== *)
theory System_Instructions
  imports Accounts
begin

text \<open>
  \<open>structure/system_instruction.go\<close>: the instructions of the system program and their binary
  form. A pointer to a parameter struct is an option; the type field is the \<open>uint32\<close> on the wire,
  so values with an unknown type, or with parameters of another type, exist in the model too.
\<close>

section \<open>Model\<close>

record CreateAccountParams =
  ca_lamports :: u64
  ca_space :: u64
  ca_owner :: pubkey

record SystemInstruction =
  si_type :: u32
  si_create :: "CreateAccountParams option"
  si_transfer :: "u64 option"
  si_assign :: "pubkey option"
  si_allocate :: "u64 option"

definition SystemInstructionCreateAccount :: u32 where "SystemInstructionCreateAccount = 0"
definition SystemInstructionAssign :: u32 where "SystemInstructionAssign = 1"
definition SystemInstructionTransfer :: u32 where "SystemInstructionTransfer = 2"
definition SystemInstructionAllocate :: u32 where "SystemInstructionAllocate = 3"

lemmas system_types = SystemInstructionCreateAccount_def SystemInstructionAssign_def
  SystemInstructionTransfer_def SystemInstructionAllocate_def

definition validateAccountSpace :: "u64 \<Rightarrow> structure_error + unit" where
  "validateAccountSpace space =
     (if of_nat MaxAccountDataSize < space then Inl ErrAccountDataTooLarge else Inr ())"

definition SystemInstruction_Validate :: "SystemInstruction \<Rightarrow> structure_error + unit" where
  "SystemInstruction_Validate i =
     (if si_type i = SystemInstructionCreateAccount then
        (case si_create i of None \<Rightarrow> Inl ErrInvalidSystemInstruction
         | Some p \<Rightarrow> validateAccountSpace (ca_space p))
      else if si_type i = SystemInstructionAssign then
        (case si_assign i of None \<Rightarrow> Inl ErrInvalidSystemInstruction | Some _ \<Rightarrow> Inr ())
      else if si_type i = SystemInstructionTransfer then
        (case si_transfer i of None \<Rightarrow> Inl ErrInvalidSystemInstruction | Some _ \<Rightarrow> Inr ())
      else if si_type i = SystemInstructionAllocate then
        (case si_allocate i of None \<Rightarrow> Inl ErrInvalidSystemInstruction
         | Some space \<Rightarrow> validateAccountSpace space)
      else Inl ErrInvalidSystemInstruction)"

definition NewCreateAccountInstruction ::
    "CreateAccountParams \<Rightarrow> structure_error + SystemInstruction" where
  "NewCreateAccountInstruction p =
     (let i = \<lparr>si_type = SystemInstructionCreateAccount, si_create = Some p, si_transfer = None,
               si_assign = None, si_allocate = None\<rparr>
      in rbind (SystemInstruction_Validate i) (\<lambda>_. Inr i))"

definition NewTransferInstruction :: "u64 \<Rightarrow> structure_error + SystemInstruction" where
  "NewTransferInstruction lamports =
     (let i = \<lparr>si_type = SystemInstructionTransfer, si_create = None, si_transfer = Some lamports,
               si_assign = None, si_allocate = None\<rparr>
      in rbind (SystemInstruction_Validate i) (\<lambda>_. Inr i))"

definition NewAssignInstruction :: "pubkey \<Rightarrow> structure_error + SystemInstruction" where
  "NewAssignInstruction owner =
     (let i = \<lparr>si_type = SystemInstructionAssign, si_create = None, si_transfer = None,
               si_assign = Some owner, si_allocate = None\<rparr>
      in rbind (SystemInstruction_Validate i) (\<lambda>_. Inr i))"

definition NewAllocateInstruction :: "u64 \<Rightarrow> structure_error + SystemInstruction" where
  "NewAllocateInstruction space =
     (let i = \<lparr>si_type = SystemInstructionAllocate, si_create = None, si_transfer = None,
               si_assign = None, si_allocate = Some space\<rparr>
      in rbind (SystemInstruction_Validate i) (\<lambda>_. Inr i))"

text \<open>The \<open>None\<close> branches are nil dereferences; \<open>Validate\<close> has excluded them.\<close>

definition SystemInstruction_MarshalBinary :: "SystemInstruction \<Rightarrow> structure_error + bytes" where
  "SystemInstruction_MarshalBinary i =
     rbind (SystemInstruction_Validate i) (\<lambda>_.
       let w = WriteUint32 (si_type i) (NewWriter 128) in
       if si_type i = SystemInstructionCreateAccount then
         (case si_create i of None \<Rightarrow> Inl (SText ''nil pointer'')
          | Some p \<Rightarrow> Inr (w_buffer (WriteFixedBytes (key_bytes (ca_owner p))
                        (WriteUint64 (ca_space p) (WriteUint64 (ca_lamports p) w)))))
       else if si_type i = SystemInstructionAssign then
         (case si_assign i of None \<Rightarrow> Inl (SText ''nil pointer'')
          | Some owner \<Rightarrow> Inr (w_buffer (WriteFixedBytes (key_bytes owner) w)))
       else if si_type i = SystemInstructionTransfer then
         (case si_transfer i of None \<Rightarrow> Inl (SText ''nil pointer'')
          | Some lamports \<Rightarrow> Inr (w_buffer (WriteUint64 lamports w)))
       else if si_type i = SystemInstructionAllocate then
         (case si_allocate i of None \<Rightarrow> Inl (SText ''nil pointer'')
          | Some space \<Rightarrow> Inr (w_buffer (WriteUint64 space w)))
       else Inr (w_buffer w))"

definition readSystemInstructionPublicKey :: "reader \<Rightarrow> structure_error + pubkey \<times> reader" where
  "readSystemInstructionPublicKey r =
     rbind (wrap_err SBorsh (ReadFixedBytes PublicKeySize r)) (\<lambda>(value, r).
     rbind (NewPublicKey value) (\<lambda>k. Inr (k, r)))"

definition readCreateAccountInstruction :: "reader \<Rightarrow> structure_error + SystemInstruction \<times> reader" where
  "readCreateAccountInstruction r =
     rbind (wrap_err SBorsh (ReadUint64 r)) (\<lambda>(lamports, r).
     rbind (wrap_err SBorsh (ReadUint64 r)) (\<lambda>(space, r).
     rbind (readSystemInstructionPublicKey r) (\<lambda>(owner, r).
     rbind (NewCreateAccountInstruction \<lparr>ca_lamports = lamports, ca_space = space, ca_owner = owner\<rparr>)
       (\<lambda>i. Inr (i, r)))))"

definition readAssignInstruction :: "reader \<Rightarrow> structure_error + SystemInstruction \<times> reader" where
  "readAssignInstruction r =
     rbind (readSystemInstructionPublicKey r) (\<lambda>(owner, r).
     rbind (NewAssignInstruction owner) (\<lambda>i. Inr (i, r)))"

definition readTransferInstruction :: "reader \<Rightarrow> structure_error + SystemInstruction \<times> reader" where
  "readTransferInstruction r =
     rbind (wrap_err SBorsh (ReadUint64 r)) (\<lambda>(lamports, r).
     rbind (NewTransferInstruction lamports) (\<lambda>i. Inr (i, r)))"

definition readAllocateInstruction :: "reader \<Rightarrow> structure_error + SystemInstruction \<times> reader" where
  "readAllocateInstruction r =
     rbind (wrap_err SBorsh (ReadUint64 r)) (\<lambda>(space, r).
     rbind (NewAllocateInstruction space) (\<lambda>i. Inr (i, r)))"

definition readSystemInstructionBody ::
    "u32 \<Rightarrow> reader \<Rightarrow> structure_error + SystemInstruction \<times> reader" where
  "readSystemInstructionBody instructionType r =
     (if instructionType = SystemInstructionCreateAccount then readCreateAccountInstruction r
      else if instructionType = SystemInstructionAssign then readAssignInstruction r
      else if instructionType = SystemInstructionTransfer then readTransferInstruction r
      else if instructionType = SystemInstructionAllocate then readAllocateInstruction r
      else Inl ErrInvalidSystemInstruction)"

definition UnmarshalSystemInstructionBinary :: "bytes \<Rightarrow> structure_error + SystemInstruction" where
  "UnmarshalSystemInstructionBinary data =
     (let r = NewReader data 128 in
      rbind (wrap_err SBorsh (ReadUint32 r)) (\<lambda>(instructionType, r).
      rbind (readSystemInstructionBody instructionType r) (\<lambda>(i, r).
      rbind (wrap_err SBorsh (EnsureEOF r)) (\<lambda>_.
      rbind (SystemInstruction_Validate i) (\<lambda>_. Inr i)))))"

section \<open>The binary form\<close>

text \<open>Exactly the parameters of the type are present, as the constructors build them.\<close>

definition canonical_instruction :: "SystemInstruction \<Rightarrow> bool" where
  "canonical_instruction i \<longleftrightarrow>
     (si_create i \<noteq> None \<longleftrightarrow> si_type i = SystemInstructionCreateAccount) \<and>
     (si_assign i \<noteq> None \<longleftrightarrow> si_type i = SystemInstructionAssign) \<and>
     (si_transfer i \<noteq> None \<longleftrightarrow> si_type i = SystemInstructionTransfer) \<and>
     (si_allocate i \<noteq> None \<longleftrightarrow> si_type i = SystemInstructionAllocate)"

lemmas system_codec_defs =
  readSystemInstructionBody_def readCreateAccountInstruction_def readAssignInstruction_def
  readTransferInstruction_def readAllocateInstruction_def readSystemInstructionPublicKey_def
  NewCreateAccountInstruction_def NewAssignInstruction_def NewTransferInstruction_def
  NewAllocateInstruction_def SystemInstruction_Validate_def Let_def

lemmas system_writes = WriteUint32_def WriteUint64_def WriteFixedBytes_def NewWriter_def

lemma UnmarshalSystemInstruction_marshal:
  assumes "canonical_instruction i" and "SystemInstruction_MarshalBinary i = Inr bs"
  shows "UnmarshalSystemInstructionBinary bs = Inr i"
proof -
  obtain ty c t a l where i: "i = \<lparr>si_type = ty, si_create = c, si_transfer = t, si_assign = a,
      si_allocate = l\<rparr>" by (cases i)
  have ty: "ty = 0 \<or> ty = 1 \<or> ty = 2 \<or> ty = 3"
    using assms(2) unfolding i
    by (auto simp: SystemInstruction_MarshalBinary_def SystemInstruction_Validate_def system_types
        split: if_splits)
  have m: "normalizeMaxContainerLength 128 = 128" by (simp add: normalizeMax_pos)
  from ty assms show ?thesis unfolding i
    by ((elim disjE; auto simp: SystemInstruction_MarshalBinary_def canonical_instruction_def
          system_types system_writes SystemInstruction_Validate_def Let_def result_simps
          split: option.splits),
        simp_all add: UnmarshalSystemInstructionBinary_def NewReader_def m codec_simps
          PublicKeySize_def system_codec_defs system_types)
qed

lemma SystemInstruction_marshal_unmarshal:
  assumes "UnmarshalSystemInstructionBinary bs = Inr i"
  shows "canonical_instruction i \<and> SystemInstruction_MarshalBinary i = Inr bs"
  using assms
  by (auto simp: UnmarshalSystemInstructionBinary_def NewReader_def result_simps
      SystemInstruction_MarshalBinary_def canonical_instruction_def system_types
      system_writes system_codec_defs NewPublicKey_Inr
      split: if_splits dest!: borsh_consumes)

interpretation system_message: message_codec canonical_instruction
    SystemInstruction_MarshalBinary UnmarshalSystemInstructionBinary
  by unfold_locales
    (rule UnmarshalSystemInstruction_marshal SystemInstruction_marshal_unmarshal, assumption+)+

section \<open>Properties\<close>

text \<open>
  the binary form of system instructions is canonical: a byte string is decoded to an
  instruction exactly when it is that instruction's encoding, and every decoded instruction
  carries the parameters of its type and no others.
\<close>

theorem system_instruction_binary_canonical:
  "UnmarshalSystemInstructionBinary bs = Inr i \<longleftrightarrow>
     canonical_instruction i \<and> SystemInstruction_MarshalBinary i = Inr bs"
  by (rule system_message.codec_iff)

end
