(* ===== verification/Short_Vec.thy ===== *)
theory Short_Vec
  imports Structure_Base
begin

text \<open>
  \<open>EncodeShortVecLength\<close> and \<open>DecodeShortVecLength\<close> of \<open>utils/encoding.go\<close>: the variable-length
  prefix of every list of the transaction wire format, and the interface \<open>wire_format\<close> of the
  wire formats built on it. Unlike a field of \<open>codec/borsh\<close> a short-vec length is not canonical:
  the decoder also accepts an encoding with superfluous zero groups.
\<close>

unbundle bit_operations_syntax

section \<open>Model\<close>

definition maxShortVecValue :: nat where
  "maxShortVecValue = 0xffff"

function short_vec_groups :: "u16 \<Rightarrow> bytes" where
  "short_vec_groups v =
     (let elem = ucast (v AND 0x7f); rest = drop_bit 7 v
      in if rest = 0 then [elem] else (elem OR 0x80) # short_vec_groups rest)"
  by auto
termination
proof (relation "measure unat")
  fix x :: "8 word" and v rest :: u16
  assume "rest = drop_bit 7 v" and "rest \<noteq> 0"
  then have "unat v div 2 ^ 7 \<noteq> 0" and "unat rest = unat v div 2 ^ 7"
    by (auto simp: drop_bit_eq_div unat_div simp flip: unat_eq_zero)
  then show "(rest, v) \<in> measure unat" by simp
qed simp

declare short_vec_groups.simps [simp del]

definition EncodeShortVecLength :: "nat \<Rightarrow> structure_error + bytes" where
  "EncodeShortVecLength len =
     (if maxShortVecValue < len then Inl (SText ''shortvec length'')
      else Inr (short_vec_groups (of_nat len)))"

fun short_vec_loop :: "nat \<Rightarrow> u32 \<Rightarrow> bytes \<Rightarrow> structure_error + nat \<times> nat" where
  "short_vec_loop i result [] = Inl (SText ''shortvec data ended before terminator'')"
| "short_vec_loop i result (b # bs) =
     (if 3 \<le> i then Inl (SText ''shortvec length exceeds compact-u16 size'')
      else
        let result = result OR push_bit (7 * i) (ucast (b AND 0x7f)) in
        if b AND 0x80 = 0 then
          (if of_nat maxShortVecValue < result then Inl (SText ''shortvec length'')
           else Inr (unat result, i + 1))
        else short_vec_loop (i + 1) result bs)"

definition DecodeShortVecLength :: "bytes \<Rightarrow> structure_error + nat \<times> nat" where
  "DecodeShortVecLength value = short_vec_loop 0 0 value"

text \<open>\<open>readShortVecLength\<close> of \<open>structure/transaction.go\<close>; the cursor is the unread suffix.\<close>

definition readShortVecLength :: "bytes \<Rightarrow> structure_error + nat \<times> bytes" where
  "readShortVecLength data =
     rbind (DecodeShortVecLength data) (\<lambda>(len, bytesRead). Inr (len, drop bytesRead data))"

section \<open>The groups as numbers\<close>

lemma and_7f:
  assumes "7 < LENGTH('a)"
  shows "unat (v AND 0x7f :: 'a::len word) = unat v mod 128"
proof -
  have "(2 :: nat) ^ 7 < 2 ^ LENGTH('a)" using assms by (intro power_strict_increasing) simp_all
  then have "unat (of_nat 128 :: 'a word) = 128" by (simp only: unat_of_nat) simp
  then have "unat (128 :: 'a word) = 128" by simp
  moreover have "v AND 0x7f = v mod 128"
    using take_bit_eq_mask [of 7 v] take_bit_eq_mod [of 7 v] by (simp add: mask_eq_exp_minus_1)
  ultimately show ?thesis by (simp add: unat_mod)
qed

lemma byte_and_80: "(b AND 0x80 :: byte) = 0 \<longleftrightarrow> unat b < 128"
proof -
  have "(b AND 0x80 = 0) = (\<not> bit b 7)"
    using and_exp_eq_0_iff_not_bit [of b 7] by simp
  also have "\<dots> \<longleftrightarrow> \<not> bit (unat b) 7"
    by (simp add: bit_unsigned_iff)
  also have "\<dots> \<longleftrightarrow> even (unat b div 128)"
    by (simp add: bit_iff_odd)
  also have "\<dots> \<longleftrightarrow> unat b < 128"
  proof (cases "unat b < 128")
    case False
    then have "unat b div 128 = 1"
      using unat_byte_lt [of b] by (intro div_nat_eqI) simp_all
    with False show ?thesis by simp
  qed simp
  finally show ?thesis .
qed

lemma byte_or_80:
  assumes "unat b < 128"
  shows "unat (b OR 0x80 :: byte) = unat b + 128"
proof -
  have "b OR 0x80 = b + 0x80"
    using assms by (simp add: byte_and_80 disjunctive_add_eq_or)
  then show ?thesis using assms by (simp add: unat_word_ariths)
qed

lemma of_nat_inj_unat: "unat (w :: 'a::len word) = n \<Longrightarrow> w = of_nat n"
  by (drule arg_cong [where f = "of_nat :: nat \<Rightarrow> 'a word"]) simp

text \<open>The groups of a length, low group first.\<close>

fun groups :: "nat \<Rightarrow> bytes" where
  "groups n = (if n < 128 then [of_nat n] else of_nat (n mod 128 + 128) # groups (n div 128))"

declare groups.simps [simp del]

lemma short_vec_groups_eq: "short_vec_groups v = groups (unat v)"
proof (induction v rule: short_vec_groups.induct)
  case (1 v)
  define elem :: byte where "elem = ucast (v AND 0x7f)"
  have e: "unat elem = unat v mod 128"
    by (simp add: elem_def unsigned_ucast_eq and_7f take_bit_eq_mod)
  have r: "unat (drop_bit 7 v) = unat v div 128"
    by (simp add: drop_bit_eq_div unat_div)
  have z: "drop_bit 7 v = 0 \<longleftrightarrow> unat v < 128"
    using r by (simp add: div_eq_0_iff flip: unat_eq_zero)
  show ?case
  proof (cases "drop_bit 7 v = 0")
    case True
    with z e have "unat elem = unat v" by simp
    then have "elem = of_nat (unat v)" using of_nat_inj_unat by blast
    with True z show ?thesis
      by (subst short_vec_groups.simps, subst groups.simps) (simp add: elem_def)
  next
    case False
    have "unat elem < 128" using e by simp
    then have "unat (elem OR 0x80) = unat v mod 128 + 128" using e byte_or_80 by metis
    then have "elem OR 0x80 = of_nat (unat v mod 128 + 128)" using of_nat_inj_unat by blast
    with False z "1.IH" r show ?thesis
      by (subst short_vec_groups.simps, subst groups.simps) (simp add: elem_def Let_def)
  qed
qed

lemma or_push_bit:
  assumes "unat r < 2 ^ k" and "unat x < 2 ^ m" and "k + m \<le> 32"
  shows "unat (r OR push_bit k x :: u32) = unat r + 2 ^ k * unat x"
proof -
  have km: "(2 :: nat) ^ k * 2 ^ m \<le> 2 ^ 32"
    using power_increasing [OF assms(3), of "2 :: nat"] by (simp add: power_add)
  have "r AND push_bit k x = 0"
  proof (rule bit_word_eqI)
    fix n assume "n < LENGTH(32)"
    have "\<not> bit r n" if "k \<le> n"
    proof -
      have "unat r < 2 ^ n" using assms(1) that by (meson less_le_trans one_le_numeral power_increasing)
      then have "\<not> bit (unat r) n" by (simp add: bit_iff_odd)
      then show ?thesis using \<open>n < LENGTH(32)\<close> by (simp add: bit_unsigned_iff)
    qed
    then show "bit (r AND push_bit k x) n = bit (0 :: u32) n"
      by (auto simp: bit_and_iff bit_push_bit_iff)
  qed
  then have "r OR push_bit k x = r + push_bit k x" by (simp add: disjunctive_add_eq_or)
  moreover have "unat (push_bit k x) = 2 ^ k * unat x"
  proof -
    have "2 ^ k * unat x < 2 ^ k * 2 ^ m" using assms(2) by simp
    also note km
    finally show ?thesis
      by (subst unsigned_push_bit_eq) (simp add: push_bit_eq_mult take_bit_eq_mod mult.commute)
  qed
  moreover have "unat r + 2 ^ k * unat x < 2 ^ 32"
  proof -
    have "unat r + 2 ^ k * unat x < 2 ^ k * (1 + unat x)" using assms(1) by simp
    also have "\<dots> \<le> 2 ^ k * 2 ^ m" using assms(2) by (intro mult_le_mono2) simp
    also note km
    finally show ?thesis .
  qed
  ultimately show ?thesis by (simp add: unat_word_ariths)
qed

section \<open>Reading back\<close>

lemma groups_pos [simp]: "0 < length (groups n)"
  by (subst groups.simps) simp

lemma unat_group: "unat (ucast (b AND 0x7f :: byte) :: u32) = unat b mod 128"
  by (simp add: unsigned_ucast_eq and_7f take_bit_eq_mod)

text \<open>One turn of the decoding loop, on numbers.\<close>

lemma short_vec_turn:
  assumes "i < 3" and "unat r < 2 ^ (7 * i)"
  obtains r' where "unat r' = unat r + 2 ^ (7 * i) * (unat b mod 128)"
    and "unat r' < 2 ^ (7 * (i + 1))"
    and "short_vec_loop i r (b # bs) =
      (if unat b < 128 then
         (if 65535 < unat r' then Inl (SText ''shortvec length'') else Inr (unat r', i + 1))
       else short_vec_loop (i + 1) r' bs)"
proof
  let ?x = "ucast (b AND 0x7f) :: u32"
  let ?r = "r OR push_bit (7 * i) ?x"
  have x: "unat ?x = unat b mod 128" by (rule unat_group)
  show r: "unat ?r = unat r + 2 ^ (7 * i) * (unat b mod 128)"
    using or_push_bit [of r "7 * i" ?x 7] assms x by simp
  have "unat r + 2 ^ (7 * i) * (unat b mod 128) < 2 ^ (7 * i) * (1 + unat b mod 128)"
    using assms(2) by simp
  also have "\<dots> \<le> 2 ^ (7 * i) * 128" by (intro mult_le_mono2) (simp add: Suc_le_eq)
  finally show "unat ?r < 2 ^ (7 * (i + 1))" using r by (simp add: power_add)
  show "short_vec_loop i r (b # bs) =
      (if unat b < 128 then
         (if 65535 < unat ?r then Inl (SText ''shortvec length'') else Inr (unat ?r, i + 1))
       else short_vec_loop (i + 1) ?r bs)"
    using assms(1)
    by (simp add: byte_and_80 Let_def maxShortVecValue_def word_less_nat_alt del: One_nat_def)
qed

lemma short_vec_loop_groups:
  assumes "i < 3" and "unat r < 2 ^ (7 * i)" and "unat r + 2 ^ (7 * i) * n \<le> 65535"
  shows "short_vec_loop i r (groups n @ rest) = Inr (unat r + 2 ^ (7 * i) * n, i + length (groups n))"
  using assms
proof (induction n arbitrary: i r rule: groups.induct)
  case (1 n)
  show ?case
  proof (cases "n < 128")
    case True
    then have g: "groups n = [of_nat n]" by (subst groups.simps) simp
    obtain r' where "unat r' = unat r + 2 ^ (7 * i) * (unat (of_nat n :: byte) mod 128)"
      and "short_vec_loop i r (of_nat n # rest) =
        (if unat (of_nat n :: byte) < 128 then
           (if 65535 < unat r' then Inl (SText ''shortvec length'') else Inr (unat r', i + 1))
         else short_vec_loop (i + 1) r' rest)"
      by (rule short_vec_turn [OF "1.prems"(1,2)])
    with True "1.prems"(3) g show ?thesis by simp
  next
    case False
    define c :: byte where "c = of_nat (n mod 128 + 128)"
    from False have g: "groups n = c # groups (n div 128)"
      unfolding c_def by (subst groups.simps) simp
    have c: "unat c = n mod 128 + 128"
      unfolding c_def by (rule of_nat_byte_inverse) (use mod_less_divisor [of 128 n] in linarith)
    obtain r' where r': "unat r' = unat r + 2 ^ (7 * i) * (n mod 128)"
      and lt: "unat r' < 2 ^ (7 * (i + 1))"
      and loop: "short_vec_loop i r (c # (groups (n div 128) @ rest)) =
        short_vec_loop (i + 1) r' (groups (n div 128) @ rest)"
      by (rule short_vec_turn [OF "1.prems"(1,2), of c "groups (n div 128) @ rest"])
        (simp add: c del: short_vec_loop.simps)
    have p: "(2 :: nat) ^ (7 * (i + 1)) = 2 ^ (7 * i) * 128" by (simp add: power_add)
    have "2 ^ (7 * i) * (n mod 128) + 2 ^ (7 * (i + 1)) * (n div 128) =
        2 ^ (7 * i) * (n mod 128 + 128 * (n div 128))"
      unfolding p by (simp only: distrib_left mult.assoc)
    also have "n mod 128 + 128 * (n div 128) = n" by simp
    finally have sum: "unat r' + 2 ^ (7 * (i + 1)) * (n div 128) = unat r + 2 ^ (7 * i) * n"
      using r' by linarith
    have "i + 1 < 3"
    proof (rule ccontr)
      assume "\<not> i + 1 < 3"
      then have "i = 2" using "1.prems"(1) by simp
      with "1.prems"(3) False show False by simp
    qed
    from "1.IH" [OF False this lt] sum "1.prems"(3)
    have "short_vec_loop (i + 1) r' (groups (n div 128) @ rest) =
        Inr (unat r + 2 ^ (7 * i) * n, i + 1 + length (groups (n div 128)))" by simp
    with loop g show ?thesis by simp
  qed
qed

lemma short_vec_loop_Inr:
  assumes "i < 3" and "unat r < 2 ^ (7 * i)" and "short_vec_loop i r bs = Inr (m, k)"
  shows "\<exists>n. m = unat r + 2 ^ (7 * i) * n \<and> m \<le> 65535 \<and>
    i + length (groups n) \<le> k \<and> k \<le> i + length bs"
  using assms
proof (induction bs arbitrary: i r)
  case Nil
  then show ?case by simp
next
  case (Cons b bs)
  obtain r' where r': "unat r' = unat r + 2 ^ (7 * i) * (unat b mod 128)"
    and lt: "unat r' < 2 ^ (7 * (i + 1))"
    and loop: "short_vec_loop i r (b # bs) =
      (if unat b < 128 then
         (if 65535 < unat r' then Inl (SText ''shortvec length'') else Inr (unat r', i + 1))
       else short_vec_loop (i + 1) r' bs)"
    by (rule short_vec_turn [OF Cons.prems(1,2)])
  show ?case
  proof (cases "unat b < 128")
    case True
    then have "length (groups (unat b)) = 1" by (subst groups.simps) simp
    with True loop r' Cons.prems(3) show ?thesis
      by (intro exI [of _ "unat b"]) (auto split: if_splits)
  next
    case False
    with loop Cons.prems(3) have rec: "short_vec_loop (i + 1) r' bs = Inr (m, k)" by simp
    then have "i + 1 < 3" by (cases bs) (auto split: if_splits)
    from Cons.IH [OF this lt rec] obtain n where n: "m = unat r' + 2 ^ (7 * (i + 1)) * n" "m \<le> 65535"
      "i + 1 + length (groups n) \<le> k" "k \<le> i + 1 + length bs" by blast
    let ?n = "unat b mod 128 + 128 * n"
    have "m = unat r + 2 ^ (7 * i) * ?n" using n(1) r' by (simp add: power_add algebra_simps)
    moreover have "length (groups ?n) \<le> 1 + length (groups n)"
    proof (cases "?n < 128")
      case True
      then show ?thesis by (subst groups.simps) simp
    next
      case False
      then show ?thesis by (subst groups.simps) simp
    qed
    ultimately show ?thesis using n(2-4) by (intro exI [of _ ?n] conjI) simp_all
  qed
qed

lemma EncodeShortVecLength_Inr:
  "EncodeShortVecLength n = Inr bs \<longleftrightarrow> n \<le> 65535 \<and> bs = groups n"
proof -
  have "unat (of_nat n :: u16) = n" if "n \<le> 65535"
    using that by (simp add: unat_of_nat)
  then show ?thesis
    by (auto simp: EncodeShortVecLength_def maxShortVecValue_def short_vec_groups_eq)
qed

lemma DecodeShortVecLength_groups:
  "n \<le> 65535 \<Longrightarrow> DecodeShortVecLength (groups n @ rest) = Inr (n, length (groups n))"
  using short_vec_loop_groups [of 0 0 n rest] by (simp add: DecodeShortVecLength_def)

lemma DecodeShortVecLength_Inr:
  assumes "DecodeShortVecLength bs = Inr (n, k)"
  shows "n \<le> 65535 \<and> length (groups n) \<le> k \<and> k \<le> length bs"
  using short_vec_loop_Inr [of 0 0 bs n k] assms by (auto simp: DecodeShortVecLength_def)

section \<open>The interface of a wire format\<close>

text \<open>
  A wire format gives the octets of a value and reads a value off the front of the input. What
  is written is read back whatever follows it; what is accepted is a value that could have been
  written, and its canonical octets are no longer than the ones that were read.
\<close>

locale wire_format =
  fixes wr :: "'a \<Rightarrow> bytes"
    and rd :: "bytes \<Rightarrow> structure_error + 'a \<times> bytes"
    and ok :: "'a \<Rightarrow> bool"
  assumes rd_wr: "ok x \<Longrightarrow> rd (wr x @ rest) = Inr (x, rest)"
    and rd_ok: "rd bs = Inr (x, rest) \<Longrightarrow> ok x \<and> length (wr x) + length rest \<le> length bs"
begin

lemma rd_wr_last: "ok x \<Longrightarrow> rd (wr x) = Inr (x, [])"
  using rd_wr [of x "[]"] by simp

lemma wr_prefix_free: "ok x \<Longrightarrow> ok y \<Longrightarrow> wr x @ s = wr y @ t \<Longrightarrow> x = y \<and> s = t"
  by (metis rd_wr sum.inject(2) prod.inject)

end

text \<open>The loops that read a counted sequence of elements.\<close>

fun read_many :: "(bytes \<Rightarrow> structure_error + 'a \<times> bytes) \<Rightarrow> nat \<Rightarrow> bytes \<Rightarrow>
    structure_error + 'a list \<times> bytes" where
  "read_many rd 0 data = Inr ([], data)"
| "read_many rd (Suc n) data =
     rbind (rd data) (\<lambda>(x, data). rbind (read_many rd n data) (\<lambda>(xs, data). Inr (x # xs, data)))"

context wire_format
begin

lemma read_many_wr:
  "\<forall>x \<in> set xs. ok x \<Longrightarrow> read_many rd (length xs) (concat (map wr xs) @ rest) = Inr (xs, rest)"
  by (induction xs) (simp_all add: rd_wr)

lemma read_many_ok:
  "read_many rd n bs = Inr (xs, rest) \<Longrightarrow>
   length xs = n \<and> (\<forall>x \<in> set xs. ok x) \<and> length (concat (map wr xs)) + length rest \<le> length bs"
proof (induction n arbitrary: bs xs)
  case 0
  then show ?case by simp
next
  case (Suc n)
  then obtain x bs' ys where x: "rd bs = Inr (x, bs')" and ys: "read_many rd n bs' = Inr (ys, rest)"
    and xs: "xs = x # ys" by (auto simp: result_simps)
  from rd_ok [OF x] Suc.IH [OF ys] xs show ?case by auto
qed

end

interpretation short_len: wire_format groups readShortVecLength "\<lambda>n. n \<le> 65535"
  by unfold_locales
    (auto simp: readShortVecLength_def DecodeShortVecLength_groups result_simps
      dest!: DecodeShortVecLength_Inr)

section \<open>Properties\<close>

text \<open>
  C30: a length that \<open>EncodeShortVecLength\<close> encodes is decoded to itself by
  \<open>DecodeShortVecLength\<close>, whatever octets follow, and the decoder consumes exactly the octets that
  were written.
\<close>

theorem short_vec_round_trip:
  assumes "EncodeShortVecLength n = Inr bs"
  shows "DecodeShortVecLength (bs @ rest) = Inr (n, length bs)"
  using assms by (simp add: EncodeShortVecLength_Inr DecodeShortVecLength_groups)

lemma encode_300: "EncodeShortVecLength 300 = Inr [0xAC, 0x02]"
  by (simp add: EncodeShortVecLength_Inr groups.simps)

theorem short_vec_round_trip_witness:
  "EncodeShortVecLength 300 = Inr [0xAC, 0x02] \<and>
   DecodeShortVecLength [0xAC, 0x02, 7] = Inr (300, 2)"
  using short_vec_round_trip [OF encode_300, of "[7]"] encode_300 by simp

text \<open>The decoder is not injective: superfluous groups are accepted.\<close>

lemma short_vec_not_canonical:
  "DecodeShortVecLength [0x80, 0x00] = Inr (0, 2) \<and> DecodeShortVecLength [0x00] = Inr (0, 1)"
  by (simp add: DecodeShortVecLength_def maxShortVecValue_def)

end
