(* ===== verification/Base58.thy ===== *)
theory Base58
  imports Structure_Base
begin

text \<open>
  \<open>Base58Encode\<close> and \<open>Base58Decode\<close> of \<open>utils/encoding.go\<close> and the constants of
  \<open>structure/builtin_program.go\<close> that are given in this notation. A \<open>big.Int\<close> is a natural number.
\<close>

section \<open>Model\<close>

definition base58Alphabet :: gostring where
  "base58Alphabet = ascii ''123456789ABCDEFGHJKLMNPQRSTUVWXYZabcdefghijkmnopqrstuvwxyz''"

text \<open>The table \<open>base58Indexes\<close>: the position of a character, \<open>-1\<close> where it has none.\<close>

fun position :: "byte \<Rightarrow> nat \<Rightarrow> gostring \<Rightarrow> nat option" where
  "position c i [] = None"
| "position c i (a # as) = (if a = c then Some i else position c (Suc i) as)"

definition base58Index :: "byte \<Rightarrow> nat option" where
  "base58Index c = position c 0 base58Alphabet"

text \<open>\<open>SetBytes\<close>: the big-endian number.\<close>

definition SetBytes :: "bytes \<Rightarrow> nat" where
  "SetBytes value = foldl (\<lambda>n b. 256 * n + unat b) 0 value"

text \<open>\<open>Bytes\<close>: the shortest big-endian octets, none for zero.\<close>

function big_octets :: "nat \<Rightarrow> bytes \<Rightarrow> bytes" where
  "big_octets n acc = (if n = 0 then acc else big_octets (n div 256) (of_nat (n mod 256) # acc))"
  by auto
termination by (relation "measure fst") auto

declare big_octets.simps [simp del]

definition Bytes_of :: "nat \<Rightarrow> bytes" where
  "Bytes_of n = big_octets n []"

function base58_digits :: "nat \<Rightarrow> nat list" where
  "base58_digits x = (if x = 0 then [] else x mod 58 # base58_digits (x div 58))"
  by auto
termination by (relation "measure id") auto

declare base58_digits.simps [simp del]

definition Base58Encode :: "bytes \<Rightarrow> gostring" where
  "Base58Encode value =
     (if value = [] then []
      else
        let encoded = map (\<lambda>d. base58Alphabet ! d) (base58_digits (SetBytes value));
            encoded = encoded @ replicate (length (takeWhile (\<lambda>b. b = 0) value)) (base58Alphabet ! 0)
        in rev encoded)"

fun base58_value :: "nat \<Rightarrow> gostring \<Rightarrow> structure_error + nat" where
  "base58_value result [] = Inr result"
| "base58_value result (c # cs) =
     (case base58Index c of
        None \<Rightarrow> Inl (SText ''invalid base58 character'')
      | Some digit \<Rightarrow> base58_value (58 * result + digit) cs)"

definition Base58Decode :: "gostring \<Rightarrow> structure_error + bytes" where
  "Base58Decode value =
     (if value = [] then Inr []
      else
        rbind (base58_value 0 value) (\<lambda>result.
          let decoded = Bytes_of result;
              leadingZeros = length (takeWhile (\<lambda>c. c = base58Alphabet ! 0) value)
          in if leadingZeros = 0 then Inr decoded
             else Inr (replicate leadingZeros 0 @ decoded)))"

definition PublicKeyFromBase58 :: "gostring \<Rightarrow> structure_error + pubkey" where
  "PublicKeyFromBase58 value = rbind (Base58Decode value) NewPublicKey"

text \<open>\<open>MustPublicKeyFromBase58\<close> stops the program at start-up where the notation is wrong.\<close>

definition MustPublicKeyFromBase58 :: "gostring \<Rightarrow> pubkey option" where
  "MustPublicKeyFromBase58 value = (case PublicKeyFromBase58 value of Inr k \<Rightarrow> Some k | Inl _ \<Rightarrow> None)"

definition DefaultShieldedProgramID :: pubkey where
  "DefaultShieldedProgramID =
     get_le (ascii ''ShieldedPoolProgramV2'' @ replicate 10 0 @ [2])"

definition DefaultBuiltinProgramIDs :: BuiltinProgramIDs where
  "DefaultBuiltinProgramIDs =
     (let key = \<lambda>s. the (MustPublicKeyFromBase58 (ascii s)) in
      \<lparr>pid_System = key ''11111111111111111111111111111111'',
       pid_ComputeBudget = key ''ComputeBudget111111111111111111111111111111'',
       pid_AddressLookupTable = key ''AddressLookupTab1e1111111111111111111111111'',
       pid_NativeLoader = key ''NativeLoader1111111111111111111111111111111'',
       pid_BPFLoader = key ''BPFLoader2111111111111111111111111111111111'',
       pid_Vote = key ''Vote111111111111111111111111111111111111111'',
       pid_Token = key ''TokenkegQfeZyiNwAJbNbGKPFXCWuBvf9Ss623VQ5DA'',
       pid_Stake = key ''Stake11111111111111111111111111111111111111'',
       pid_Config = key ''Config1111111111111111111111111111111111111'',
       pid_Shielded = DefaultShieldedProgramID\<rparr>)"

section \<open>The alphabet\<close>

lemma alphabet_length [simp]: "length base58Alphabet = 58"
  by (simp add: base58Alphabet_def)

lemma alphabet_distinct: "distinct base58Alphabet"
  by (simp add: base58Alphabet_def ascii_def)

lemma position_nth: "distinct as \<Longrightarrow> i < length as \<Longrightarrow> position (as ! i) k as = Some (k + i)"
proof (induction as arbitrary: i k)
  case Nil
  then show ?case by simp
next
  case (Cons a as)
  then show ?case by (cases i) (auto simp: nth_mem)
qed

lemma base58Index_nth: "d < 58 \<Longrightarrow> base58Index (base58Alphabet ! d) = Some d"
  using position_nth [OF alphabet_distinct, of d 0] by (simp add: base58Index_def)

section \<open>Octets and digits\<close>

lemma SetBytes_Nil [simp]: "SetBytes [] = 0"
  by (simp add: SetBytes_def)

lemma SetBytes_snoc [simp]: "SetBytes (bs @ [b]) = 256 * SetBytes bs + unat b"
  by (simp add: SetBytes_def)

lemma SetBytes_Cons_0 [simp]: "SetBytes (0 # bs) = SetBytes bs"
  by (simp add: SetBytes_def)

lemma big_octets_SetBytes:
  "(bs = [] \<or> hd bs \<noteq> 0) \<Longrightarrow> big_octets (SetBytes bs) acc = bs @ acc"
proof (induction bs arbitrary: acc rule: rev_induct)
  case Nil
  then show ?case by (simp add: big_octets.simps)
next
  case (snoc b bs)
  let ?n = "256 * SetBytes bs + unat b"
  have "bs = [] \<or> hd bs \<noteq> 0" using snoc.prems by (cases bs) auto
  note IH = snoc.IH [OF this]
  have "?n \<noteq> 0"
  proof (cases bs)
    case Nil
    with snoc.prems show ?thesis by (simp add: unat_eq_zero)
  next
    case (Cons c cs)
    have "SetBytes bs \<noteq> 0"
    proof
      assume "SetBytes bs = 0"
      with IH [of "[]"] have "bs = []" by (simp add: big_octets.simps)
      with Cons show False by simp
    qed
    then show ?thesis by simp
  qed
  then have "big_octets ?n acc = big_octets (?n div 256) (of_nat (?n mod 256) # acc)"
    by (subst big_octets.simps) (simp only: if_False)
  also have "?n div 256 = SetBytes bs" using unat_byte_lt [of b] by simp
  also have "?n mod 256 = unat b" using unat_byte_lt [of b] by simp
  finally show ?case by (simp add: IH)
qed

lemma Bytes_of_SetBytes: "Bytes_of (SetBytes v) = dropWhile (\<lambda>b. b = 0) v"
proof (induction v)
  case Nil
  then show ?case by (simp add: Bytes_of_def big_octets.simps)
next
  case (Cons b v)
  show ?case
  proof (cases "b = 0")
    case True
    with Cons show ?thesis by simp
  next
    case False
    then show ?thesis using big_octets_SetBytes [of "b # v" "[]"] by (simp add: Bytes_of_def)
  qed
qed

lemma base58_digits_less: "d \<in> set (base58_digits n) \<Longrightarrow> d < 58"
  by (induction n rule: base58_digits.induct) (subst (asm) base58_digits.simps, auto split: if_splits)

lemma base58_value_append:
  "base58_value r (xs @ ys) = rbind (base58_value r xs) (\<lambda>r. base58_value r ys)"
  by (induction xs arbitrary: r) (auto split: option.splits)

lemma base58_value_digits:
  "base58_value 0 (rev (map (\<lambda>d. base58Alphabet ! d) (base58_digits n))) = Inr n"
proof (induction n rule: base58_digits.induct)
  case (1 n)
  then show ?case
    by (subst base58_digits.simps) (simp add: base58_value_append base58Index_nth)
qed

lemma base58_value_zeros: "base58_value 0 (replicate k (base58Alphabet ! 0)) = Inr 0"
  by (induction k) (simp_all add: base58Index_nth)

text \<open>The most significant digit is not zero, so it is not the character for zero.\<close>

lemma base58_digits_last: "n \<noteq> 0 \<Longrightarrow> base58_digits n \<noteq> [] \<and> last (base58_digits n) \<noteq> 0"
proof (induction n rule: base58_digits.induct)
  case (1 n)
  show ?case
  proof (cases "n div 58 = 0")
    case True
    then have "base58_digits n = [n]"
      using 1(2) by (subst base58_digits.simps) (simp add: base58_digits.simps)
    with 1(2) show ?thesis by simp
  next
    case False
    with 1(1) [OF 1(2)] 1(2) show ?thesis by (subst base58_digits.simps, subst (2) base58_digits.simps) simp
  qed
qed

lemma takeWhile_digits:
  "takeWhile (\<lambda>c. c = base58Alphabet ! 0) (rev (map (\<lambda>d. base58Alphabet ! d) (base58_digits n))) = []"
proof (cases "n = 0")
  case True
  then show ?thesis by (simp add: base58_digits.simps)
next
  case False
  let ?ds = "base58_digits n"
  obtain es e where ds: "?ds = es @ [e]" and e: "e \<noteq> 0" "e < 58"
    using base58_digits_last [OF False] base58_digits_less [of "last ?ds" n]
    by (metis append_butlast_last_id last_in_set)
  have "base58Alphabet ! e \<noteq> base58Alphabet ! 0"
    using nth_eq_iff_index_eq [OF alphabet_distinct, of e 0] e by simp
  with ds show ?thesis by simp
qed

section \<open>Properties\<close>

text \<open>
  C31: \<open>Base58Decode\<close> inverts \<open>Base58Encode\<close> on every byte string, leading zero octets included.
\<close>

theorem base58_round_trip: "Base58Decode (Base58Encode v) = Inr v"
proof (cases "v = []")
  case True
  then show ?thesis by (simp add: Base58Encode_def Base58Decode_def)
next
  case False
  define k where "k = length (takeWhile (\<lambda>b. b = 0) v)"
  define ds where "ds = rev (map (\<lambda>d. base58Alphabet ! d) (base58_digits (SetBytes v)))"
  have enc: "Base58Encode v = replicate k (base58Alphabet ! 0) @ ds"
    using False by (simp add: Base58Encode_def Let_def k_def ds_def)
  have val: "base58_value 0 (Base58Encode v) = Inr (SetBytes v)"
    by (simp add: enc base58_value_append base58_value_zeros ds_def base58_value_digits)
  have lead: "length (takeWhile (\<lambda>c. c = base58Alphabet ! 0) (Base58Encode v)) = k"
    unfolding enc
    by (subst takeWhile_append2) (simp_all add: ds_def takeWhile_digits)
  have dec: "Bytes_of (SetBytes v) = dropWhile (\<lambda>b. b = 0) v" by (rule Bytes_of_SetBytes)
  have "replicate k 0 = takeWhile (\<lambda>b. b = 0) v"
    unfolding k_def by (rule replicate_length_same) (auto dest: set_takeWhileD)
  then have v: "replicate k 0 @ dropWhile (\<lambda>b. b = 0) v = v" by simp
  have "Base58Encode v \<noteq> []"
  proof
    assume "Base58Encode v = []"
    then have "k = 0" and "Inr (SetBytes v) = (Inr 0 :: structure_error + nat)"
      using enc val by (simp_all flip: val)
    then have "Bytes_of 0 = v" using v dec by simp
    then show False using False by (simp add: Bytes_of_def big_octets.simps)
  qed
  then show ?thesis using val lead dec v by (auto simp: Base58Decode_def Let_def)
qed

section \<open>The builtin programs\<close>

lemma base58Alphabet_octets:
  "base58Alphabet =
     [49, 50, 51, 52, 53, 54, 55, 56, 57, 65, 66, 67, 68, 69, 70, 71, 72, 74, 75, 76, 77, 78, 80, 81,
      82, 83, 84, 85, 86, 87, 88, 89, 90, 97, 98, 99, 100, 101, 102, 103, 104, 105, 106, 107, 109,
      110, 111, 112, 113, 114, 115, 116, 117, 118, 119, 120, 121, 122]"
  by (simp add: base58Alphabet_def ascii_def)

lemmas base58_eval = MustPublicKeyFromBase58_def PublicKeyFromBase58_def Base58Decode_def ascii_def
  base58Index_def base58Alphabet_octets Bytes_of_def big_octets.simps NewPublicKey_def
  PublicKeySize_def get_le_def

text \<open>The system program has the zero key.\<close>

lemma system_program_zero: "pid_System DefaultBuiltinProgramIDs = 0"
  unfolding DefaultBuiltinProgramIDs_def Let_def BuiltinProgramIDs.select_convs
  by (simp add: base58_eval)

end
