(* ===== verification/Messages.thy ===== *)
theory Messages
  imports Short_Vec Accounts
begin

text \<open>
  \<open>structure/transaction.go\<close>, the message: validation of the header, the instructions and the
  address tables, the permissions a header stands for, and the wire format of a message. The
  cursor \<open>*offset\<close> into \<open>data\<close> is the unread suffix of the data.
\<close>

unbundle bit_operations_syntax

section \<open>Validation\<close>

definition MaxOrdexusTransactionSize :: nat where
  "MaxOrdexusTransactionSize = 60 * 1024"

definition MaxSignaturesPerTransaction :: nat where
  "MaxSignaturesPerTransaction = 12"

definition MaxInstructionsPerTransaction :: nat where
  "MaxInstructionsPerTransaction = 64"

definition MaxInstructionAccounts :: nat where
  "MaxInstructionAccounts = MaxAccountsPerTransaction"

definition MaxInstructionDataSize :: nat where
  "MaxInstructionDataSize = MaxOrdexusTransactionSize"

lemmas message_limits = MaxOrdexusTransactionSize_def MaxSignaturesPerTransaction_def
  MaxInstructionsPerTransaction_def MaxInstructionAccounts_def MaxInstructionDataSize_def
  MaxAccountsPerTransaction_def

definition validateInstruction :: "CompiledInstruction \<Rightarrow> nat \<Rightarrow> structure_error + unit" where
  "validateInstruction i accountCount =
     (if accountCount \<le> unat (ci_program i) then Inl ErrInvalidInstruction
      else if MaxInstructionAccounts < length (ci_accounts i) then Inl ErrInvalidInstruction
      else if MaxInstructionDataSize < length (ci_data i) then Inl ErrInvalidInstruction
      else rforall (\<lambda>accountIndex.
             if accountCount \<le> unat accountIndex then Inl ErrInvalidInstruction else Inr ())
             (ci_accounts i))"

definition validateCompiledInstructions :: "CompiledInstruction list \<Rightarrow> nat \<Rightarrow> structure_error + unit" where
  "validateCompiledInstructions is accountCount =
     (if is = [] then Inl ErrEmptyInstructions
      else if MaxInstructionsPerTransaction < length is then Inl (SText ''instruction count'')
      else rforall (\<lambda>i. validateInstruction i accountCount) is)"

definition validateMessageHeader :: "MessageHeader \<Rightarrow> nat \<Rightarrow> structure_error + unit" where
  "validateMessageHeader h accountKeyCount =
     (if accountKeyCount < unat (h_required h) then Inl ErrInvalidMessageHeader
      else if h_required h < h_ro_signed h then Inl ErrInvalidMessageHeader
      else if accountKeyCount - unat (h_required h) < unat (h_ro_unsigned h)
        then Inl ErrInvalidMessageHeader
      else Inr ())"

definition validateAddressTableLookups :: "MessageAddressTableLookup list \<Rightarrow> structure_error + unit" where
  "validateAddressTableLookups ls =
     rforall (\<lambda>l. if l_key l = 0 then Inl ErrInvalidAddressTableLookup else Inr ()) ls"

definition totalAccountCount :: "OrdexusMessage \<Rightarrow> nat" where
  "totalAccountCount m =
     foldl (\<lambda>n l. n + (length (l_writable l) + length (l_readonly l)))
       (length (msg_keys m)) (msg_lookups m)"

definition Message_Validate :: "OrdexusMessage \<Rightarrow> structure_error + unit" where
  "Message_Validate m =
     (if msg_uses_table m \<and> msg_version m \<noteq> 0 then Inl ErrInvalidMessageVersion
      else if \<not> msg_uses_table m \<and> msg_version m \<noteq> 0 then Inl ErrInvalidMessageVersion
      else if \<not> msg_uses_table m \<and> msg_lookups m \<noteq> [] then Inl ErrInvalidAddressTableLookup
      else if msg_keys m = [] then Inl ErrEmptyAccountKeys
      else if MaxAccountsPerTransaction < totalAccountCount m then Inl (SText ''account key count'')
      else if msg_blockhash m = 0 then Inl ErrEmptyRecentBlockhash
      else
        rbind (validateMessageHeader (msg_header m) (length (msg_keys m))) (\<lambda>_.
        rbind (validateCompiledInstructions (msg_instructions m) (totalAccountCount m)) (\<lambda>_.
          validateAddressTableLookups (msg_lookups m))))"

definition Message_IsZero :: "OrdexusMessage \<Rightarrow> bool" where
  "Message_IsZero m \<longleftrightarrow> msg_keys m = [] \<and> msg_instructions m = [] \<and> msg_blockhash m = 0"

text \<open>The permissions of the static accounts, from their position and the counts of the header.\<close>

definition static_meta :: "MessageHeader \<Rightarrow> nat \<Rightarrow> nat \<Rightarrow> pubkey \<Rightarrow> AccountMeta" where
  "static_meta h n accountIndex publicKey =
     (let requiredSignatures = int (unat (h_required h));
          readonlySignedStart = requiredSignatures - int (unat (h_ro_signed h));
          readonlyUnsignedStart = int n - int (unat (h_ro_unsigned h));
          isSigner = int accountIndex < requiredSignatures;
          isReadonlySigned = isSigner \<and> readonlySignedStart \<le> int accountIndex;
          isReadonlyUnsigned = \<not> isSigner \<and> readonlyUnsignedStart \<le> int accountIndex
      in \<lparr>m_key = publicKey, m_signer = isSigner,
          m_writable = \<not> isReadonlySigned \<and> \<not> isReadonlyUnsigned\<rparr>)"

definition static_metas :: "MessageHeader \<Rightarrow> pubkey list \<Rightarrow> AccountMeta list" where
  "static_metas h keys = map (\<lambda>i. static_meta h (length keys) i (keys ! i)) [0..<length keys]"

definition StaticAccountMetas :: "OrdexusMessage \<Rightarrow> AccountMeta list" where
  "StaticAccountMetas m = static_metas (msg_header m) (msg_keys m)"

text \<open>The header a list of account metas is compressed to; the counters are \<open>uint8\<close>.\<close>

definition count_meta :: "MessageHeader \<Rightarrow> AccountMeta \<Rightarrow> MessageHeader" where
  "count_meta h a =
     (let h = (if m_signer a then h\<lparr>h_required := h_required h + 1\<rparr> else h);
          h = (if m_signer a \<and> \<not> m_writable a then h\<lparr>h_ro_signed := h_ro_signed h + 1\<rparr> else h)
      in if \<not> m_signer a \<and> \<not> m_writable a then h\<lparr>h_ro_unsigned := h_ro_unsigned h + 1\<rparr> else h)"

definition buildMessageHeader :: "AccountMeta list \<Rightarrow> MessageHeader" where
  "buildMessageHeader as = foldl count_meta \<lparr>h_required = 0, h_ro_signed = 0, h_ro_unsigned = 0\<rparr> as"

definition accountPublicKeys :: "AccountMeta list \<Rightarrow> pubkey list" where
  "accountPublicKeys as = map m_key as"

section \<open>Writing\<close>

definition appendShortVecLength :: "bytes \<Rightarrow> nat \<Rightarrow> structure_error + bytes" where
  "appendShortVecLength encoded len =
     rbind (EncodeShortVecLength len) (\<lambda>lengthBytes. Inr (encoded @ lengthBytes))"

definition appendPublicKeys :: "bytes \<Rightarrow> pubkey list \<Rightarrow> structure_error + bytes" where
  "appendPublicKeys encoded ks =
     rbind (appendShortVecLength encoded (length ks)) (\<lambda>encoded.
       Inr (foldl (\<lambda>encoded k. encoded @ key_bytes k) encoded ks))"

definition appendUint8Indexes :: "bytes \<Rightarrow> u8 list \<Rightarrow> structure_error + bytes" where
  "appendUint8Indexes encoded xs =
     rbind (appendShortVecLength encoded (length xs)) (\<lambda>encoded. Inr (encoded @ xs))"

definition appendInstruction :: "bytes \<Rightarrow> CompiledInstruction \<Rightarrow> structure_error + bytes" where
  "appendInstruction encoded i =
     rbind (appendUint8Indexes (encoded @ [ci_program i]) (ci_accounts i)) (\<lambda>encoded.
     rbind (appendShortVecLength encoded (length (ci_data i))) (\<lambda>encoded.
       Inr (encoded @ ci_data i)))"

fun append_all :: "(bytes \<Rightarrow> 'a \<Rightarrow> structure_error + bytes) \<Rightarrow> bytes \<Rightarrow> 'a list \<Rightarrow> structure_error + bytes" where
  "append_all app encoded [] = Inr encoded"
| "append_all app encoded (x # xs) = rbind (app encoded x) (\<lambda>encoded. append_all app encoded xs)"

definition appendInstructions :: "bytes \<Rightarrow> CompiledInstruction list \<Rightarrow> structure_error + bytes" where
  "appendInstructions encoded is =
     rbind (appendShortVecLength encoded (length is)) (\<lambda>encoded. append_all appendInstruction encoded is)"

definition append_lookup :: "bytes \<Rightarrow> MessageAddressTableLookup \<Rightarrow> structure_error + bytes" where
  "append_lookup encoded l =
     rbind (appendUint8Indexes (encoded @ key_bytes (l_key l)) (l_writable l)) (\<lambda>encoded.
       appendUint8Indexes encoded (l_readonly l))"

definition appendAddressTableLookups ::
    "bytes \<Rightarrow> MessageAddressTableLookup list \<Rightarrow> structure_error + bytes" where
  "appendAddressTableLookups encoded ls =
     rbind (appendShortVecLength encoded (length ls)) (\<lambda>encoded. append_all append_lookup encoded ls)"

definition Message_MarshalBinary :: "OrdexusMessage \<Rightarrow> structure_error + bytes" where
  "Message_MarshalBinary m =
     rbind (Message_Validate m) (\<lambda>_.
       let encoded = (if msg_uses_table m then [0x80 OR msg_version m] else []);
           encoded = encoded @ [h_required (msg_header m)];
           encoded = encoded @ [h_ro_signed (msg_header m)];
           encoded = encoded @ [h_ro_unsigned (msg_header m)]
       in rbind (appendPublicKeys encoded (msg_keys m)) (\<lambda>encoded.
          rbind (appendInstructions (encoded @ key_bytes (msg_blockhash m)) (msg_instructions m)) (\<lambda>encoded.
            if msg_uses_table m then appendAddressTableLookups encoded (msg_lookups m)
            else Inr encoded)))"

section \<open>Reading\<close>

definition readUint8 :: "bytes \<Rightarrow> structure_error + u8 \<times> bytes" where
  "readUint8 data = (case data of [] \<Rightarrow> Inl ErrInvalidTransactionEncoding | b # bs \<Rightarrow> Inr (b, bs))"

definition readFixedBytes :: "nat \<Rightarrow> bytes \<Rightarrow> structure_error + bytes \<times> bytes" where
  "readFixedBytes len data =
     (if length data < len then Inl ErrInvalidTransactionEncoding
      else Inr (take len data, drop len data))"

definition readShortBytes :: "nat \<Rightarrow> bytes \<Rightarrow> structure_error + bytes \<times> bytes" where
  "readShortBytes maxLength data =
     rbind (readShortVecLength data) (\<lambda>(len, data).
       if maxLength < len then Inl ErrInvalidTransactionEncoding else readFixedBytes len data)"

definition readUint8Indexes :: "bytes \<Rightarrow> structure_error + u8 list \<times> bytes" where
  "readUint8Indexes data =
     rbind (readShortVecLength data) (\<lambda>(indexCount, data).
       if MaxInstructionAccounts < indexCount then Inl ErrInvalidTransactionEncoding
       else readFixedBytes indexCount data)"

definition read_key :: "bytes \<Rightarrow> structure_error + pubkey \<times> bytes" where
  "read_key data =
     rbind (readFixedBytes PublicKeySize data) (\<lambda>(keyBytes, data).
     rbind (NewPublicKey keyBytes) (\<lambda>k. Inr (k, data)))"

definition read_hash :: "bytes \<Rightarrow> structure_error + hash \<times> bytes" where
  "read_hash data =
     rbind (readFixedBytes HashSize data) (\<lambda>(blockhashBytes, data).
     rbind (NewHash blockhashBytes) (\<lambda>h. Inr (h, data)))"

text \<open>A counted sequence: the count, the check of the count, the elements.\<close>

definition read_counted :: "(nat \<Rightarrow> structure_error + unit) \<Rightarrow> (bytes \<Rightarrow> structure_error + 'a \<times> bytes) \<Rightarrow>
    bytes \<Rightarrow> structure_error + 'a list \<times> bytes" where
  "read_counted check rd data =
     rbind (readShortVecLength data) (\<lambda>(n, data). rbind (check n) (\<lambda>_. read_many rd n data))"

definition readPublicKeys :: "bytes \<Rightarrow> structure_error + pubkey list \<times> bytes" where
  "readPublicKeys =
     read_counted (\<lambda>keyCount.
       if keyCount = 0 then Inl ErrEmptyAccountKeys
       else if MaxAccountsPerTransaction < keyCount then Inl ErrInvalidTransactionEncoding
       else Inr ()) read_key"

definition readInstruction :: "bytes \<Rightarrow> structure_error + CompiledInstruction \<times> bytes" where
  "readInstruction data =
     rbind (readUint8 data) (\<lambda>(programIDIndex, data).
     rbind (readUint8Indexes data) (\<lambda>(accountIndexes, data).
     rbind (readShortBytes MaxInstructionDataSize data) (\<lambda>(instructionData, data).
       Inr (\<lparr>ci_program = programIDIndex, ci_accounts = accountIndexes, ci_data = instructionData\<rparr>,
            data))))"

definition readInstructions :: "bytes \<Rightarrow> structure_error + CompiledInstruction list \<times> bytes" where
  "readInstructions =
     read_counted (\<lambda>instructionCount.
       if instructionCount = 0 then Inl ErrEmptyInstructions
       else if MaxInstructionsPerTransaction < instructionCount then Inl ErrInvalidTransactionEncoding
       else Inr ()) readInstruction"

definition read_lookup :: "bytes \<Rightarrow> structure_error + MessageAddressTableLookup \<times> bytes" where
  "read_lookup data =
     rbind (read_key data) (\<lambda>(accountKey, data).
     rbind (readUint8Indexes data) (\<lambda>(writableIndexes, data).
     rbind (readUint8Indexes data) (\<lambda>(readonlyIndexes, data).
       Inr (\<lparr>l_key = accountKey, l_writable = writableIndexes, l_readonly = readonlyIndexes\<rparr>, data))))"

definition readAddressTableLookups :: "bytes \<Rightarrow> structure_error + MessageAddressTableLookup list \<times> bytes" where
  "readAddressTableLookups = read_counted (\<lambda>_. Inr ()) read_lookup"

text \<open>The version octet, present when its high bit is set, and the first octet of the header.\<close>

definition read_prefix :: "bytes \<Rightarrow> structure_error + (bool \<times> u8 \<times> u8) \<times> bytes" where
  "read_prefix data =
     rbind (readUint8 data) (\<lambda>(firstByte, data).
       if firstByte AND 0x80 \<noteq> 0 then
         (let version = firstByte AND NOT 0x80 in
          if version \<noteq> 0 then Inl ErrInvalidMessageVersion
          else rbind (readUint8 data) (\<lambda>(req, data). Inr ((True, version, req), data)))
       else Inr ((False, 0, firstByte), data))"

definition readOrdexusMessage :: "bytes \<Rightarrow> structure_error + OrdexusMessage \<times> bytes" where
  "readOrdexusMessage data =
     (if data = [] then Inl ErrInvalidTransactionEncoding
      else
        rbind (read_prefix data) (\<lambda>((usesAddressTable, version, req), data).
        rbind (readUint8 data) (\<lambda>(roSigned, data).
        rbind (readUint8 data) (\<lambda>(roUnsigned, data).
        rbind (readPublicKeys data) (\<lambda>(keys, data).
        rbind (read_hash data) (\<lambda>(blockhash, data).
        rbind (readInstructions data) (\<lambda>(instructions, data).
        rbind (if usesAddressTable then readAddressTableLookups data else Inr ([], data))
          (\<lambda>(lookups, data).
          let message =
            \<lparr>msg_header = \<lparr>h_required = req, h_ro_signed = roSigned, h_ro_unsigned = roUnsigned\<rparr>,
             msg_keys = keys, msg_blockhash = blockhash, msg_instructions = instructions,
             msg_lookups = lookups, msg_version = version, msg_uses_table = usesAddressTable\<rparr>
          in rbind (Message_Validate message) (\<lambda>_. Inr (message, data))))))))))"

definition UnmarshalOrdexusMessageBinary :: "bytes \<Rightarrow> structure_error + OrdexusMessage" where
  "UnmarshalOrdexusMessageBinary data =
     (if data = [] then Inl ErrInvalidTransactionEncoding
      else
        rbind (readOrdexusMessage data) (\<lambda>(message, data).
          if data \<noteq> [] then Inl ErrInvalidTransactionEncoding
          else rbind (Message_Validate message) (\<lambda>_. Inr message)))"

section \<open>The wire formats\<close>

definition wr_indexes :: "u8 list \<Rightarrow> bytes" where
  "wr_indexes xs = groups (length xs) @ xs"

definition wr_counted :: "('a \<Rightarrow> bytes) \<Rightarrow> 'a list \<Rightarrow> bytes" where
  "wr_counted wr xs = groups (length xs) @ concat (map wr xs)"

definition wr_instruction :: "CompiledInstruction \<Rightarrow> bytes" where
  "wr_instruction i = ci_program i # wr_indexes (ci_accounts i) @ wr_indexes (ci_data i)"

definition wr_lookup :: "MessageAddressTableLookup \<Rightarrow> bytes" where
  "wr_lookup l = key_bytes (l_key l) @ wr_indexes (l_writable l) @ wr_indexes (l_readonly l)"

definition ok_instruction :: "CompiledInstruction \<Rightarrow> bool" where
  "ok_instruction i \<longleftrightarrow>
     length (ci_accounts i) \<le> MaxInstructionAccounts \<and> length (ci_data i) \<le> MaxInstructionDataSize"

definition ok_lookup :: "MessageAddressTableLookup \<Rightarrow> bool" where
  "ok_lookup l \<longleftrightarrow>
     length (l_writable l) \<le> MaxInstructionAccounts \<and> length (l_readonly l) \<le> MaxInstructionAccounts"

lemma readFixedBytes_append [codec_simps]: "readFixedBytes (length xs) (xs @ rest) = Inr (xs, rest)"
  by (simp add: readFixedBytes_def)

lemma readFixedBytes_Inr:
  "readFixedBytes n bs = Inr (xs, rest) \<longleftrightarrow> length xs = n \<and> bs = xs @ rest"
  by (auto simp: readFixedBytes_def)

lemma readUint8_Inr [simp]: "readUint8 bs = Inr (b, rest) \<longleftrightarrow> bs = b # rest"
  by (auto simp: readUint8_def split: list.splits)

lemma readUint8_Cons [codec_simps]: "readUint8 (b # rest) = Inr (b, rest)"
  by simp

lemma wire_short_bytes:
  assumes "n \<le> 65535"
  shows "wire_format wr_indexes (readShortBytes n) (\<lambda>xs. length xs \<le> n)"
proof
  fix xs rest :: bytes
  assume "length xs \<le> n"
  then show "readShortBytes n (wr_indexes xs @ rest) = Inr (xs, rest)"
    using assms by (simp add: readShortBytes_def wr_indexes_def short_len.rd_wr readFixedBytes_append)
next
  fix bs xs rest :: bytes
  assume "readShortBytes n bs = Inr (xs, rest)"
  then show "length xs \<le> n \<and> length (wr_indexes xs) + length rest \<le> length bs"
    by (auto simp: readShortBytes_def result_simps wr_indexes_def readFixedBytes_Inr
        dest!: short_len.rd_ok)
qed

lemma readUint8Indexes_eq: "readUint8Indexes = readShortBytes MaxInstructionAccounts"
  by (simp add: fun_eq_iff readUint8Indexes_def readShortBytes_def)

interpretation w_indexes: wire_format wr_indexes readUint8Indexes "\<lambda>xs. length xs \<le> MaxInstructionAccounts"
  unfolding readUint8Indexes_eq by (rule wire_short_bytes) (simp add: message_limits)

interpretation w_data: wire_format wr_indexes "readShortBytes MaxInstructionDataSize"
    "\<lambda>xs. length xs \<le> MaxInstructionDataSize"
  by (rule wire_short_bytes) (simp add: message_limits)

interpretation w_key: wire_format "\<lambda>k :: pubkey. key_bytes k" read_key "\<lambda>_. True"
  by unfold_locales
    (auto simp: read_key_def PublicKeySize_def readFixedBytes_def result_simps NewPublicKey_Inr)

interpretation w_hash: wire_format "\<lambda>k :: hash. key_bytes k" read_hash "\<lambda>_. True"
  by unfold_locales
    (auto simp: read_hash_def HashSize_def readFixedBytes_def result_simps NewHash_Inr)

interpretation w_instruction: wire_format wr_instruction readInstruction ok_instruction
  by unfold_locales
    (auto simp: readInstruction_def wr_instruction_def ok_instruction_def w_indexes.rd_wr
      w_data.rd_wr codec_simps result_simps dest!: w_indexes.rd_ok w_data.rd_ok)

interpretation w_lookup: wire_format wr_lookup read_lookup ok_lookup
  by unfold_locales
    (auto simp: read_lookup_def wr_lookup_def ok_lookup_def w_indexes.rd_wr w_key.rd_wr
      result_simps dest!: w_indexes.rd_ok w_key.rd_ok)

context wire_format
begin

lemma counted:
  assumes "\<And>n. check n = Inr () \<Longrightarrow> n \<le> 65535"
  shows "wire_format (wr_counted wr) (read_counted check rd)
    (\<lambda>xs. check (length xs) = Inr () \<and> (\<forall>x \<in> set xs. ok x))"
proof
  fix xs and rest :: bytes
  assume "check (length xs) = Inr () \<and> (\<forall>x \<in> set xs. ok x)"
  then show "read_counted check rd (wr_counted wr xs @ rest) = Inr (xs, rest)"
    using assms by (simp add: read_counted_def wr_counted_def short_len.rd_wr read_many_wr)
next
  fix bs xs and rest :: bytes
  assume "read_counted check rd bs = Inr (xs, rest)"
  then obtain n bs' where n: "readShortVecLength bs = Inr (n, bs')" and c: "check n = Inr ()"
    and xs: "read_many rd n bs' = Inr (xs, rest)"
    by (auto simp: read_counted_def result_simps)
  from short_len.rd_ok [OF n] read_many_ok [OF xs] c
  show "(check (length xs) = Inr () \<and> (\<forall>x \<in> set xs. ok x)) \<and>
      length (wr_counted wr xs) + length rest \<le> length bs"
    by (auto simp: wr_counted_def)
qed

end

lemma readPublicKeys_wire:
  "wire_format (wr_counted (\<lambda>k :: pubkey. key_bytes k)) readPublicKeys
     (\<lambda>ks. 0 < length ks \<and> length ks \<le> MaxAccountsPerTransaction)"
  using w_key.counted [of "\<lambda>n. if n = 0 then Inl ErrEmptyAccountKeys
     else if MaxAccountsPerTransaction < n then Inl ErrInvalidTransactionEncoding else Inr ()"]
  by (simp add: readPublicKeys_def message_limits result_simps not_less)

interpretation w_keys: wire_format "wr_counted (\<lambda>k :: pubkey. key_bytes k)" readPublicKeys
    "\<lambda>ks. 0 < length ks \<and> length ks \<le> MaxAccountsPerTransaction"
  by (rule readPublicKeys_wire)

lemma readInstructions_wire:
  "wire_format (wr_counted wr_instruction) readInstructions
     (\<lambda>is. 0 < length is \<and> length is \<le> MaxInstructionsPerTransaction \<and> (\<forall>i \<in> set is. ok_instruction i))"
  using w_instruction.counted [of "\<lambda>n. if n = 0 then Inl ErrEmptyInstructions
     else if MaxInstructionsPerTransaction < n then Inl ErrInvalidTransactionEncoding else Inr ()"]
  by (simp add: readInstructions_def message_limits result_simps not_less conj_assoc)

interpretation w_instructions: wire_format "wr_counted wr_instruction" readInstructions
    "\<lambda>is. 0 < length is \<and> length is \<le> MaxInstructionsPerTransaction \<and> (\<forall>i \<in> set is. ok_instruction i)"
  by (rule readInstructions_wire)

text \<open>
  The list of address tables has no limit of its own, so \<open>counted\<close> does not apply: the bound of a
  short-vec length is part of what a written list satisfies.
\<close>

lemma readAddressTableLookups_wire:
  "wire_format (wr_counted wr_lookup) readAddressTableLookups
     (\<lambda>ls. length ls \<le> 65535 \<and> (\<forall>l \<in> set ls. ok_lookup l))"
proof
  fix ls and rest :: bytes
  assume "length ls \<le> 65535 \<and> (\<forall>l \<in> set ls. ok_lookup l)"
  then show "readAddressTableLookups (wr_counted wr_lookup ls @ rest) = Inr (ls, rest)"
    by (simp add: readAddressTableLookups_def read_counted_def wr_counted_def short_len.rd_wr
        w_lookup.read_many_wr)
next
  fix bs ls and rest :: bytes
  assume "readAddressTableLookups bs = Inr (ls, rest)"
  then show "(length ls \<le> 65535 \<and> (\<forall>l \<in> set ls. ok_lookup l)) \<and>
      length (wr_counted wr_lookup ls) + length rest \<le> length bs"
    by (fastforce simp: readAddressTableLookups_def read_counted_def wr_counted_def result_simps
        dest: short_len.rd_ok w_lookup.read_many_ok)
qed

interpretation w_lookups: wire_format "wr_counted wr_lookup" readAddressTableLookups
    "\<lambda>ls. length ls \<le> 65535 \<and> (\<forall>l \<in> set ls. ok_lookup l)"
  by (rule readAddressTableLookups_wire)

section \<open>What a valid message encodes to\<close>

definition message_layout :: "OrdexusMessage \<Rightarrow> bytes" where
  "message_layout m =
     (if msg_uses_table m then [0x80 OR msg_version m] else []) @
     [h_required (msg_header m), h_ro_signed (msg_header m), h_ro_unsigned (msg_header m)] @
     wr_counted (\<lambda>k. key_bytes k) (msg_keys m) @ key_bytes (msg_blockhash m) @
     wr_counted wr_instruction (msg_instructions m) @
     (if msg_uses_table m then wr_counted wr_lookup (msg_lookups m) else [])"

lemma appendShortVecLength_Inr:
  "appendShortVecLength enc n = Inr bs \<longleftrightarrow> n \<le> 65535 \<and> bs = enc @ groups n"
  by (auto simp: appendShortVecLength_def result_simps EncodeShortVecLength_Inr)

lemma appendUint8Indexes_Inr:
  "appendUint8Indexes enc xs = Inr bs \<longleftrightarrow> length xs \<le> 65535 \<and> bs = enc @ wr_indexes xs"
  by (auto simp: appendUint8Indexes_def result_simps appendShortVecLength_Inr wr_indexes_def)

lemma appendInstruction_Inr:
  "appendInstruction enc i = Inr bs \<longleftrightarrow>
     length (ci_accounts i) \<le> 65535 \<and> length (ci_data i) \<le> 65535 \<and> bs = enc @ wr_instruction i"
  by (auto simp: appendInstruction_def result_simps appendUint8Indexes_Inr appendShortVecLength_Inr
      wr_instruction_def wr_indexes_def)

lemma append_lookup_Inr:
  "append_lookup enc l = Inr bs \<longleftrightarrow>
     length (l_writable l) \<le> 65535 \<and> length (l_readonly l) \<le> 65535 \<and> bs = enc @ wr_lookup l"
  by (auto simp: append_lookup_def result_simps appendUint8Indexes_Inr wr_lookup_def)

lemma append_all_Inr:
  assumes "\<And>enc x bs. app enc x = Inr bs \<longleftrightarrow> small x \<and> bs = enc @ wr x"
  shows "append_all app enc xs = Inr bs \<longleftrightarrow> (\<forall>x \<in> set xs. small x) \<and> bs = enc @ concat (map wr xs)"
  by (induction xs arbitrary: enc) (auto simp: result_simps assms)

lemma appendPublicKeys_Inr:
  "appendPublicKeys enc ks = Inr bs \<longleftrightarrow>
     length ks \<le> 65535 \<and> bs = enc @ wr_counted (\<lambda>k. key_bytes k) ks"
proof -
  have "foldl (\<lambda>encoded k. encoded @ key_bytes k) e ks = e @ concat (map (\<lambda>k. key_bytes k) ks)" for e
    by (induction ks arbitrary: e) auto
  then show ?thesis
    by (auto simp: appendPublicKeys_def result_simps appendShortVecLength_Inr wr_counted_def)
qed

lemma appendInstructions_Inr:
  "appendInstructions enc is = Inr bs \<longleftrightarrow>
     length is \<le> 65535 \<and>
     (\<forall>i \<in> set is. length (ci_accounts i) \<le> 65535 \<and> length (ci_data i) \<le> 65535) \<and>
     bs = enc @ wr_counted wr_instruction is"
  by (auto simp: appendInstructions_def result_simps appendShortVecLength_Inr wr_counted_def
      append_all_Inr [where small = "\<lambda>i. length (ci_accounts i) \<le> 65535 \<and> length (ci_data i) \<le> 65535"
        and wr = wr_instruction] appendInstruction_Inr)

lemma appendAddressTableLookups_Inr:
  "appendAddressTableLookups enc ls = Inr bs \<longleftrightarrow>
     length ls \<le> 65535 \<and>
     (\<forall>l \<in> set ls. length (l_writable l) \<le> 65535 \<and> length (l_readonly l) \<le> 65535) \<and>
     bs = enc @ wr_counted wr_lookup ls"
  by (auto simp: appendAddressTableLookups_def result_simps appendShortVecLength_Inr wr_counted_def
      append_all_Inr [where small = "\<lambda>l. length (l_writable l) \<le> 65535 \<and> length (l_readonly l) \<le> 65535"
        and wr = wr_lookup] append_lookup_Inr)

lemma validateInstruction_Inr:
  "validateInstruction i n = Inr () \<longleftrightarrow>
     unat (ci_program i) < n \<and> ok_instruction i \<and> (\<forall>x \<in> set (ci_accounts i). unat x < n)"
  by (auto simp: validateInstruction_def ok_instruction_def rforall_Inr result_simps not_le)

lemma validateCompiledInstructions_Inr:
  "validateCompiledInstructions is n = Inr () \<longleftrightarrow>
     0 < length is \<and> length is \<le> MaxInstructionsPerTransaction \<and>
     (\<forall>i \<in> set is. validateInstruction i n = Inr ())"
  by (auto simp: validateCompiledInstructions_def rforall_Inr result_simps)

lemma validateMessageHeader_Inr:
  "validateMessageHeader h n = Inr () \<longleftrightarrow>
     unat (h_required h) + unat (h_ro_unsigned h) \<le> n \<and> unat (h_ro_signed h) \<le> unat (h_required h)"
  by (auto simp: validateMessageHeader_def result_simps word_less_nat_alt)

lemma totalAccountCount_eq:
  "totalAccountCount m =
     length (msg_keys m) + sum_list (map (\<lambda>l. length (l_writable l) + length (l_readonly l)) (msg_lookups m))"
proof -
  have "foldl (\<lambda>n l. n + f l) k ls = k + sum_list (map f ls)" for f :: "'a \<Rightarrow> nat" and k ls
    by (induction ls arbitrary: k) auto
  then show ?thesis by (simp add: totalAccountCount_def)
qed

text \<open>What \<open>Validate\<close> guarantees.\<close>

lemma Message_Validate_facts:
  assumes "Message_Validate m = Inr ()"
  shows "msg_version m = 0" and "\<not> msg_uses_table m \<Longrightarrow> msg_lookups m = []"
    and "0 < length (msg_keys m)" and "length (msg_keys m) \<le> MaxAccountsPerTransaction"
    and "totalAccountCount m \<le> MaxAccountsPerTransaction" and "msg_blockhash m \<noteq> 0"
    and "validateMessageHeader (msg_header m) (length (msg_keys m)) = Inr ()"
    and "validateCompiledInstructions (msg_instructions m) (totalAccountCount m) = Inr ()"
    and "\<forall>l \<in> set (msg_lookups m). ok_lookup l"
proof -
  from assms show "msg_version m = 0" and "\<not> msg_uses_table m \<Longrightarrow> msg_lookups m = []"
    and "0 < length (msg_keys m)" and t: "totalAccountCount m \<le> MaxAccountsPerTransaction"
    and "msg_blockhash m \<noteq> 0"
    and "validateMessageHeader (msg_header m) (length (msg_keys m)) = Inr ()"
    and "validateCompiledInstructions (msg_instructions m) (totalAccountCount m) = Inr ()"
    by (auto simp: Message_Validate_def result_simps)
  from t show "length (msg_keys m) \<le> MaxAccountsPerTransaction"
    by (simp add: totalAccountCount_eq)
  show "\<forall>l \<in> set (msg_lookups m). ok_lookup l"
  proof
    fix l assume "l \<in> set (msg_lookups m)"
    then have "length (l_writable l) + length (l_readonly l) \<le>
        sum_list (map (\<lambda>l. length (l_writable l) + length (l_readonly l)) (msg_lookups m))"
      by (intro member_le_sum_list) auto
    with t show "ok_lookup l"
      by (simp add: ok_lookup_def totalAccountCount_eq MaxInstructionAccounts_def)
  qed
qed

lemma Message_MarshalBinary_Inr:
  "Message_MarshalBinary m = Inr bs \<longleftrightarrow>
     Message_Validate m = Inr () \<and> length (msg_lookups m) \<le> 65535 \<and> bs = message_layout m"
proof (cases "Message_Validate m = Inr ()")
  case True
  note v = Message_Validate_facts [OF True]
  have k: "length (msg_keys m) \<le> 65535" using v(4) by (simp add: message_limits)
  have i: "length (msg_instructions m) \<le> 65535"
    "\<forall>i \<in> set (msg_instructions m). length (ci_accounts i) \<le> 65535 \<and> length (ci_data i) \<le> 65535"
    using v(8)
    by (auto simp: validateCompiledInstructions_Inr validateInstruction_Inr ok_instruction_def message_limits)
  have l: "\<forall>l \<in> set (msg_lookups m). length (l_writable l) \<le> 65535 \<and> length (l_readonly l) \<le> 65535"
    using v(9) by (auto simp: ok_lookup_def message_limits)
  show ?thesis
    using True k i l v(2)
    by (auto simp: Message_MarshalBinary_def Let_def result_simps appendPublicKeys_Inr
        appendInstructions_Inr appendAddressTableLookups_Inr message_layout_def split: if_splits)
next
  case False
  then show ?thesis by (auto simp: Message_MarshalBinary_def result_simps)
qed

section \<open>Reading a message back\<close>

lemma required_small:
  assumes "Message_Validate m = Inr ()"
  shows "h_required (msg_header m) AND 0x80 = 0"
  using Message_Validate_facts(4,7) [OF assms]
  by (simp add: byte_and_80 validateMessageHeader_Inr message_limits)

lemma read_prefix_layout:
  assumes "Message_Validate m = Inr ()"
  shows "read_prefix ((if msg_uses_table m then [0x80 OR msg_version m] else []) @
      h_required (msg_header m) # rest) =
    Inr ((msg_uses_table m, msg_version m, h_required (msg_header m)), rest)"
  using required_small [OF assms] Message_Validate_facts(1) [OF assms]
  by (simp add: read_prefix_def codec_simps)

lemma readOrdexusMessage_layout:
  assumes "Message_Validate m = Inr ()" and "length (msg_lookups m) \<le> 65535"
  shows "readOrdexusMessage (message_layout m @ rest) = Inr (m, rest)"
proof -
  note v = Message_Validate_facts [OF assms(1)]
  have i: "0 < length (msg_instructions m) \<and>
      length (msg_instructions m) \<le> MaxInstructionsPerTransaction \<and>
      (\<forall>i \<in> set (msg_instructions m). ok_instruction i)"
    using v(8) by (auto simp: validateCompiledInstructions_Inr validateInstruction_Inr)
  have l: "(if msg_uses_table m then readAddressTableLookups
      ((if msg_uses_table m then wr_counted wr_lookup (msg_lookups m) else []) @ rest)
      else Inr ([], (if msg_uses_table m then wr_counted wr_lookup (msg_lookups m) else []) @ rest)) =
      Inr (msg_lookups m, rest)"
    using v(2,9) assms(2) by (simp add: w_lookups.rd_wr)
  have ne: "message_layout m \<noteq> []" by (simp add: message_layout_def)
  have eta: "\<lparr>msg_header = \<lparr>h_required = h_required (msg_header m), h_ro_signed = h_ro_signed (msg_header m),
      h_ro_unsigned = h_ro_unsigned (msg_header m)\<rparr>, msg_keys = msg_keys m,
      msg_blockhash = msg_blockhash m, msg_instructions = msg_instructions m,
      msg_lookups = msg_lookups m, msg_version = msg_version m, msg_uses_table = msg_uses_table m\<rparr> = m"
    by (cases m, cases "msg_header m") simp
  have p: "read_prefix (message_layout m @ rest) =
      Inr ((msg_uses_table m, msg_version m, h_required (msg_header m)),
        h_ro_signed (msg_header m) # h_ro_unsigned (msg_header m) #
        wr_counted (\<lambda>k. key_bytes k) (msg_keys m) @ key_bytes (msg_blockhash m) @
        wr_counted wr_instruction (msg_instructions m) @
        (if msg_uses_table m then wr_counted wr_lookup (msg_lookups m) else []) @ rest)"
    using read_prefix_layout [OF assms(1)] by (simp add: message_layout_def)
  show ?thesis
    using v(3,4) i l assms(1)
    by (simp add: readOrdexusMessage_def ne p codec_simps w_keys.rd_wr w_hash.rd_wr
        w_instructions.rd_wr Let_def eta)
qed

lemma read_prefix_Inr:
  assumes "read_prefix bs = Inr ((u, v, q), rest)"
  shows "v = 0 \<and> length bs = (if u then 2 else 1) + length rest"
  using assms by (auto simp: read_prefix_def result_simps Let_def split: if_splits)

lemma readOrdexusMessage_Inr:
  assumes "readOrdexusMessage bs = Inr (m, rest)"
  shows "Message_Validate m = Inr () \<and> length (msg_lookups m) \<le> 65535 \<and>
    length (message_layout m) + length rest \<le> length bs"
proof -
  from assms obtain u v q b1 s b2 n b3 ks b4 h b5 ins b6 ls where
    p: "read_prefix bs = Inr ((u, v, q), b1)"
    and sn: "b1 = s # b2" "b2 = n # b3"
    and ks: "readPublicKeys b3 = Inr (ks, b4)" and h: "read_hash b4 = Inr (h, b5)"
    and ins: "readInstructions b5 = Inr (ins, b6)"
    and ls: "(if u then readAddressTableLookups b6 else Inr ([], b6)) = Inr (ls, rest)"
    and m: "m = \<lparr>msg_header = \<lparr>h_required = q, h_ro_signed = s, h_ro_unsigned = n\<rparr>,
             msg_keys = ks, msg_blockhash = h, msg_instructions = ins,
             msg_lookups = ls, msg_version = v, msg_uses_table = u\<rparr>"
    and valid: "Message_Validate m = Inr ()"
    by (auto simp: readOrdexusMessage_def result_simps Let_def)
  have l: "length ls \<le> 65535 \<and> length (if u then wr_counted wr_lookup ls else []) + length rest \<le> length b6"
    using ls by (cases u) (auto dest: w_lookups.rd_ok)
  show ?thesis
    using read_prefix_Inr [OF p] sn w_keys.rd_ok [OF ks] w_hash.rd_ok [OF h]
      w_instructions.rd_ok [OF ins] l valid
    by (auto simp: message_layout_def m)
qed

section \<open>The header determines the permissions\<close>

lemma sorted_prefix:
  fixes f :: "'a \<Rightarrow> nat"
  assumes "sorted (map f xs)" and "i < length xs"
  shows "f (xs ! i) \<le> k \<longleftrightarrow> i < length (filter (\<lambda>x. f x \<le> k) xs)"
  using assms
proof (induction xs arbitrary: i)
  case Nil
  then show ?case by simp
next
  case (Cons x xs)
  show ?case
  proof (cases "f x \<le> k")
    case True
    then show ?thesis using Cons by (cases i) auto
  next
    case False
    then have "filter (\<lambda>y. f y \<le> k) xs = []" using Cons.prems(1) by (fastforce simp: filter_empty_conv)
    moreover have "f x \<le> f ((x # xs) ! i)" using Cons.prems by (cases i) auto
    ultimately show ?thesis using False by (simp del: nth.simps nth_Cons')
  qed
qed

lemma foldl_count_meta:
  "h_required (foldl count_meta h as) = h_required h + of_nat (length (filter m_signer as)) \<and>
   h_ro_signed (foldl count_meta h as) =
     h_ro_signed h + of_nat (length (filter (\<lambda>a. m_signer a \<and> \<not> m_writable a) as)) \<and>
   h_ro_unsigned (foldl count_meta h as) =
     h_ro_unsigned h + of_nat (length (filter (\<lambda>a. \<not> m_signer a \<and> \<not> m_writable a) as))"
  by (induction as arbitrary: h) (simp_all add: count_meta_def Let_def)

text \<open>The three counts of the header are counts of permission groups.\<close>

lemma length_filter_split:
  "length (filter P xs) = length (filter (\<lambda>x. P x \<and> Q x) xs) + length (filter (\<lambda>x. P x \<and> \<not> Q x) xs)"
  by (induction xs) auto

lemma buildMessageHeader_counts:
  assumes "length as < 256"
  defines "n \<equiv> \<lambda>k. length (filter (\<lambda>a. accountPermissionGroup a \<le> k) as)"
  shows "unat (h_required (buildMessageHeader as)) = n 1"
    and "unat (h_required (buildMessageHeader as)) =
      n 0 + unat (h_ro_signed (buildMessageHeader as))"
    and "length as = n 2 + unat (h_ro_unsigned (buildMessageHeader as))"
proof -
  have lt: "length (filter P as) < 256" for P
    using assms(1) length_filter_le [of P as] by (rule le_less_trans [rotated])
  have g: "accountPermissionGroup a \<le> 1 \<longleftrightarrow> m_signer a"
    "accountPermissionGroup a \<le> 0 \<longleftrightarrow> m_signer a \<and> m_writable a"
    "accountPermissionGroup a \<le> 2 \<longleftrightarrow> \<not> (\<not> m_signer a \<and> \<not> m_writable a)" for a
    by (auto simp: accountPermissionGroup_def)
  have n: "n 1 = length (filter m_signer as)"
    "n 0 = length (filter (\<lambda>a. m_signer a \<and> m_writable a) as)"
    "n 2 = length (filter (\<lambda>a. \<not> (\<not> m_signer a \<and> \<not> m_writable a)) as)"
    unfolding n_def g by (rule refl)+
  have u: "unat (h_required (buildMessageHeader as)) = length (filter m_signer as)"
    "unat (h_ro_signed (buildMessageHeader as)) =
       length (filter (\<lambda>a. m_signer a \<and> \<not> m_writable a) as)"
    "unat (h_ro_unsigned (buildMessageHeader as)) =
       length (filter (\<lambda>a. \<not> m_signer a \<and> \<not> m_writable a) as)"
    using foldl_count_meta [of "\<lparr>h_required = 0, h_ro_signed = 0, h_ro_unsigned = 0\<rparr>" as] lt
    by (simp_all add: buildMessageHeader_def)
  show "unat (h_required (buildMessageHeader as)) = n 1"
    by (simp only: n u)
  show "unat (h_required (buildMessageHeader as)) = n 0 + unat (h_ro_signed (buildMessageHeader as))"
    unfolding n u by (rule length_filter_split)
  show "length as = n 2 + unat (h_ro_unsigned (buildMessageHeader as))"
    unfolding n u
    using sum_length_filter_compl [of "\<lambda>a. \<not> (\<not> m_signer a \<and> \<not> m_writable a)" as] by simp
qed

lemma static_meta_nat:
  "static_meta h n i k =
     \<lparr>m_key = k, m_signer = i < unat (h_required h),
      m_writable = (if i < unat (h_required h) then i + unat (h_ro_signed h) < unat (h_required h)
        else i + unat (h_ro_unsigned h) < n)\<rparr>"
proof -
  define r s u where "r = unat (h_required h)" and "s = unat (h_ro_signed h)"
    and "u = unat (h_ro_unsigned h)"
  show ?thesis
    unfolding static_meta_def Let_def r_def [symmetric] s_def [symmetric] u_def [symmetric] by auto
qed

lemma static_metas_buildMessageHeader:
  assumes "sorted (map accountPermissionGroup as)" and "length as < 256"
  shows "static_metas (buildMessageHeader as) (accountPublicKeys as) = as"
proof (rule nth_equalityI)
  show "length (static_metas (buildMessageHeader as) (accountPublicKeys as)) = length as"
    by (simp add: static_metas_def accountPublicKeys_def)
next
  fix i assume "i < length (static_metas (buildMessageHeader as) (accountPublicKeys as))"
  then have i: "i < length as" by (simp add: static_metas_def accountPublicKeys_def)
  note p = sorted_prefix [OF assms(1) i]
  note c = buildMessageHeader_counts [OF assms(2)]
  have g: "m_signer (as ! i) \<longleftrightarrow> accountPermissionGroup (as ! i) \<le> 1"
    "m_writable (as ! i) \<longleftrightarrow> (if m_signer (as ! i) then accountPermissionGroup (as ! i) \<le> 0
       else accountPermissionGroup (as ! i) \<le> 2)"
    by (auto simp: accountPermissionGroup_def)
  have "m_signer (as ! i) \<longleftrightarrow> i < unat (h_required (buildMessageHeader as))"
    by (simp only: g(1) p c(1))
  moreover have "m_writable (as ! i) \<longleftrightarrow> (if m_signer (as ! i)
       then i + unat (h_ro_signed (buildMessageHeader as)) < unat (h_required (buildMessageHeader as))
       else i + unat (h_ro_unsigned (buildMessageHeader as)) < length as)"
    unfolding g(2) p c(2) using c(3) by simp
  ultimately show "static_metas (buildMessageHeader as) (accountPublicKeys as) ! i = as ! i"
    using i by (cases "as ! i")
      (simp add: static_metas_def static_meta_nat accountPublicKeys_def)
qed

section \<open>Properties\<close>

text \<open>
  C26: a message that \<open>MarshalBinary\<close> encodes, legacy or v0, is what \<open>UnmarshalOrdexusMessageBinary\<close>
  decodes from the octets; in particular the first octet of a valid legacy header is never taken
  for a version prefix.
\<close>

theorem message_round_trip:
  assumes "Message_MarshalBinary m = Inr bs"
  shows "UnmarshalOrdexusMessageBinary bs = Inr m"
  using assms readOrdexusMessage_layout [of m "[]"]
  by (auto simp: Message_MarshalBinary_Inr UnmarshalOrdexusMessageBinary_def message_layout_def)

definition sample_message :: OrdexusMessage where
  "sample_message =
     \<lparr>msg_header = \<lparr>h_required = 1, h_ro_signed = 0, h_ro_unsigned = 1\<rparr>, msg_keys = [5, 6, 0],
      msg_blockhash = 9,
      msg_instructions = [\<lparr>ci_program = 2, ci_accounts = [0, 1], ci_data = [2, 0, 0, 0]\<rparr>],
      msg_lookups = [], msg_version = 0, msg_uses_table = False\<rparr>"

lemma sample_message_valid: "Message_Validate sample_message = Inr ()"
  by (simp add: sample_message_def Message_Validate_def totalAccountCount_def message_limits
      validateMessageHeader_def validateCompiledInstructions_def validateInstruction_def
      validateAddressTableLookups_def)

lemma sample_message_marshal: "Message_MarshalBinary sample_message = Inr (message_layout sample_message)"
  using sample_message_valid by (simp add: Message_MarshalBinary_Inr sample_message_def)

theorem message_round_trip_witness:
  "UnmarshalOrdexusMessageBinary (message_layout sample_message) = Inr sample_message"
  by (rule message_round_trip [OF sample_message_marshal])

text \<open>
  C27: the three counters of a message header lose nothing: for account metas in the order the
  message format asks for (writable signers, readonly signers, writable others, readonly others)
  the permissions recomputed from the header and the keys are the metas the header was built
  from.
\<close>

theorem header_preserves_permissions:
  assumes "sorted (map accountPermissionGroup as)" and "length as \<le> MaxAccountsPerTransaction"
  shows "StaticAccountMetas (m\<lparr>msg_header := buildMessageHeader as, msg_keys := accountPublicKeys as\<rparr>) = as"
  using static_metas_buildMessageHeader [OF assms(1)] assms(2)
  by (simp add: StaticAccountMetas_def message_limits)

definition sample_metas :: "AccountMeta list" where
  "sample_metas =
     [\<lparr>m_key = 5, m_signer = True, m_writable = True\<rparr>, \<lparr>m_key = 8, m_signer = True, m_writable = False\<rparr>,
      \<lparr>m_key = 6, m_signer = False, m_writable = True\<rparr>, \<lparr>m_key = 0, m_signer = False, m_writable = False\<rparr>]"

theorem header_preserves_permissions_witness:
  "StaticAccountMetas (sample_message\<lparr>msg_header := buildMessageHeader sample_metas,
     msg_keys := accountPublicKeys sample_metas\<rparr>) = sample_metas"
  by (rule header_preserves_permissions)
    (simp_all add: sample_metas_def accountPermissionGroup_def message_limits)

end
