(* ===== verification/Transactions.thy ===== *)
theory Transactions
  imports Messages Base58 Sha256
begin

text \<open>
  \<open>structure/transaction.go\<close> and \<open>structure/signature.go\<close>: the transaction around a message, its
  validation, its wire format, signing and signature verification. The decoder of a shielded
  instruction and the Ed25519 primitives are parameters of the operations that call them.
\<close>

section \<open>Model\<close>

record Transaction =
  t_signatures :: "signature list"
  t_accounts :: "AccountMeta list"
  t_instructions :: "CompiledInstruction list"
  t_blockhash :: hash
  t_message :: OrdexusMessage
  t_fee :: u64
  t_size :: u64
  t_submit :: int
  t_status :: u16

text \<open>The part of a shielded transfer that the shape of an unsigned transaction depends on.\<close>

record ShieldedAction =
  act_enabled_spend :: bool
  act_nullifier :: hash

record ShieldedTransferInstruction =
  sti_input :: u64
  sti_output :: u64
  sti_actions :: "ShieldedAction list"

type_synonym shielded_decoder = "bytes \<Rightarrow> structure_error + ShieldedTransferInstruction"

definition zero_message :: OrdexusMessage where
  "zero_message =
     \<lparr>msg_header = \<lparr>h_required = 0, h_ro_signed = 0, h_ro_unsigned = 0\<rparr>, msg_keys = [],
      msg_blockhash = 0, msg_instructions = [], msg_lookups = [], msg_version = 0,
      msg_uses_table = False\<rparr>"

definition hasDuplicatePublicKeys :: "pubkey list \<Rightarrow> bool" where
  "hasDuplicatePublicKeys ks \<longleftrightarrow> \<not> distinct ks"

fun validateUniqueAccounts :: "pubkey set \<Rightarrow> AccountMeta list \<Rightarrow> structure_error + unit" where
  "validateUniqueAccounts seen [] = Inr ()"
| "validateUniqueAccounts seen (a # as) =
     (if m_key a \<in> seen then Inl ErrInvalidAccountMeta
      else validateUniqueAccounts (insert (m_key a) seen) as)"

fun validateAccountOrder :: "nat \<Rightarrow> AccountMeta list \<Rightarrow> structure_error + unit" where
  "validateAccountOrder lastGroup [] = Inr ()"
| "validateAccountOrder lastGroup (a # as) =
     (if accountPermissionGroup a < lastGroup then Inl ErrInvalidAccountMeta
      else validateAccountOrder (accountPermissionGroup a) as)"

definition validateAccounts :: "AccountMeta list \<Rightarrow> structure_error + unit" where
  "validateAccounts as =
     (if as = [] then Inl ErrEmptyAccountKeys
      else if MaxAccountsPerTransaction < length as then Inl (SText ''account count'')
      else rbind (validateUniqueAccounts {} as) (\<lambda>_. validateAccountOrder 0 as))"

text \<open>\<open>OrdexusMessage()\<close>: the explicit message, or one built from the account metas.\<close>

definition Transaction_OrdexusMessage :: "Transaction \<Rightarrow> structure_error + OrdexusMessage" where
  "Transaction_OrdexusMessage t =
     (if \<not> Message_IsZero (t_message t) then Inr (t_message t)
      else
        rbind (validateAccounts (t_accounts t)) (\<lambda>_.
          if t_blockhash t = 0 then Inl ErrEmptyRecentBlockhash
          else
            rbind (validateCompiledInstructions (t_instructions t) (length (t_accounts t))) (\<lambda>_.
              Inr (zero_message\<lparr>msg_header := buildMessageHeader (t_accounts t),
                   msg_keys := accountPublicKeys (t_accounts t), msg_blockhash := t_blockhash t,
                   msg_instructions := t_instructions t\<rparr>))))"

definition validateSignatureCount :: "Transaction \<Rightarrow> u8 \<Rightarrow> structure_error + unit" where
  "validateSignatureCount t requiredSignatures =
     (if length (t_signatures t) \<noteq> unat requiredSignatures then Inl (SText ''signatures count'')
      else Inr ())"

definition shieldedNullifierAccountDomain :: bytes where
  "shieldedNullifierAccountDomain = ascii ''solana_golang.shielded.nullifier_account.v2''"

definition shieldedPoolAddressDomain :: bytes where
  "shieldedPoolAddressDomain = ascii ''solana_golang.shielded.pool.v2''"

definition DeriveShieldedPoolAddress :: "pubkey \<Rightarrow> pubkey" where
  "DeriveShieldedPoolAddress programID =
     get_le (sha256 (shieldedPoolAddressDomain @ key_bytes programID))"

definition DeriveShieldedNullifierAccount :: "pubkey \<Rightarrow> hash \<Rightarrow> pubkey" where
  "DeriveShieldedNullifierAccount programID nullifier =
     get_le (sha256 (shieldedNullifierAccountDomain @ key_bytes programID @ key_bytes nullifier))"

definition DefaultShieldedPoolAddress :: pubkey where
  "DefaultShieldedPoolAddress = DeriveShieldedPoolAddress DefaultShieldedProgramID"

text \<open>The loop over the spends; the result is the position after the last marker account.\<close>

fun check_markers :: "pubkey list \<Rightarrow> nat \<Rightarrow> ShieldedAction list \<Rightarrow> structure_error + nat" where
  "check_markers keys accountPosition [] = Inr accountPosition"
| "check_markers keys accountPosition (action # actions) =
     (if \<not> act_enabled_spend action then check_markers keys accountPosition actions
      else if keys ! accountPosition \<noteq>
          DeriveShieldedNullifierAccount DefaultShieldedProgramID (act_nullifier action)
        then Inl ErrInvalidInstruction
      else check_markers keys (accountPosition + 1) actions)"

definition validateTransactionAuthorizationShape ::
    "shielded_decoder \<Rightarrow> OrdexusMessage \<Rightarrow> structure_error + unit" where
  "validateTransactionAuthorizationShape decode m =
     (if 0 < h_required (msg_header m) then Inr ()
      else if msg_uses_table m \<or> msg_lookups m \<noteq> [] then Inl ErrInvalidAddressTableLookup
      else if length (msg_instructions m) \<noteq> 1 then Inl ErrMissingRequiredSignature
      else
        let i = hd (msg_instructions m) in
        if length (msg_keys m) \<le> unat (ci_program i) \<or>
           msg_keys m ! unat (ci_program i) \<noteq> DefaultShieldedProgramID
          then Inl ErrMissingRequiredSignature
        else
          rbind (decode (ci_data i)) (\<lambda>s.
            if sti_input s \<noteq> 0 then Inl ErrMissingRequiredSignature
            else
              let outputs = (if 0 < sti_output s then 1 else 0);
                  instructionAccounts = 1 + outputs + length (filter act_enabled_spend (sti_actions s))
              in
              if length (msg_keys m) \<noteq> instructionAccounts + 1 then Inl ErrInvalidInstruction
              else if hasDuplicatePublicKeys (msg_keys m) then Inl ErrInvalidInstruction
              else if msg_header m \<noteq> \<lparr>h_required = 0, h_ro_signed = 0, h_ro_unsigned = 1\<rparr>
                then Inl ErrInvalidMessageHeader
              else if length (ci_accounts i) \<noteq> instructionAccounts then Inl ErrInvalidInstruction
              else if map unat (ci_accounts i) \<noteq> [0..<length (ci_accounts i)]
                then Inl ErrInvalidInstruction
              else if msg_keys m ! 0 \<noteq> DefaultShieldedPoolAddress then Inl ErrInvalidInstruction
              else
                rbind (check_markers (msg_keys m) (1 + outputs) (sti_actions s)) (\<lambda>accountPosition.
                  if accountPosition \<noteq> instructionAccounts then Inl ErrInvalidInstruction
                  else if ci_program i \<noteq> of_nat instructionAccounts \<or>
                      msg_keys m ! instructionAccounts \<noteq> DefaultShieldedProgramID
                    then Inl ErrMissingRequiredSignature
                  else Inr ())))"

definition Transaction_Validate :: "shielded_decoder \<Rightarrow> Transaction \<Rightarrow> structure_error + unit" where
  "Transaction_Validate decode t =
     (if MaxSignaturesPerTransaction < length (t_signatures t) then Inl ErrInvalidTransactionEncoding
      else
        rbind (Transaction_OrdexusMessage t) (\<lambda>m.
        rbind (Message_Validate m) (\<lambda>_.
        rbind (validateSignatureCount t (h_required (msg_header m))) (\<lambda>_.
          validateTransactionAuthorizationShape decode m))))"

fun first_fee_payer :: "AccountMeta list \<Rightarrow> pubkey option" where
  "first_fee_payer [] = None"
| "first_fee_payer (a # as) = (if m_signer a \<and> m_writable a then Some (m_key a) else first_fee_payer as)"

definition Sender :: "Transaction \<Rightarrow> structure_error + pubkey" where
  "Sender t =
     (case first_fee_payer (t_accounts t) of
        Some k \<Rightarrow> Inr k
      | None \<Rightarrow>
          if \<not> Message_IsZero (t_message t) \<and> 0 < h_required (msg_header (t_message t)) \<and>
             msg_keys (t_message t) \<noteq> []
          then Inr (hd (msg_keys (t_message t)))
          else Inl ErrMissingWritableSigner)"

definition RequiredSignatureCount :: "Transaction \<Rightarrow> nat" where
  "RequiredSignatureCount t =
     (case Transaction_OrdexusMessage t of Inl _ \<Rightarrow> 0 | Inr m \<Rightarrow> unat (h_required (msg_header m)))"

definition IsUnsigned :: "Transaction \<Rightarrow> bool" where
  "IsUnsigned t \<longleftrightarrow>
     (case Transaction_OrdexusMessage t of Inl _ \<Rightarrow> False
      | Inr m \<Rightarrow> h_required (msg_header m) = 0 \<and> t_signatures t = [])"

definition SignerAccounts :: "Transaction \<Rightarrow> AccountMeta list" where
  "SignerAccounts t = filter m_signer (t_accounts t)"

definition IsExpiredWithTTL :: "Transaction \<Rightarrow> int \<Rightarrow> int \<Rightarrow> bool" where
  "IsExpiredWithTTL t currentTimeMillis ttlMillis \<longleftrightarrow>
     (if t_submit t \<le> 0 \<or> ttlMillis \<le> 0 then True
      else ttlMillis < int64_wrap (currentTimeMillis - t_submit t))"

definition BuildSignData :: "Transaction \<Rightarrow> structure_error + bytes" where
  "BuildSignData t = rbind (Transaction_OrdexusMessage t) Message_MarshalBinary"

definition appendSignatures :: "bytes \<Rightarrow> signature list \<Rightarrow> structure_error + bytes" where
  "appendSignatures encoded ss =
     rbind (appendShortVecLength encoded (length ss)) (\<lambda>encoded.
       Inr (foldl (\<lambda>encoded s. encoded @ put_le 64 s) encoded ss))"

definition Transaction_MarshalBinary :: "shielded_decoder \<Rightarrow> Transaction \<Rightarrow> structure_error + bytes" where
  "Transaction_MarshalBinary decode t =
     rbind (Transaction_Validate decode t) (\<lambda>_.
     rbind (appendSignatures [] (t_signatures t)) (\<lambda>encoded.
     rbind (BuildSignData t) (\<lambda>signData.
       let encoded = encoded @ signData in
       if MaxOrdexusTransactionSize < length encoded then Inl ErrTransactionTooLarge
       else Inr encoded)))"

definition read_signature :: "bytes \<Rightarrow> structure_error + signature \<times> bytes" where
  "read_signature data =
     rbind (readFixedBytes SignatureSize data) (\<lambda>(signatureBytes, data).
     rbind (NewSignature signatureBytes) (\<lambda>s. Inr (s, data)))"

definition readSignatures :: "bytes \<Rightarrow> structure_error + signature list \<times> bytes" where
  "readSignatures =
     read_counted (\<lambda>signatureCount.
       if MaxSignaturesPerTransaction < signatureCount then Inl ErrInvalidTransactionEncoding
       else Inr ()) read_signature"

definition UnmarshalTransactionBinary :: "shielded_decoder \<Rightarrow> bytes \<Rightarrow> structure_error + Transaction" where
  "UnmarshalTransactionBinary decode data =
     (if data = [] then Inl ErrInvalidTransactionEncoding
      else if MaxOrdexusTransactionSize < length data then Inl ErrTransactionTooLarge
      else
        rbind (readSignatures data) (\<lambda>(signatures, rest).
        rbind (readOrdexusMessage rest) (\<lambda>(message, rest).
          if rest \<noteq> [] then Inl ErrInvalidTransactionEncoding
          else
            let t = \<lparr>t_signatures = signatures, t_accounts = StaticAccountMetas message,
                     t_instructions = msg_instructions message, t_blockhash = msg_blockhash message,
                     t_message = message, t_fee = 0, t_size = of_nat (length data),
                     t_submit = 0, t_status = 0\<rparr>
            in rbind (Transaction_Validate decode t) (\<lambda>_. Inr t))))"

section \<open>Signatures\<close>

record SignatureVerification =
  sv_key :: pubkey
  sv_signature :: signature
  sv_valid :: bool

type_synonym ed25519_verify = "pubkey \<Rightarrow> bytes \<Rightarrow> signature \<Rightarrow> bool"
type_synonym ed25519_sign = "bytes \<Rightarrow> bytes \<Rightarrow> structure_error + bytes"

definition SignMessage :: "ed25519_sign \<Rightarrow> bytes \<Rightarrow> bytes \<Rightarrow> structure_error + signature" where
  "SignMessage sign privateKey message = rbind (sign privateKey message) NewSignature"

definition VerifyMessageSignature :: "ed25519_verify \<Rightarrow> pubkey \<Rightarrow> bytes \<Rightarrow> signature \<Rightarrow> bool" where
  "VerifyMessageSignature verify publicKey message signature \<longleftrightarrow>
     (if publicKey = 0 then False else verify publicKey message signature)"

definition VerifySignatures ::
    "ed25519_verify \<Rightarrow> Transaction \<Rightarrow> structure_error + SignatureVerification list" where
  "VerifySignatures verify t =
     rbind (Transaction_OrdexusMessage t) (\<lambda>m.
     rbind (validateSignatureCount t (h_required (msg_header m))) (\<lambda>_.
     rbind (Message_MarshalBinary m) (\<lambda>signData.
       Inr (map (\<lambda>i. \<lparr>sv_key = msg_keys m ! i, sv_signature = t_signatures t ! i,
            sv_valid = VerifyMessageSignature verify (msg_keys m ! i) signData (t_signatures t ! i)\<rparr>)
          [0..<unat (h_required (msg_header m))]))))"

definition HasValidSignatures :: "ed25519_verify \<Rightarrow> Transaction \<Rightarrow> structure_error + bool" where
  "HasValidSignatures verify t =
     rbind (VerifySignatures verify t) (\<lambda>results. Inr (list_all sv_valid results))"

definition Sign :: "ed25519_sign \<Rightarrow> (pubkey \<rightharpoonup> bytes) \<Rightarrow> Transaction \<Rightarrow> structure_error + Transaction" where
  "Sign sign privateKeys t =
     rbind (Transaction_OrdexusMessage t) (\<lambda>m.
     rbind (Message_MarshalBinary m) (\<lambda>signData.
     rbind (rmap (\<lambda>publicKey.
         case privateKeys publicKey of
           None \<Rightarrow> Inl ErrMissingRequiredSignature
         | Some privateKey \<Rightarrow> SignMessage sign privateKey signData)
         (take (unat (h_required (msg_header m))) (msg_keys m))) (\<lambda>signatures.
       Inr (t\<lparr>t_signatures := signatures\<rparr>))))"

section \<open>The wire format\<close>

interpretation w_signature: wire_format "\<lambda>s :: signature. put_le 64 s" read_signature "\<lambda>_. True"
  by unfold_locales
    (auto simp: read_signature_def SignatureSize_def readFixedBytes_def result_simps NewSignature_Inr)

lemma readSignatures_wire:
  "wire_format (wr_counted (\<lambda>s :: signature. put_le 64 s)) readSignatures
     (\<lambda>ss. length ss \<le> MaxSignaturesPerTransaction)"
  using w_signature.counted [of "\<lambda>n. if MaxSignaturesPerTransaction < n
     then Inl ErrInvalidTransactionEncoding else Inr ()"]
  by (simp add: readSignatures_def message_limits result_simps not_less)

interpretation w_signatures: wire_format "wr_counted (\<lambda>s :: signature. put_le 64 s)" readSignatures
    "\<lambda>ss. length ss \<le> MaxSignaturesPerTransaction"
  by (rule readSignatures_wire)

lemma appendSignatures_Inr:
  "appendSignatures enc ss = Inr bs \<longleftrightarrow>
     length ss \<le> 65535 \<and> bs = enc @ wr_counted (\<lambda>s. put_le 64 s) ss"
proof -
  have "foldl (\<lambda>encoded s. encoded @ put_le 64 s) e ss = e @ concat (map (\<lambda>s. put_le 64 s) ss)" for e
    by (induction ss arbitrary: e) auto
  then show ?thesis
    by (auto simp: appendSignatures_def result_simps appendShortVecLength_Inr wr_counted_def)
qed

text \<open>A transaction as it comes off the wire: every field is determined by signatures and message.\<close>

definition wire_transaction :: "signature list \<Rightarrow> OrdexusMessage \<Rightarrow> nat \<Rightarrow> Transaction" where
  "wire_transaction ss m n =
     \<lparr>t_signatures = ss, t_accounts = StaticAccountMetas m, t_instructions = msg_instructions m,
      t_blockhash = msg_blockhash m, t_message = m, t_fee = 0, t_size = of_nat n, t_submit = 0,
      t_status = 0\<rparr>"

lemma wire_message:
  "Message_Validate m = Inr () \<Longrightarrow> Transaction_OrdexusMessage (wire_transaction ss m n) = Inr m"
  using Message_Validate_facts(3) [of m]
  by (simp add: Transaction_OrdexusMessage_def wire_transaction_def Message_IsZero_def)

lemma Transaction_Validate_size:
  "Transaction_Validate decode (wire_transaction ss m n) = Transaction_Validate decode (wire_transaction ss m k)"
  by (simp add: Transaction_Validate_def Transaction_OrdexusMessage_def wire_transaction_def
      validateSignatureCount_def)

lemma UnmarshalTransaction_layout:
  fixes ss m
  defines "bs \<equiv> wr_counted (\<lambda>s. put_le 64 s) ss @ message_layout m"
  assumes "Message_Validate m = Inr ()" and "length (msg_lookups m) \<le> 65535"
    and "length ss \<le> MaxSignaturesPerTransaction"
    and "Transaction_Validate decode (wire_transaction ss m (length bs)) = Inr ()"
    and "length bs \<le> MaxOrdexusTransactionSize"
  shows "UnmarshalTransactionBinary decode bs = Inr (wire_transaction ss m (length bs))"
proof -
  have s: "readSignatures bs = Inr (ss, message_layout m)"
    unfolding bs_def using assms(4) by (rule w_signatures.rd_wr)
  have r: "readOrdexusMessage (message_layout m) = Inr (m, [])"
    using readOrdexusMessage_layout [OF assms(2,3), of "[]"] by simp
  have "bs \<noteq> []" by (simp add: bs_def message_layout_def)
  then show ?thesis
    using s r assms(5,6)
    by (simp add: UnmarshalTransactionBinary_def Let_def flip: wire_transaction_def)
qed

lemma UnmarshalTransaction_Inr:
  assumes "UnmarshalTransactionBinary decode bs = Inr t"
  obtains ss m where "t = wire_transaction ss m (length bs)" and "Message_Validate m = Inr ()"
    and "length (msg_lookups m) \<le> 65535" and "length ss \<le> MaxSignaturesPerTransaction"
    and "Transaction_Validate decode t = Inr ()" and "length bs \<le> MaxOrdexusTransactionSize"
    and "length (wr_counted (\<lambda>s. put_le 64 s) ss @ message_layout m) \<le> length bs"
proof -
  from assms obtain ss r m where s: "readSignatures bs = Inr (ss, r)"
    and m: "readOrdexusMessage r = Inr (m, [])"
    and t: "t = wire_transaction ss m (length bs)" and v: "Transaction_Validate decode t = Inr ()"
    and n: "length bs \<le> MaxOrdexusTransactionSize"
    by (auto simp: UnmarshalTransactionBinary_def result_simps Let_def simp flip: wire_transaction_def)
  show thesis
    using readOrdexusMessage_Inr [OF m] w_signatures.rd_ok [OF s] t v n by (intro that) auto
qed

lemma Transaction_MarshalBinary_wire:
  assumes "Message_Validate m = Inr ()" and "length (msg_lookups m) \<le> 65535"
    and "length ss \<le> MaxSignaturesPerTransaction"
    and "Transaction_Validate decode (wire_transaction ss m n) = Inr ()"
  shows "Transaction_MarshalBinary decode (wire_transaction ss m n) = Inr bs \<longleftrightarrow>
    bs = wr_counted (\<lambda>s. put_le 64 s) ss @ message_layout m \<and> length bs \<le> MaxOrdexusTransactionSize"
proof -
  have "t_signatures (wire_transaction ss m n) = ss" by (simp add: wire_transaction_def)
  then show ?thesis
    using assms
    by (auto simp: Transaction_MarshalBinary_def result_simps appendSignatures_Inr BuildSignData_def
        wire_message Message_MarshalBinary_Inr Let_def MaxSignaturesPerTransaction_def)
qed

lemma transaction_prefix_malleable:
  "readSignatures ([0x81, 0x00] @ put_le 64 s @ rest) = Inr ([s], rest) \<and>
   readSignatures ([0x01] @ put_le 64 s @ rest) = Inr ([s], rest)"
  by (simp add: readSignatures_def read_counted_def readShortVecLength_def DecodeShortVecLength_def
      maxShortVecValue_def message_limits w_signature.rd_wr)

section \<open>Properties\<close>

text \<open>
  C28: a transaction that \<open>UnmarshalTransactionBinary\<close> accepts, in whatever encoding it arrived, is
  one that \<open>MarshalBinary\<close> encodes; its canonical encoding is not longer than the accepted octets,
  so it stays within the size limit, and decodes to the same transaction up to the recorded size.
\<close>

theorem transaction_reencoding:
  assumes "UnmarshalTransactionBinary decode bs = Inr t"
  shows "\<exists>cs. Transaction_MarshalBinary decode t = Inr cs \<and> length cs \<le> length bs \<and>
    UnmarshalTransactionBinary decode cs = Inr (t\<lparr>t_size := of_nat (length cs)\<rparr>)"
proof -
  from assms obtain ss m where t: "t = wire_transaction ss m (length bs)"
    and m: "Message_Validate m = Inr ()" "length (msg_lookups m) \<le> 65535"
    and s: "length ss \<le> MaxSignaturesPerTransaction"
    and v: "Transaction_Validate decode t = Inr ()" and n: "length bs \<le> MaxOrdexusTransactionSize"
    and le: "length (wr_counted (\<lambda>s. put_le 64 s) ss @ message_layout m) \<le> length bs"
    by (rule UnmarshalTransaction_Inr)
  let ?cs = "wr_counted (\<lambda>s. put_le 64 s) ss @ message_layout m"
  have "Transaction_MarshalBinary decode t = Inr ?cs"
    using Transaction_MarshalBinary_wire [OF m s] v n le by (simp add: t)
  moreover have "UnmarshalTransactionBinary decode ?cs = Inr (wire_transaction ss m (length ?cs))"
    using UnmarshalTransaction_layout [OF m s, of decode] v n le
      Transaction_Validate_size [of decode ss m "length bs" "length ?cs"] by (simp add: t)
  moreover have "wire_transaction ss m (length ?cs) = t\<lparr>t_size := of_nat (length ?cs)\<rparr>"
    by (simp add: t wire_transaction_def)
  ultimately show ?thesis using le by metis
qed

definition sample_octets :: bytes where
  "sample_octets = wr_counted (\<lambda>s. put_le 64 s) [77 :: signature] @ message_layout sample_message"

definition sample_transaction :: Transaction where
  "sample_transaction = wire_transaction [77] sample_message (length sample_octets)"

definition no_shielded :: shielded_decoder where
  "no_shielded bs = Inl ErrInvalidInstruction"

lemma sample_transaction_decodes:
  "UnmarshalTransactionBinary no_shielded sample_octets = Inr sample_transaction"
proof -
  have l: "length sample_octets = 207"
    by (simp add: sample_octets_def wr_counted_def message_layout_def sample_message_def groups.simps
        wr_instruction_def wr_indexes_def)
  have "Transaction_Validate no_shielded sample_transaction = Inr ()"
    using sample_message_valid
    by (simp add: Transaction_Validate_def sample_transaction_def wire_message)
      (simp add: wire_transaction_def validateSignatureCount_def sample_message_def message_limits
        validateTransactionAuthorizationShape_def)
  then show ?thesis
    using UnmarshalTransaction_layout [OF sample_message_valid, of "[77]" no_shielded] l
    by (simp add: sample_transaction_def sample_octets_def sample_message_def message_limits)
qed

theorem transaction_reencoding_witness:
  "\<exists>cs. Transaction_MarshalBinary no_shielded sample_transaction = Inr cs \<and>
     length cs \<le> length sample_octets \<and>
     UnmarshalTransactionBinary no_shielded cs =
       Inr (sample_transaction\<lparr>t_size := of_nat (length cs)\<rparr>)"
  by (rule transaction_reencoding [OF sample_transaction_decodes])

lemma message_of_signed [simp]:
  "Transaction_OrdexusMessage (t\<lparr>t_signatures := ss\<rparr>) = Transaction_OrdexusMessage t"
  by (simp add: Transaction_OrdexusMessage_def)

text \<open>
  C29: a transaction signed by \<open>Sign\<close> carries exactly the required signatures and passes
  \<open>HasValidSignatures\<close>, when the Ed25519 primitives agree on the key pairs in use (a signature made
  with the private key of a public key verifies under it) and no pair uses the zero key.
\<close>

theorem signed_transaction_verifies:
  assumes ed25519: "\<And>pk sk msg sig. privateKeys pk = Some sk \<Longrightarrow> sign sk msg = Inr sig \<Longrightarrow>
      length sig = SignatureSize \<Longrightarrow> verify pk msg (get_le sig)"
    and nonzero: "privateKeys 0 = None"
    and signed: "Sign sign privateKeys t = Inr t'"
  shows "HasValidSignatures verify t' = Inr True \<and> length (t_signatures t') = RequiredSignatureCount t"
proof -
  from signed obtain m signData ss where m: "Transaction_OrdexusMessage t = Inr m"
    and d: "Message_MarshalBinary m = Inr signData"
    and ss: "rmap (\<lambda>k. case privateKeys k of None \<Rightarrow> Inl ErrMissingRequiredSignature
        | Some sk \<Rightarrow> SignMessage sign sk signData) (take (unat (h_required (msg_header m))) (msg_keys m)) = Inr ss"
    and t': "t' = t\<lparr>t_signatures := ss\<rparr>"
    by (auto simp: Sign_def result_simps)
  let ?n = "unat (h_required (msg_header m))"
  have le: "?n \<le> length (msg_keys m)"
    using d Message_Validate_facts(7) [of m]
    by (simp add: Message_MarshalBinary_Inr validateMessageHeader_Inr)
  with length_rmap [OF ss] have len: "length ss = ?n" by simp
  have m': "Transaction_OrdexusMessage t' = Inr m" using m by (simp add: t')
  have "VerifyMessageSignature verify (msg_keys m ! i) signData (ss ! i)" if "i < ?n" for i
  proof -
    from rmap_nth [OF ss, of i] that le
    obtain sk where sk: "privateKeys (msg_keys m ! i) = Some sk"
      and s: "SignMessage sign sk signData = Inr (ss ! i)"
      by (auto split: option.splits)
    from s obtain sig where "sign sk signData = Inr sig" "length sig = SignatureSize" "ss ! i = get_le sig"
      by (auto simp: SignMessage_def result_simps NewSignature_def)
    with ed25519 [OF sk] nonzero sk show ?thesis by (auto simp: VerifyMessageSignature_def)
  qed
  then show ?thesis
    using m m' d len
    by (simp add: HasValidSignatures_def VerifySignatures_def validateSignatureCount_def t'
        list_all_iff RequiredSignatureCount_def)
qed

text \<open>A pair of functions that agree: the only key is 5 and every signature is the number 5.\<close>

definition toy_sign :: ed25519_sign where
  "toy_sign sk msg = Inr (put_le 64 (5 :: signature))"

definition toy_verify :: ed25519_verify where
  "toy_verify pk msg s \<longleftrightarrow> pk = 5 \<and> s = 5"

lemma toy_agree:
  "[5 \<mapsto> [1]] pk = Some sk \<Longrightarrow> toy_sign sk msg = Inr sig \<Longrightarrow> length sig = SignatureSize \<Longrightarrow>
   toy_verify pk msg (get_le sig)"
  by (auto simp: toy_sign_def toy_verify_def SignatureSize_def split: if_splits)

lemma toy_sign_sample:
  "Sign toy_sign [5 \<mapsto> [1]] sample_transaction = Inr (sample_transaction\<lparr>t_signatures := [5]\<rparr>)"
proof -
  have "msg_keys sample_message = [5, 6, 0]" "h_required (msg_header sample_message) = 1"
    by (simp_all add: sample_message_def)
  then show ?thesis
    using sample_message_marshal
    by (simp add: Sign_def sample_transaction_def wire_message sample_message_valid SignMessage_def
        toy_sign_def)
qed

theorem signed_transaction_verifies_witness:
  "HasValidSignatures toy_verify (sample_transaction\<lparr>t_signatures := [5]\<rparr>) = Inr True"
  using signed_transaction_verifies [of "[5 \<mapsto> [1]]" toy_sign toy_verify sample_transaction
      "sample_transaction\<lparr>t_signatures := [5]\<rparr>"] toy_agree toy_sign_sample by simp

end
