(* ===== verification/Fees.thy ===== *)
theory Fees
  imports Transactions
begin

text \<open>
  \<open>structure/fee.go\<close>, \<open>structure/fee_budget.go\<close> and \<open>structure/monetary_policy.go\<close>: what a
  transaction costs and how the fee is split, the compute budget a transaction is charged for,
  and the inflation schedule.
\<close>

section \<open>Fees\<close>

definition LamportsPerSignature :: u64 where "LamportsPerSignature = 5000"
definition MaxComputeUnitsPerTransaction :: u64 where "MaxComputeUnitsPerTransaction = 1400000"
definition DefaultLoadedAccountsDataSize :: u64 where "DefaultLoadedAccountsDataSize = 64 * 1024 * 1024"
definition MicroLamportsPerLamport :: u64 where "MicroLamportsPerLamport = 1000000"
definition DefaultBaseFeeBurnPercent :: u8 where "DefaultBaseFeeBurnPercent = 50"
definition DefaultBuiltinInstructionCU :: u64 where "DefaultBuiltinInstructionCU = 3000"
definition DefaultTransferComputeUnits :: u64 where "DefaultTransferComputeUnits = 3000"
definition DefaultContractCallComputeUnits :: u64 where "DefaultContractCallComputeUnits = 200000"
definition DefaultContractDeployBaseCU :: u64 where "DefaultContractDeployBaseCU = 200000"
definition DefaultContractDeployByteCU :: u64 where "DefaultContractDeployByteCU = 10"
definition DefaultBaseComputeUnitPriceMicroLamports :: u64 where
  "DefaultBaseComputeUnitPriceMicroLamports = 100"
definition DefaultStorageWriteLamportsPerByte :: u64 where "DefaultStorageWriteLamportsPerByte = 10"

record ComputeBudgetLimits =
  cb_units :: u64
  cb_price :: u64
  cb_loaded :: u64
  cb_storage :: u64
  cb_heap :: u32

record FeeDetails =
  f_signatures :: u64
  f_signature_fee :: u64
  f_compute_fee :: u64
  f_storage_fee :: u64
  f_base :: u64
  f_priority :: u64
  f_total :: u64
  f_burned :: u64
  f_validator :: u64

record FeeCalculator =
  fc_per_signature :: u64
  fc_unit_price :: u64
  fc_storage_price :: u64
  fc_burn_percent :: u8

definition DefaultComputeBudgetLimits :: ComputeBudgetLimits where
  "DefaultComputeBudgetLimits =
     \<lparr>cb_units = MaxComputeUnitsPerTransaction, cb_price = 0, cb_loaded = DefaultLoadedAccountsDataSize,
      cb_storage = 0, cb_heap = 0\<rparr>"

definition DefaultFeeCalculator :: FeeCalculator where
  "DefaultFeeCalculator =
     \<lparr>fc_per_signature = LamportsPerSignature, fc_unit_price = DefaultBaseComputeUnitPriceMicroLamports,
      fc_storage_price = DefaultStorageWriteLamportsPerByte, fc_burn_percent = DefaultBaseFeeBurnPercent\<rparr>"

definition ComputeBudgetLimits_Validate :: "ComputeBudgetLimits \<Rightarrow> structure_error + unit" where
  "ComputeBudgetLimits_Validate limits =
     (if cb_units limits = 0 then Inl ErrInvalidFee
      else if MaxComputeUnitsPerTransaction < cb_units limits then Inl ErrInvalidFee
      else if cb_loaded limits = 0 then Inl ErrInvalidFee
      else Inr ())"

text \<open>\<open>PrioritizationFee.Fee\<close>: the priority fee, rounded up.\<close>

definition PrioritizationFee_Fee :: "u64 \<Rightarrow> u64 \<Rightarrow> structure_error + u64" where
  "PrioritizationFee_Fee computeUnitLimit price =
     rbind (safeMulUint64 computeUnitLimit price) (\<lambda>product.
       if product = 0 then Inr 0 else Inr ((product - 1) div MicroLamportsPerLamport + 1))"

definition FeeCalculator_Validate :: "FeeCalculator \<Rightarrow> structure_error + unit" where
  "FeeCalculator_Validate c =
     (if fc_per_signature c = 0 then Inl ErrInvalidFee
      else if fc_unit_price c = 0 then Inl ErrInvalidFee
      else if fc_storage_price c = 0 then Inl ErrInvalidFee
      else if 100 < fc_burn_percent c then Inl ErrInvalidFee
      else Inr ())"

definition unitPriceFeeFloor :: "u64 \<Rightarrow> u64 \<Rightarrow> structure_error + u64" where
  "unitPriceFeeFloor units microLamportsPerUnit =
     rbind (safeMulUint64 units microLamportsPerUnit) (\<lambda>product. Inr (product div MicroLamportsPerLamport))"

fun safeAddManyUint64 :: "u64 \<Rightarrow> u64 list \<Rightarrow> structure_error + u64" where
  "safeAddManyUint64 acc [] = Inr acc"
| "safeAddManyUint64 acc (v # vs) =
     rbind (safeAddUint64 acc v) (\<lambda>nextTotal. safeAddManyUint64 nextTotal vs)"

definition FeeCalculator_Calculate ::
    "FeeCalculator \<Rightarrow> int \<Rightarrow> ComputeBudgetLimits \<Rightarrow> structure_error + FeeDetails" where
  "FeeCalculator_Calculate c signatureCount limits =
     rbind (FeeCalculator_Validate c) (\<lambda>_.
     rbind (ComputeBudgetLimits_Validate limits) (\<lambda>_.
       if signatureCount < 0 then Inl ErrInvalidFee
       else
         rbind (safeMulUint64 (word_of_int signatureCount) (fc_per_signature c)) (\<lambda>signatureFee.
         rbind (unitPriceFeeFloor (cb_units limits) (fc_unit_price c)) (\<lambda>computeFee.
         rbind (safeMulUint64 (cb_storage limits) (fc_storage_price c)) (\<lambda>storageWriteFee.
         rbind (safeAddManyUint64 0 [signatureFee, computeFee, storageWriteFee]) (\<lambda>baseFee.
         rbind (PrioritizationFee_Fee (cb_units limits) (cb_price limits)) (\<lambda>priorityFee.
         rbind (safeAddUint64 baseFee priorityFee) (\<lambda>totalFee.
         rbind (safeMulUint64 baseFee (ucast (fc_burn_percent c))) (\<lambda>burnedFeeNumerator.
           let burnedFee = burnedFeeNumerator div 100; validatorBaseFee = baseFee - burnedFee in
           rbind (safeAddUint64 validatorBaseFee priorityFee) (\<lambda>validatorFee.
             Inr \<lparr>f_signatures = word_of_int signatureCount, f_signature_fee = signatureFee,
                  f_compute_fee = computeFee, f_storage_fee = storageWriteFee, f_base = baseFee,
                  f_priority = priorityFee, f_total = totalFee, f_burned = burnedFee,
                  f_validator = validatorFee\<rparr>))))))))))"

section \<open>The compute budget of a transaction\<close>

definition loaderInstructionHeaderBytes :: nat where "loaderInstructionHeaderBytes = 8"

definition decodeLoaderInstructionBudgetData :: "bytes \<Rightarrow> (u32 \<times> u64) option" where
  "decodeLoaderInstructionBudgetData data =
     (if length data < loaderInstructionHeaderBytes then None
      else Some (get_le (take 4 data), of_nat (length data - loaderInstructionHeaderBytes)))"

definition estimateLoaderInstructionBudget :: "CompiledInstruction \<Rightarrow> structure_error + u64 \<times> u64" where
  "estimateLoaderInstructionBudget i =
     (case decodeLoaderInstructionBudgetData (ci_data i) of
        None \<Rightarrow> Inr (DefaultContractDeployBaseCU, of_nat (length (ci_data i)))
      | Some (instructionType, dataLength) \<Rightarrow>
          if instructionType = 0 \<or> instructionType = 2 \<or> instructionType = 3 then
            rbind (safeMulUint64 dataLength DefaultContractDeployByteCU) (\<lambda>byteUnits.
            rbind (safeAddUint64 DefaultContractDeployBaseCU byteUnits) (\<lambda>units.
              Inr (units, dataLength)))
          else Inr (DefaultBuiltinInstructionCU, 0))"

definition isLikelyTransferInstruction :: "CompiledInstruction \<Rightarrow> bool" where
  "isLikelyTransferInstruction i \<longleftrightarrow> 2 \<le> length (ci_accounts i)"

text \<open>\<open>charge\<close> stands for \<open>ShieldedStorageWriteChargeBytes\<close> on the actions of the bundle.\<close>

definition estimateInstructionBudget ::
    "shielded_decoder \<Rightarrow> (ShieldedTransferInstruction \<Rightarrow> structure_error + u64) \<Rightarrow>
     pubkey \<Rightarrow> CompiledInstruction \<Rightarrow> BuiltinProgramIDs \<Rightarrow> structure_error + u64 \<times> u64" where
  "estimateInstructionBudget decode charge programID i p =
     (if programID = pid_System p \<and> isLikelyTransferInstruction i
        then Inr (DefaultTransferComputeUnits, 0)
      else if programID = pid_BPFLoader p then estimateLoaderInstructionBudget i
      else if programID = pid_Shielded p then
        rbind (decode (ci_data i)) (\<lambda>s.
        rbind (charge s) (\<lambda>storageWriteBytes. Inr (DefaultContractCallComputeUnits, storageWriteBytes)))
      else if IsBuiltinProgram p programID then Inr (DefaultBuiltinInstructionCU, 0)
      else Inr (DefaultContractCallComputeUnits, 0))"

fun sum_demand :: "(CompiledInstruction \<Rightarrow> structure_error + u64 \<times> u64) \<Rightarrow> u64 \<Rightarrow> u64 \<Rightarrow>
    CompiledInstruction list \<Rightarrow> structure_error + u64 \<times> u64" where
  "sum_demand est cu storage [] = Inr (cu, storage)"
| "sum_demand est cu storage (i # is) =
     rbind (est i) (\<lambda>(instructionUnits, instructionStorage).
     rbind (safeAddUint64 cu instructionUnits) (\<lambda>cu.
     rbind (safeAddUint64 storage instructionStorage) (\<lambda>storage.
       sum_demand est cu storage is)))"

definition zero_programs :: BuiltinProgramIDs where
  "zero_programs = \<lparr>pid_System = 0, pid_ComputeBudget = 0, pid_AddressLookupTable = 0,
     pid_NativeLoader = 0, pid_BPFLoader = 0, pid_Vote = 0, pid_Token = 0, pid_Stake = 0,
     pid_Config = 0, pid_Shielded = 0\<rparr>"

definition EstimateTransactionResourceDemand ::
    "shielded_decoder \<Rightarrow> (ShieldedTransferInstruction \<Rightarrow> structure_error + u64) \<Rightarrow>
     Transaction \<Rightarrow> BuiltinProgramIDs \<Rightarrow> structure_error + u64 \<times> u64" where
  "EstimateTransactionResourceDemand decode charge t p =
     (let p = (if p = zero_programs then DefaultBuiltinProgramIDs else p) in
      rbind (Transaction_OrdexusMessage t) (\<lambda>m.
      rbind (Message_Validate m) (\<lambda>_.
      rbind (sum_demand (\<lambda>i.
          if length (msg_keys m) \<le> unat (ci_program i) then Inl (SText ''loaded program addresses'')
          else estimateInstructionBudget decode charge (msg_keys m ! unat (ci_program i)) i p)
          0 0 (msg_instructions m)) (\<lambda>(computeUnits, storageWriteBytes).
        Inr (if computeUnits = 0 then DefaultBuiltinInstructionCU else computeUnits,
             storageWriteBytes)))))"

definition EstimateTransactionComputeBudget ::
    "shielded_decoder \<Rightarrow> (ShieldedTransferInstruction \<Rightarrow> structure_error + u64) \<Rightarrow>
     Transaction \<Rightarrow> BuiltinProgramIDs \<Rightarrow> structure_error + ComputeBudgetLimits" where
  "EstimateTransactionComputeBudget decode charge t p =
     rbind (EstimateTransactionResourceDemand decode charge t p) (\<lambda>(computeUnits, storageWriteBytes).
       if MaxComputeUnitsPerTransaction < computeUnits then Inl ErrInvalidFee
       else Inr (DefaultComputeBudgetLimits\<lparr>cb_units := computeUnits, cb_storage := storageWriteBytes\<rparr>))"

section \<open>Monetary policy\<close>

definition basisPointsDenominator :: u64 where "basisPointsDenominator = 10000"

record MonetaryPolicy =
  mp_genesis :: u64
  mp_initial :: u16
  mp_terminal :: u16
  mp_decay :: u16
  mp_year :: u64
  mp_epoch :: u64

definition DefaultMonetaryPolicy :: MonetaryPolicy where
  "DefaultMonetaryPolicy =
     \<lparr>mp_genesis = 100000000 * 1000000000, mp_initial = 500, mp_terminal = 150, mp_decay = 1500,
      mp_year = 78840000, mp_epoch = 432000\<rparr>"

definition MonetaryPolicy_Normalize :: "MonetaryPolicy \<Rightarrow> MonetaryPolicy" where
  "MonetaryPolicy_Normalize p =
     (let d = DefaultMonetaryPolicy in
      \<lparr>mp_genesis = (if mp_genesis p = 0 then mp_genesis d else mp_genesis p),
       mp_initial = (if mp_initial p = 0 then mp_initial d else mp_initial p),
       mp_terminal = (if mp_terminal p = 0 then mp_terminal d else mp_terminal p),
       mp_decay = (if mp_decay p = 0 then mp_decay d else mp_decay p),
       mp_year = (if mp_year p = 0 then mp_year d else mp_year p),
       mp_epoch = (if mp_epoch p = 0 then mp_epoch d else mp_epoch p)\<rparr>)"

definition MonetaryPolicy_Validate :: "MonetaryPolicy \<Rightarrow> structure_error + unit" where
  "MonetaryPolicy_Validate policy =
     (let p = MonetaryPolicy_Normalize policy in
      if mp_genesis p = 0 then Inl ErrInvalidFee
      else if basisPointsDenominator < ucast (mp_initial p) then Inl ErrInvalidFee
      else if mp_initial p < mp_terminal p then Inl ErrInvalidFee
      else if basisPointsDenominator < ucast (mp_decay p) then Inl ErrInvalidFee
      else if mp_year p = 0 \<or> mp_epoch p = 0 then Inl ErrInvalidFee
      else Inr ())"

text \<open>The loop over the elapsed years; it stops early once the terminal rate is reached.\<close>

fun decay_years :: "u64 \<Rightarrow> u64 \<Rightarrow> nat \<Rightarrow> u64 \<Rightarrow> u64" where
  "decay_years terminal decay 0 inflation = inflation"
| "decay_years terminal decay (Suc years) inflation =
     (if inflation \<le> terminal then inflation
      else
        let inflation = inflation * (basisPointsDenominator - decay) div basisPointsDenominator
        in decay_years terminal decay years (if inflation < terminal then terminal else inflation))"

definition InflationBpsForEpoch :: "MonetaryPolicy \<Rightarrow> u64 \<Rightarrow> structure_error + u16" where
  "InflationBpsForEpoch policy epochID =
     (let p = MonetaryPolicy_Normalize policy in
      rbind (MonetaryPolicy_Validate p) (\<lambda>_.
      rbind (safeMulUint64 epochID (mp_epoch p)) (\<lambda>elapsedSlots.
        let yearIndex = elapsedSlots div mp_year p
        in Inr (ucast (decay_years (ucast (mp_terminal p)) (ucast (mp_decay p)) (unat yearIndex)
             (ucast (mp_initial p)))))))"

definition InflationLamportsForEpoch :: "MonetaryPolicy \<Rightarrow> u64 \<Rightarrow> u64 \<Rightarrow> u64 \<Rightarrow> structure_error + u64" where
  "InflationLamportsForEpoch policy currentSupply epochID epochSlots =
     (let p = MonetaryPolicy_Normalize policy in
      rbind (MonetaryPolicy_Validate p) (\<lambda>_.
        if currentSupply = 0 \<or> epochSlots = 0 then Inr 0
        else
          rbind (InflationBpsForEpoch p epochID) (\<lambda>inflationBps.
            let reward = unat currentSupply * unat inflationBps * unat epochSlots
                  div (unat basisPointsDenominator * unat (mp_year p))
            in if 2 ^ 64 \<le> reward then Inl ErrInvalidFee else Inr (of_nat reward))))"

section \<open>Fee facts\<close>

lemma safeAddManyUint64_unat:
  "safeAddManyUint64 acc vs = Inr c \<Longrightarrow> unat c = unat acc + sum_list (map unat vs)"
  by (induction vs arbitrary: acc) (auto simp: result_simps dest!: safeAddUint64_unat)

lemma unat_100 [simp]: "unat (100 :: u64) = 100" "unat MicroLamportsPerLamport = 1000000"
  by (simp_all add: MicroLamportsPerLamport_def)

lemma PrioritizationFee_Fee_Inr:
  assumes "PrioritizationFee_Fee limit price = Inr f"
  shows "unat f = (unat limit * unat price + 999999) div 1000000"
proof -
  from assms obtain p where p: "safeMulUint64 limit price = Inr p"
    and f: "f = (if p = 0 then 0 else (p - 1) div MicroLamportsPerLamport + 1)"
    by (auto simp: PrioritizationFee_Fee_def result_simps split: if_splits)
  have u: "unat p = unat limit * unat price" by (rule safeMulUint64_unat [OF p])
  show ?thesis
  proof (cases "p = 0")
    case True
    with u f show ?thesis by auto
  next
    case False
    then have pos: "0 < unat p" by (simp add: unat_gt_0)
    have m: "unat (p - 1) = unat p - 1"
      using pos by (subst unat_sub) (simp_all add: word_le_nat_alt Suc_le_eq)
    have "(unat p - 1) div 1000000 \<le> unat p - 1" by (rule div_le_dividend)
    moreover have "unat p < 2 ^ 64" using unsigned_less [of p] by simp
    ultimately have "(unat p - 1) div 1000000 + 1 < 2 ^ 64" using pos by linarith
    then have "unat f = (unat p - 1) div 1000000 + 1"
      using False by (simp add: f unat_word_ariths unat_div m)
    also have "\<dots> = (unat p - 1 + 1000000) div 1000000" by simp
    also have "unat p - 1 + 1000000 = unat p + 999999" using pos by simp
    finally show ?thesis by (simp add: u)
  qed
qed

lemma FeeCalculator_Calculate_Inr:
  assumes "FeeCalculator_Calculate c (int n) limits = Inr d" and "n < 2 ^ 64"
  shows "unat (f_signature_fee d) = n * unat (fc_per_signature c)"
    and "unat (f_compute_fee d) = unat (cb_units limits) * unat (fc_unit_price c) div 1000000"
    and "unat (f_storage_fee d) = unat (cb_storage limits) * unat (fc_storage_price c)"
    and "unat (f_base d) = unat (f_signature_fee d) + unat (f_compute_fee d) + unat (f_storage_fee d)"
    and "unat (f_priority d) = (unat (cb_units limits) * unat (cb_price limits) + 999999) div 1000000"
    and "unat (f_total d) = unat (f_base d) + unat (f_priority d)"
    and "unat (f_burned d) = unat (f_base d) * unat (fc_burn_percent c) div 100"
    and "unat (f_burned d) \<le> unat (f_base d)"
    and "unat (f_validator d) = unat (f_base d) - unat (f_burned d) + unat (f_priority d)"
proof -
  from assms(1) obtain bn where
    v: "FeeCalculator_Validate c = Inr ()"
    and sf: "safeMulUint64 (word_of_int (int n)) (fc_per_signature c) = Inr (f_signature_fee d)"
    and cf: "unitPriceFeeFloor (cb_units limits) (fc_unit_price c) = Inr (f_compute_fee d)"
    and st: "safeMulUint64 (cb_storage limits) (fc_storage_price c) = Inr (f_storage_fee d)"
    and bf: "safeAddManyUint64 0 [f_signature_fee d, f_compute_fee d, f_storage_fee d] = Inr (f_base d)"
    and pf: "PrioritizationFee_Fee (cb_units limits) (cb_price limits) = Inr (f_priority d)"
    and tf: "safeAddUint64 (f_base d) (f_priority d) = Inr (f_total d)"
    and bn: "safeMulUint64 (f_base d) (ucast (fc_burn_percent c)) = Inr bn"
    and bd: "f_burned d = bn div 100"
    and vf: "safeAddUint64 (f_base d - f_burned d) (f_priority d) = Inr (f_validator d)"
    unfolding FeeCalculator_Calculate_def Let_def result_simps by (auto simp: result_simps)
  show "unat (f_signature_fee d) = n * unat (fc_per_signature c)"
    using safeMulUint64_unat [OF sf] assms(2) by (simp add: unat_of_nat)
  show "unat (f_compute_fee d) = unat (cb_units limits) * unat (fc_unit_price c) div 1000000"
  proof -
    from cf obtain x where x: "safeMulUint64 (cb_units limits) (fc_unit_price c) = Inr x"
      and f: "f_compute_fee d = x div MicroLamportsPerLamport"
      by (auto simp: unitPriceFeeFloor_def result_simps)
    show ?thesis using safeMulUint64_unat [OF x] by (simp add: f unat_div)
  qed
  show "unat (f_storage_fee d) = unat (cb_storage limits) * unat (fc_storage_price c)"
    by (rule safeMulUint64_unat [OF st])
  show "unat (f_base d) = unat (f_signature_fee d) + unat (f_compute_fee d) + unat (f_storage_fee d)"
    using safeAddManyUint64_unat [OF bf] by simp
  show "unat (f_priority d) = (unat (cb_units limits) * unat (cb_price limits) + 999999) div 1000000"
    by (rule PrioritizationFee_Fee_Inr [OF pf])
  show "unat (f_total d) = unat (f_base d) + unat (f_priority d)"
    by (rule safeAddUint64_unat [OF tf])
  show b: "unat (f_burned d) = unat (f_base d) * unat (fc_burn_percent c) div 100"
    using safeMulUint64_unat [OF bn] by (simp add: bd unat_div unat_ucast_up)
  have "unat (fc_burn_percent c) \<le> 100"
    using v by (auto simp: FeeCalculator_Validate_def word_less_nat_alt split: if_splits)
  then have "unat (f_base d) * unat (fc_burn_percent c) \<le> unat (f_base d) * 100" by simp
  then have "unat (f_base d) * unat (fc_burn_percent c) div 100 \<le> unat (f_base d) * 100 div 100"
    by (rule div_le_mono)
  then show le: "unat (f_burned d) \<le> unat (f_base d)" by (simp add: b)
  show "unat (f_validator d) = unat (f_base d) - unat (f_burned d) + unat (f_priority d)"
    using safeAddUint64_unat [OF vf] le by (simp add: unat_sub word_le_nat_alt)
qed

section \<open>Properties\<close>

text \<open>
  C34: the fee of a transaction is fully accounted for, with no lamport lost to rounding or
  overflow: the total is the base fee plus the priority fee, the base fee is the sum of its three
  parts, and what is burned plus what the validator receives is the total.
\<close>

theorem fee_fully_split:
  assumes "FeeCalculator_Calculate c (int n) limits = Inr d" and "n < 2 ^ 64"
  shows "unat (f_burned d) + unat (f_validator d) = unat (f_total d) \<and>
    unat (f_total d) = n * unat (fc_per_signature c)
      + unat (cb_units limits) * unat (fc_unit_price c) div 1000000
      + unat (cb_storage limits) * unat (fc_storage_price c)
      + (unat (cb_units limits) * unat (cb_price limits) + 999999) div 1000000 \<and>
    unat (f_burned d) = unat (f_base d) * unat (fc_burn_percent c) div 100"
  using FeeCalculator_Calculate_Inr [OF assms] by linarith

definition sample_details :: FeeDetails where
  "sample_details =
     \<lparr>f_signatures = 2, f_signature_fee = 10000, f_compute_fee = 0, f_storage_fee = 0,
      f_base = 10000, f_priority = 1, f_total = 10001, f_burned = 5000, f_validator = 5001\<rparr>"

lemma sample_fee:
  "FeeCalculator_Calculate DefaultFeeCalculator (int 2)
     (DefaultComputeBudgetLimits\<lparr>cb_units := 3000, cb_price := 1\<rparr>) = Inr sample_details"
  by (simp add: FeeCalculator_Calculate_def DefaultFeeCalculator_def DefaultComputeBudgetLimits_def
      FeeCalculator_Validate_def ComputeBudgetLimits_Validate_def LamportsPerSignature_def
      DefaultBaseComputeUnitPriceMicroLamports_def DefaultStorageWriteLamportsPerByte_def
      DefaultBaseFeeBurnPercent_def MaxComputeUnitsPerTransaction_def DefaultLoadedAccountsDataSize_def
      unitPriceFeeFloor_def PrioritizationFee_Fee_def MicroLamportsPerLamport_def
      safeMulUint64_def safeAddUint64_def sample_details_def)

theorem fee_fully_split_witness:
  "FeeCalculator_Calculate DefaultFeeCalculator (int 2)
     (DefaultComputeBudgetLimits\<lparr>cb_units := 3000, cb_price := 1\<rparr>) = Inr sample_details \<and>
   unat (f_burned sample_details) + unat (f_validator sample_details) = unat (f_total sample_details)"
  using fee_fully_split [OF sample_fee] sample_fee by simp

section \<open>Inflation\<close>

lemma unat_bps [simp]: "unat basisPointsDenominator = 10000"
  by (simp add: basisPointsDenominator_def)

lemma decay_step_unat:
  assumes "unat i \<le> 10000" and "unat d \<le> 10000"
  shows "unat (i * (basisPointsDenominator - d) div basisPointsDenominator) =
    unat i * (10000 - unat d) div 10000"
proof -
  have "unat (basisPointsDenominator - d) = 10000 - unat d"
    using assms(2) by (subst unat_sub) (simp_all add: word_le_nat_alt)
  moreover have "unat i * (10000 - unat d) \<le> 10000 * 10000"
    using assms by (intro mult_le_mono) simp_all
  ultimately show ?thesis by (simp add: unat_div unat_word_ariths)
qed

text \<open>One year: the rate does not rise and stays above the terminal rate.\<close>

definition decay_year :: "u64 \<Rightarrow> u64 \<Rightarrow> u64 \<Rightarrow> u64" where
  "decay_year terminal decay inflation =
     (let next = inflation * (basisPointsDenominator - decay) div basisPointsDenominator
      in if next < terminal then terminal else next)"

lemma decay_years_Suc:
  "decay_years t d (Suc n) i = (if i \<le> t then i else decay_years t d n (decay_year t d i))"
  by (simp add: decay_year_def Let_def)

lemma decay_year_bounds:
  assumes "unat i \<le> 10000" and "unat d \<le> 10000" and "t \<le> i"
  shows "t \<le> decay_year t d i \<and> decay_year t d i \<le> i"
proof -
  have "unat i * (10000 - unat d) div 10000 \<le> unat i * 10000 div 10000"
    by (intro div_le_mono mult_le_mono2) simp
  then have "i * (basisPointsDenominator - d) div basisPointsDenominator \<le> i"
    by (simp add: word_le_nat_alt decay_step_unat assms)
  with assms(3) show ?thesis by (simp add: decay_year_def Let_def not_less)
qed

lemma decay_years_bounds:
  assumes "unat i \<le> 10000" and "unat d \<le> 10000" and "t \<le> i"
  shows "t \<le> decay_years t d n i \<and> decay_years t d n i \<le> i"
  using assms
proof (induction n arbitrary: i)
  case (Suc n)
  note b = decay_year_bounds [OF Suc.prems]
  then have "unat (decay_year t d i) \<le> 10000" using Suc.prems(1) by (auto simp: word_le_nat_alt)
  with Suc.IH [OF this Suc.prems(2)] b Suc.prems(3) show ?case
    by (auto simp: decay_years_Suc simp del: decay_years.simps(2))
qed simp

lemma decay_years_antitone:
  assumes "unat i \<le> 10000" and "unat d \<le> 10000" and "t \<le> i" and "n \<le> m"
  shows "decay_years t d m i \<le> decay_years t d n i"
  using assms
proof (induction n arbitrary: i m)
  case 0
  then show ?case using decay_years_bounds by simp
next
  case (Suc n)
  then obtain k where m: "m = Suc k" "n \<le> k" by (cases m) auto
  note b = decay_year_bounds [OF Suc.prems(1-3)]
  then have "unat (decay_year t d i) \<le> 10000" using Suc.prems(1) by (auto simp: word_le_nat_alt)
  from Suc.IH [OF this Suc.prems(2) _ m(2)] b show ?case
    by (auto simp: m(1) decay_years_Suc simp del: decay_years.simps(2))
qed

lemma Normalize_idem [simp]:
  "MonetaryPolicy_Normalize (MonetaryPolicy_Normalize p) = MonetaryPolicy_Normalize p"
  by (simp add: MonetaryPolicy_Normalize_def DefaultMonetaryPolicy_def Let_def)

lemma MonetaryPolicy_Validate_facts:
  assumes "MonetaryPolicy_Validate (MonetaryPolicy_Normalize policy) = Inr ()"
  defines "p \<equiv> MonetaryPolicy_Normalize policy"
  shows "unat (mp_initial p) \<le> 10000 \<and> mp_terminal p \<le> mp_initial p \<and> unat (mp_decay p) \<le> 10000 \<and>
    mp_year p \<noteq> 0"
  using assms
  by (auto simp: MonetaryPolicy_Validate_def Let_def word_less_nat_alt word_le_nat_alt unat_ucast_up
      split: if_splits)

lemma ucast_ucast_16:
  assumes "unat (x :: u64) < 2 ^ 16"
  shows "ucast (ucast x :: u16) = x"
proof -
  have "unat (ucast (ucast x :: u16) :: u64) = unat (ucast x :: u16)" by (rule unat_ucast_up) simp
  also have "\<dots> = unat x"
    using assms by (subst unsigned_ucast_eq) (simp add: unsigned_take_bit_eq take_bit_nat_eq_self)
  finally show ?thesis by (simp add: word_unat_eq_iff)
qed

lemma InflationBpsForEpoch_Inr:
  assumes "InflationBpsForEpoch policy e = Inr b"
  defines "p \<equiv> MonetaryPolicy_Normalize policy"
  shows "ucast b = decay_years (ucast (mp_terminal p)) (ucast (mp_decay p))
      (unat e * unat (mp_epoch p) div unat (mp_year p)) (ucast (mp_initial p))"
    and "MonetaryPolicy_Validate p = Inr ()"
proof -
  from assms obtain s where v: "MonetaryPolicy_Validate p = Inr ()"
    and s: "safeMulUint64 e (mp_epoch p) = Inr s"
    and b: "b = ucast (decay_years (ucast (mp_terminal p)) (ucast (mp_decay p)) (unat (s div mp_year p))
      (ucast (mp_initial p)))"
    by (auto simp: InflationBpsForEpoch_def Let_def result_simps)
  show "MonetaryPolicy_Validate p = Inr ()" by (rule v)
  let ?x = "decay_years (ucast (mp_terminal p)) (ucast (mp_decay p)) (unat (s div mp_year p))
      (ucast (mp_initial p)) :: u64"
  have f: "unat (mp_initial p) \<le> 10000 \<and> mp_terminal p \<le> mp_initial p \<and> unat (mp_decay p) \<le> 10000"
    using MonetaryPolicy_Validate_facts [of policy] v by (simp add: p_def)
  have "?x \<le> ucast (mp_initial p)"
    using decay_years_bounds [of "ucast (mp_initial p)" "ucast (mp_decay p)" "ucast (mp_terminal p)"] f
    by (simp add: unat_ucast_up word_le_nat_alt)
  then have "unat ?x < 2 ^ 16" using f by (simp add: word_le_nat_alt unat_ucast_up)
  then have "ucast (ucast ?x :: u16) = ?x"
    by (rule ucast_ucast_16)
  then show "ucast b = decay_years (ucast (mp_terminal p)) (ucast (mp_decay p))
      (unat e * unat (mp_epoch p) div unat (mp_year p)) (ucast (mp_initial p))"
    using safeMulUint64_unat [OF s] by (simp add: b unat_div)
qed

lemma InflationBpsForEpoch_band:
  assumes "InflationBpsForEpoch policy e = Inr b"
  shows "mp_terminal (MonetaryPolicy_Normalize policy) \<le> b \<and> b \<le> mp_initial (MonetaryPolicy_Normalize policy)"
proof -
  let ?p = "MonetaryPolicy_Normalize policy"
  let ?i = "ucast (mp_initial ?p) :: u64" and ?d = "ucast (mp_decay ?p) :: u64"
    and ?t = "ucast (mp_terminal ?p) :: u64"
  note b = InflationBpsForEpoch_Inr [OF assms]
  have f: "unat ?i \<le> 10000" "unat ?d \<le> 10000" "?t \<le> ?i"
    using MonetaryPolicy_Validate_facts [OF b(2)] by (simp_all add: unat_ucast_up word_le_nat_alt)
  have "?t \<le> ucast b \<and> ucast b \<le> ?i"
    using decay_years_bounds [OF f] by (simp only: b(1))
  then show ?thesis by (simp add: word_le_nat_alt unat_ucast_up)
qed

text \<open>
  the yearly inflation rate never leaves the band between the terminal and the initial rate
  of the policy, and never rises from an epoch to a later one.
\<close>

theorem inflation_falls_to_terminal:
  assumes "InflationBpsForEpoch policy e = Inr b" and "InflationBpsForEpoch policy e' = Inr b'"
    and "e \<le> e'"
  shows "mp_terminal (MonetaryPolicy_Normalize policy) \<le> b' \<and> b' \<le> b \<and>
    b \<le> mp_initial (MonetaryPolicy_Normalize policy)"
proof -
  let ?p = "MonetaryPolicy_Normalize policy"
  let ?i = "ucast (mp_initial ?p) :: u64" and ?d = "ucast (mp_decay ?p) :: u64"
    and ?t = "ucast (mp_terminal ?p) :: u64"
  let ?y = "\<lambda>e. unat e * unat (mp_epoch ?p) div unat (mp_year ?p)"
  note b = InflationBpsForEpoch_Inr [OF assms(1)] and b' = InflationBpsForEpoch_Inr [OF assms(2)]
  have f: "unat ?i \<le> 10000" "unat ?d \<le> 10000" "?t \<le> ?i"
    using MonetaryPolicy_Validate_facts [OF b(2)] by (simp_all add: unat_ucast_up word_le_nat_alt)
  have "?y e \<le> ?y e'" using assms(3) by (intro div_le_mono mult_le_mono1) (simp add: word_le_nat_alt)
  then have "(ucast b' :: u64) \<le> ucast b" by (simp only: b(1) b'(1) decay_years_antitone [OF f])
  then show ?thesis
    using InflationBpsForEpoch_band [OF assms(1)] InflationBpsForEpoch_band [OF assms(2)]
    by (simp add: word_le_nat_alt unat_ucast_up)
qed

lemma sample_inflation:
  "InflationBpsForEpoch DefaultMonetaryPolicy 0 = Inr 500"
  "InflationBpsForEpoch DefaultMonetaryPolicy 200 = Inr 425"
  by (simp_all add: InflationBpsForEpoch_def DefaultMonetaryPolicy_def MonetaryPolicy_Normalize_def
      MonetaryPolicy_Validate_def Let_def basisPointsDenominator_def safeMulUint64_def)

theorem inflation_falls_to_terminal_witness:
  "InflationBpsForEpoch DefaultMonetaryPolicy 200 = Inr 425 \<and>
   mp_terminal (MonetaryPolicy_Normalize DefaultMonetaryPolicy) \<le> 425 \<and> (425 :: u16) \<le> 500"
  using inflation_falls_to_terminal [OF sample_inflation] sample_inflation(2) by simp

text \<open>
  for an epoch of at most a year the inflation pool is always computed (it never exceeds a
  \<open>uint64\<close>), it is the exact quotient rounded down, and it never exceeds the supply it is based on.
\<close>

theorem inflation_pool_bounded:
  assumes "InflationBpsForEpoch policy e = Inr b"
    and "epochSlots \<le> mp_year (MonetaryPolicy_Normalize policy)"
  shows "\<exists>r. InflationLamportsForEpoch policy currentSupply e epochSlots = Inr r \<and> r \<le> currentSupply \<and>
    unat r = unat currentSupply * unat b * unat epochSlots div
      (10000 * unat (mp_year (MonetaryPolicy_Normalize policy)))"
proof -
  let ?p = "MonetaryPolicy_Normalize policy"
  let ?r = "unat currentSupply * unat b * unat epochSlots div (10000 * unat (mp_year ?p))"
  have v: "MonetaryPolicy_Validate ?p = Inr ()" by (rule InflationBpsForEpoch_Inr(2) [OF assms(1)])
  have "InflationBpsForEpoch ?p e = InflationBpsForEpoch policy e" by (simp add: InflationBpsForEpoch_def)
  with assms(1) have i: "InflationBpsForEpoch ?p e = Inr b" by simp
  have "unat b \<le> unat (mp_initial ?p)"
    using InflationBpsForEpoch_band [OF assms(1)] by (simp add: word_le_nat_alt)
  with MonetaryPolicy_Validate_facts [OF v] have "unat b \<le> 10000" and y: "mp_year ?p \<noteq> 0" by auto
  then have "unat b * unat epochSlots \<le> 10000 * unat (mp_year ?p)"
    using assms(2) by (intro mult_le_mono) (simp_all add: word_le_nat_alt)
  then have "unat currentSupply * unat b * unat epochSlots \<le> unat currentSupply * (10000 * unat (mp_year ?p))"
    by (simp add: mult.assoc)
  then have "?r \<le> unat currentSupply * (10000 * unat (mp_year ?p)) div (10000 * unat (mp_year ?p))"
    by (rule div_le_mono)
  also have "\<dots> = unat currentSupply" using y by (simp add: unat_eq_zero)
  finally have le: "?r \<le> unat currentSupply" .
  moreover have "unat currentSupply < 2 ^ 64" using unsigned_less [of currentSupply] by simp
  ultimately have lt: "?r < 2 ^ 64" by (rule le_less_trans)
  show ?thesis
  proof (cases "currentSupply = 0 \<or> epochSlots = 0")
    case True
    then show ?thesis using v by (auto simp: InflationLamportsForEpoch_def)
  next
    case False
    then have "InflationLamportsForEpoch policy currentSupply e epochSlots = Inr (of_nat ?r)"
      using v i lt by (simp add: InflationLamportsForEpoch_def Let_def)
    moreover have u: "unat (of_nat ?r :: u64) = ?r" using lt by (simp add: unat_of_nat)
    ultimately show ?thesis using le by (intro exI [of _ "of_nat ?r"]) (simp only: word_le_nat_alt u)
  qed
qed

theorem inflation_pool_bounded_witness:
  "\<exists>r. InflationLamportsForEpoch DefaultMonetaryPolicy 1000000000 200 432000 = Inr r \<and> r \<le> 1000000000 \<and>
     unat r = unat (1000000000 :: u64) * unat (425 :: u16) * unat (432000 :: u64) div
       (10000 * unat (mp_year (MonetaryPolicy_Normalize DefaultMonetaryPolicy)))"
  by (rule inflation_pool_bounded [OF sample_inflation(2)])
    (simp add: MonetaryPolicy_Normalize_def DefaultMonetaryPolicy_def Let_def)

lemma sum_demand_Inr:
  "sum_demand est cu st is = Inr (cu', st') \<Longrightarrow>
   \<exists>ds. rmap est is = Inr ds \<and> unat cu' = unat cu + sum_list (map (\<lambda>d. unat (fst d)) ds) \<and>
     unat st' = unat st + sum_list (map (\<lambda>d. unat (snd d)) ds)"
proof (induction "is" arbitrary: cu st)
  case Nil
  then show ?case by simp
next
  case (Cons i "is")
  then obtain a b c1 s1 where e: "est i = Inr (a, b)" and c: "safeAddUint64 cu a = Inr c1"
    and s: "safeAddUint64 st b = Inr s1" and r: "sum_demand est c1 s1 is = Inr (cu', st')"
    by (auto simp: result_simps)
  from Cons.IH [OF r] obtain ds where "rmap est is = Inr ds"
    "unat cu' = unat c1 + sum_list (map (\<lambda>d. unat (fst d)) ds)"
    "unat st' = unat s1 + sum_list (map (\<lambda>d. unat (snd d)) ds)" by blast
  with e safeAddUint64_unat [OF c] safeAddUint64_unat [OF s] show ?case
    by (intro exI [of _ "(a, b) # ds"]) simp
qed

lemma default_budget_valid:
  "units \<noteq> 0 \<Longrightarrow> units \<le> MaxComputeUnitsPerTransaction \<Longrightarrow>
   ComputeBudgetLimits_Validate (DefaultComputeBudgetLimits\<lparr>cb_units := units, cb_storage := st\<rparr>) = Inr ()"
  by (simp add: ComputeBudgetLimits_Validate_def DefaultComputeBudgetLimits_def
      DefaultLoadedAccountsDataSize_def)

definition instruction_demand ::
    "shielded_decoder \<Rightarrow> (ShieldedTransferInstruction \<Rightarrow> structure_error + u64) \<Rightarrow> OrdexusMessage \<Rightarrow>
     BuiltinProgramIDs \<Rightarrow> CompiledInstruction \<Rightarrow> structure_error + u64 \<times> u64" where
  "instruction_demand decode charge m p i =
     (if length (msg_keys m) \<le> unat (ci_program i) then Inl (SText ''loaded program addresses'')
      else estimateInstructionBudget decode charge (msg_keys m ! unat (ci_program i)) i p)"

text \<open>
  C35: the budget estimated for a transaction is always a valid compute budget, and unless nothing
  is asked for it is exactly the sum of what its instructions ask for, compute units and storage
  alike, computed without overflow.
\<close>

theorem estimated_budget_sums_demand:
  assumes "EstimateTransactionComputeBudget decode charge t p = Inr limits" and "p \<noteq> zero_programs"
  shows "ComputeBudgetLimits_Validate limits = Inr () \<and>
    (\<exists>m ds. Transaction_OrdexusMessage t = Inr m \<and>
       rmap (instruction_demand decode charge m p) (msg_instructions m) = Inr ds \<and>
       unat (cb_units limits) = (if sum_list (map (\<lambda>d. unat (fst d)) ds) = 0 then 3000
         else sum_list (map (\<lambda>d. unat (fst d)) ds)) \<and>
       unat (cb_storage limits) = sum_list (map (\<lambda>d. unat (snd d)) ds))"
proof -
  from assms obtain cu st where d: "EstimateTransactionResourceDemand decode charge t p = Inr (cu, st)"
    and le: "cu \<le> MaxComputeUnitsPerTransaction"
    and l: "limits = DefaultComputeBudgetLimits\<lparr>cb_units := cu, cb_storage := st\<rparr>"
    by (auto simp: EstimateTransactionComputeBudget_def result_simps not_less)
  from d assms(2) obtain m c where m: "Transaction_OrdexusMessage t = Inr m"
    and s: "sum_demand (instruction_demand decode charge m p) 0 0 (msg_instructions m) = Inr (c, st)"
    and cu: "cu = (if c = 0 then DefaultBuiltinInstructionCU else c)"
    by (auto simp: EstimateTransactionResourceDemand_def instruction_demand_def [abs_def] Let_def result_simps)
  from sum_demand_Inr [OF s] obtain ds where
    ds: "rmap (instruction_demand decode charge m p) (msg_instructions m) = Inr ds"
      "unat c = sum_list (map (\<lambda>d. unat (fst d)) ds)" "unat st = sum_list (map (\<lambda>d. unat (snd d)) ds)" by auto
  have "cu \<noteq> 0" using cu by (simp add: DefaultBuiltinInstructionCU_def)
  then have "ComputeBudgetLimits_Validate limits = Inr ()" unfolding l using le by (rule default_budget_valid)
  moreover have "unat cu = (if sum_list (map (\<lambda>d. unat (fst d)) ds) = 0 then 3000 else sum_list (map (\<lambda>d. unat (fst d)) ds))"
    using cu ds(2) by (auto simp: DefaultBuiltinInstructionCU_def unat_eq_zero simp flip: unat_eq_zero)
  ultimately show ?thesis using m ds by (auto simp: l)
qed

definition no_charge :: "ShieldedTransferInstruction \<Rightarrow> structure_error + u64" where
  "no_charge s = Inr 0"

definition sample_programs :: BuiltinProgramIDs where
  "sample_programs = \<lparr>pid_System = 0, pid_ComputeBudget = 101, pid_AddressLookupTable = 102,
     pid_NativeLoader = 103, pid_BPFLoader = 104, pid_Vote = 105, pid_Token = 106, pid_Stake = 107,
     pid_Config = 108, pid_Shielded = 109\<rparr>"

lemma sample_budget:
  "EstimateTransactionComputeBudget no_shielded no_charge sample_transaction sample_programs =
   Inr (DefaultComputeBudgetLimits\<lparr>cb_units := 3000, cb_storage := 0\<rparr>)"
  using sample_message_valid
  by (simp add: EstimateTransactionComputeBudget_def EstimateTransactionResourceDemand_def
      sample_transaction_def wire_message)
    (simp add: sample_message_def sample_programs_def zero_programs_def estimateInstructionBudget_def
      isLikelyTransferInstruction_def DefaultTransferComputeUnits_def safeAddUint64_def
      MaxComputeUnitsPerTransaction_def)

theorem estimated_budget_sums_demand_witness:
  "ComputeBudgetLimits_Validate (DefaultComputeBudgetLimits\<lparr>cb_units := 3000, cb_storage := 0\<rparr>) = Inr ()"
  using estimated_budget_sums_demand [OF sample_budget]
  by (simp add: sample_programs_def zero_programs_def)

end
