(* ===== verification/Resolved_Messages.thy ===== *)
theory Resolved_Messages
  imports Fees
begin

text \<open>
  \<open>structure/loaded_transaction.go\<close>: the message as the runtime executes it, with the addresses
  loaded from tables appended to the static keys, and the transaction with its loaded accounts.
\<close>

section \<open>Model\<close>

definition FeePaymentSourceTransparentAccount :: u8 where "FeePaymentSourceTransparentAccount = 1"
definition FeePaymentSourceShieldedPool :: u8 where "FeePaymentSourceShieldedPool = 2"

record AddressedAccount =
  aa_address :: pubkey
  aa_account :: account

record LoadedAccount =
  ld_address :: pubkey
  ld_account :: account
  ld_signer :: bool
  ld_writable :: bool
  ld_program :: bool

record LoadedTransaction =
  lt_transaction :: Transaction
  lt_message :: ResolvedMessage
  lt_accounts :: "LoadedAccount list"
  lt_fee_payer :: pubkey
  lt_fee_source :: u8
  lt_fee_details :: FeeDetails

definition AddressedAccount_Validate :: "AddressedAccount \<Rightarrow> structure_error + unit" where
  "AddressedAccount_Validate a = Account_Validate (aa_account a)"

definition LoadedAccount_Validate :: "LoadedAccount \<Rightarrow> structure_error + unit" where
  "LoadedAccount_Validate a = Account_Validate (ld_account a)"

definition LoadedAddresses_Validate :: "LoadedAddresses \<Rightarrow> structure_error + unit" where
  "LoadedAddresses_Validate la =
     (if MaxAccountsPerTransaction < length (la_writable la) + length (la_readonly la)
        then Inl ErrInvalidLoadedTransaction
      else if hasDuplicatePublicKeys (la_writable la @ la_readonly la)
        then Inl ErrInvalidLoadedTransaction
      else Inr ())"

definition ResolvedMessage_Validate :: "ResolvedMessage \<Rightarrow> structure_error + unit" where
  "ResolvedMessage_Validate m =
     (if rm_static_keys m = [] then Inl ErrEmptyAccountKeys
      else if rm_keys m = [] then Inl ErrEmptyAccountKeys
      else if MaxAccountsPerTransaction < length (rm_keys m) then Inl ErrInvalidLoadedTransaction
      else if hasDuplicatePublicKeys (rm_keys m) then Inl ErrInvalidLoadedTransaction
      else if rm_blockhash m = 0 then Inl ErrEmptyRecentBlockhash
      else
        rbind (validateMessageHeader (rm_header m) (length (rm_static_keys m))) (\<lambda>_.
        rbind (validateCompiledInstructions (rm_instructions m) (length (rm_keys m))) (\<lambda>_.
          LoadedAddresses_Validate (rm_loaded m))))"

definition NewResolvedMessage ::
    "OrdexusMessage \<Rightarrow> LoadedAddresses \<Rightarrow> structure_error + ResolvedMessage" where
  "NewResolvedMessage m la =
     rbind (Message_Validate m) (\<lambda>_.
     rbind (LoadedAddresses_Validate la) (\<lambda>_.
       if \<not> msg_uses_table m \<and> 0 < length (la_writable la) + length (la_readonly la)
         then Inl ErrInvalidLoadedTransaction
       else
         let r = \<lparr>rm_header = msg_header m, rm_static_keys = msg_keys m, rm_loaded = la,
                  rm_keys = msg_keys m @ la_writable la @ la_readonly la,
                  rm_blockhash = msg_blockhash m, rm_instructions = msg_instructions m\<rparr>
         in rbind (ResolvedMessage_Validate r) (\<lambda>_. Inr r)))"

definition Resolved_StaticAccountMetas :: "ResolvedMessage \<Rightarrow> AccountMeta list" where
  "Resolved_StaticAccountMetas m = static_metas (rm_header m) (rm_static_keys m)"

definition LoadedTransaction_Validate ::
    "shielded_decoder \<Rightarrow> LoadedTransaction \<Rightarrow> structure_error + unit" where
  "LoadedTransaction_Validate decode t =
     rbind (Transaction_Validate decode (lt_transaction t)) (\<lambda>_.
     rbind (ResolvedMessage_Validate (lt_message t)) (\<lambda>_.
       if length (lt_accounts t) \<noteq> length (rm_keys (lt_message t)) then Inl ErrInvalidLoadedTransaction
       else
         rbind (rforall (\<lambda>(a, k).
             if ld_address a \<noteq> k then Inl ErrInvalidLoadedTransaction else LoadedAccount_Validate a)
             (zip (lt_accounts t) (rm_keys (lt_message t)))) (\<lambda>_.
           if lt_fee_payer t \<noteq> hd (rm_keys (lt_message t)) then Inl ErrInvalidLoadedTransaction
           else if lt_fee_source t = FeePaymentSourceTransparentAccount then
             (if h_required (rm_header (lt_message t)) = 0 then Inl ErrInvalidLoadedTransaction
              else Inr ())
           else if lt_fee_source t = FeePaymentSourceShieldedPool then
             (if h_required (rm_header (lt_message t)) \<noteq> 0 then Inl ErrInvalidLoadedTransaction
              else Inr ())
           else Inl ErrInvalidLoadedTransaction)))"

definition NewLoadedTransaction ::
    "shielded_decoder \<Rightarrow> Transaction \<Rightarrow> ResolvedMessage \<Rightarrow> LoadedAccount list \<Rightarrow> FeeDetails \<Rightarrow>
     structure_error + LoadedTransaction" where
  "NewLoadedTransaction decode t m accounts fee =
     (let lt = \<lparr>lt_transaction = t, lt_message = m, lt_accounts = accounts,
                lt_fee_payer = (case rm_keys m of [] \<Rightarrow> 0 | k # _ \<Rightarrow> k),
                lt_fee_source = (if h_required (rm_header m) = 0 then FeePaymentSourceShieldedPool
                                 else FeePaymentSourceTransparentAccount),
                lt_fee_details = fee\<rparr>
      in rbind (LoadedTransaction_Validate decode lt) (\<lambda>_. Inr lt))"

section \<open>What a resolved message guarantees\<close>

lemma ResolvedMessage_Validate_facts:
  assumes "ResolvedMessage_Validate m = Inr ()"
  shows "rm_keys m \<noteq> []" and "length (rm_keys m) \<le> MaxAccountsPerTransaction"
    and "distinct (rm_keys m)"
    and "validateMessageHeader (rm_header m) (length (rm_static_keys m)) = Inr ()"
    and "validateCompiledInstructions (rm_instructions m) (length (rm_keys m)) = Inr ()"
  using assms by (auto simp: ResolvedMessage_Validate_def hasDuplicatePublicKeys_def result_simps)

lemma NewResolvedMessage_Inr:
  assumes "NewResolvedMessage m la = Inr r"
  shows "ResolvedMessage_Validate r = Inr ()"
    and "rm_keys r = msg_keys m @ la_writable la @ la_readonly la"
    and "rm_static_keys r = msg_keys m" and "rm_header r = msg_header m"
    and "rm_instructions r = msg_instructions m" and "rm_loaded r = la"
  using assms by (auto simp: NewResolvedMessage_def result_simps Let_def)

text \<open>Every index of an instruction of a resolved message is an index of its key table.\<close>

lemma resolved_indexes_in_range:
  assumes "ResolvedMessage_Validate m = Inr ()" and "i \<in> set (rm_instructions m)"
  shows "unat (ci_program i) < length (rm_keys m)"
    and "\<forall>x \<in> set (ci_accounts i). unat x < length (rm_keys m)"
  using ResolvedMessage_Validate_facts(5) [OF assms(1)] assms(2)
  by (auto simp: validateCompiledInstructions_Inr validateInstruction_Inr)

lemma length_Resolved_StaticAccountMetas [simp]:
  "length (Resolved_StaticAccountMetas m) = length (rm_static_keys m)"
  by (simp add: Resolved_StaticAccountMetas_def static_metas_def)

end
