(* ===== verification/Blockhash_Queue.thy ===== *)
theory Blockhash_Queue
  imports Fees
begin

text \<open>
  \<open>structure/blockhash_status.go\<close>: the bounded window of recent block hashes that decides whether
  a transaction is still young enough to run, and the entries of the status cache.
\<close>

section \<open>Model\<close>

definition MaxRecentBlockhashAgeSlots :: u64 where "MaxRecentBlockhashAgeSlots = 150"

record RecentBlockhashEntry =
  bh_hash :: hash
  bh_slot :: u64
  bh_last_valid :: u64
  bh_fee :: FeeCalculator
  bh_time :: int

record BlockhashQueue =
  bq_entries :: "RecentBlockhashEntry list"
  bq_max_age :: u64

record StatusCacheEntry =
  sc_id :: signature
  sc_message_hash :: hash
  sc_slot :: u64
  sc_status :: u16
  sc_err :: gostring

definition NewBlockhashQueue :: "u64 \<Rightarrow> BlockhashQueue" where
  "NewBlockhashQueue maxAgeSlots =
     \<lparr>bq_entries = [],
      bq_max_age = (if maxAgeSlots = 0 then MaxRecentBlockhashAgeSlots else maxAgeSlots)\<rparr>"

definition BlockhashEntry_Validate :: "RecentBlockhashEntry \<Rightarrow> structure_error + unit" where
  "BlockhashEntry_Validate e =
     (if bh_hash e = 0 then Inl ErrEmptyBlockhash else FeeCalculator_Validate (bh_fee e))"

definition BlockhashEntry_IsRecent :: "RecentBlockhashEntry \<Rightarrow> u64 \<Rightarrow> u64 \<Rightarrow> bool" where
  "BlockhashEntry_IsRecent e currentSlot maxAgeSlots \<longleftrightarrow>
     (if currentSlot < bh_slot e then False else currentSlot - bh_slot e \<le> maxAgeSlots)"

fun validate_entries :: "hash set \<Rightarrow> RecentBlockhashEntry list \<Rightarrow> structure_error + unit" where
  "validate_entries seen [] = Inr ()"
| "validate_entries seen (e # es) =
     rbind (BlockhashEntry_Validate e) (\<lambda>_.
       if bh_hash e \<in> seen then Inl ErrInvalidBlockhashQueue
       else validate_entries (insert (bh_hash e) seen) es)"

text \<open>\<open>int(queue.MaxAgeSlots)+1\<close> is a signed 64-bit expression, which can be negative.\<close>

definition BlockhashQueue_Validate :: "BlockhashQueue \<Rightarrow> structure_error + unit" where
  "BlockhashQueue_Validate q =
     (if bq_max_age q = 0 then Inl ErrInvalidBlockhashQueue
      else if int64_wrap (sint (bq_max_age q) + 1) < int (length (bq_entries q))
        then Inl ErrInvalidBlockhashQueue
      else validate_entries {} (bq_entries q))"

text \<open>The loop of \<open>trim\<close> advances over the leading entries that are no longer recent.\<close>

definition BlockhashQueue_trim :: "BlockhashQueue \<Rightarrow> u64 \<Rightarrow> BlockhashQueue" where
  "BlockhashQueue_trim q currentSlot =
     q\<lparr>bq_entries :=
         dropWhile (\<lambda>e. \<not> BlockhashEntry_IsRecent e currentSlot (bq_max_age q)) (bq_entries q)\<rparr>"

text \<open>
  \<open>Add\<close> works on the queue in place: the queue it leaves behind is returned beside the error, as
  the source appends and trims before it validates.
\<close>

definition BlockhashQueue_Add ::
    "BlockhashQueue \<Rightarrow> RecentBlockhashEntry \<Rightarrow> BlockhashQueue \<times> (structure_error + unit)" where
  "BlockhashQueue_Add q e =
     (let q1 = (if bq_max_age q = 0 then q\<lparr>bq_max_age := MaxRecentBlockhashAgeSlots\<rparr> else q)
      in case BlockhashEntry_Validate e of
           Inl err \<Rightarrow> (q1, Inl err)
         | Inr _ \<Rightarrow>
             let q2 = BlockhashQueue_trim (q1\<lparr>bq_entries := bq_entries q1 @ [e]\<rparr>) (bh_slot e)
             in (q2, BlockhashQueue_Validate q2))"

definition BlockhashQueue_Find :: "BlockhashQueue \<Rightarrow> hash \<Rightarrow> RecentBlockhashEntry option" where
  "BlockhashQueue_Find q h = find (\<lambda>e. bh_hash e = h) (bq_entries q)"

definition BlockhashQueue_IsRecent :: "BlockhashQueue \<Rightarrow> hash \<Rightarrow> u64 \<Rightarrow> bool" where
  "BlockhashQueue_IsRecent q h currentSlot \<longleftrightarrow>
     (case BlockhashQueue_Find q h of
        None \<Rightarrow> False
      | Some e \<Rightarrow> BlockhashEntry_IsRecent e currentSlot (bq_max_age q))"

definition StatusCacheEntry_Validate :: "StatusCacheEntry \<Rightarrow> structure_error + unit" where
  "StatusCacheEntry_Validate e =
     (if sc_id e = 0 \<and> sc_message_hash e = 0 then Inl ErrInvalidStatusCache
      else if sc_status e = 0 then Inl ErrInvalidStatusCache
      else Inr ())"

section \<open>Validation\<close>

lemma validate_entries_Inr:
  "validate_entries seen es = Inr u \<longleftrightarrow>
     (\<forall>e \<in> set es. BlockhashEntry_Validate e = Inr ()) \<and> distinct (map bh_hash es) \<and>
     bh_hash ` set es \<inter> seen = {}"
  by (induction es arbitrary: seen) (auto simp: result_simps)

lemma BlockhashQueue_Validate_distinct:
  "BlockhashQueue_Validate q = Inr u \<Longrightarrow> distinct (map bh_hash (bq_entries q))"
  by (auto simp: BlockhashQueue_Validate_def result_simps validate_entries_Inr)

section \<open>The window\<close>

lemma trim_entries_suffix:
  "\<exists>old. bq_entries q = old @ bq_entries (BlockhashQueue_trim q s)"
  unfolding BlockhashQueue_trim_def by simp (metis takeWhile_dropWhile_id)

lemma entry_recent_now: "BlockhashEntry_IsRecent e (bh_slot e) m"
  by (simp add: BlockhashEntry_IsRecent_def)

lemma dropWhile_append_last: "\<not> P x \<Longrightarrow> dropWhile P (xs @ [x]) = dropWhile P xs @ [x]"
  by (induction xs) auto

lemma find_unique:
  assumes "distinct (map f xs)" and "x \<in> set xs"
  shows "find (\<lambda>y. f y = f x) xs = Some x"
  using assms by (induction xs) force+

lemma Add_entries:
  assumes "BlockhashQueue_Add q e = (q', r)" and "BlockhashEntry_Validate e = Inr ()"
  shows "bq_max_age q' = (if bq_max_age q = 0 then MaxRecentBlockhashAgeSlots else bq_max_age q)"
    and "bq_entries q' =
           dropWhile (\<lambda>d. \<not> BlockhashEntry_IsRecent d (bh_slot e) (bq_max_age q')) (bq_entries q) @ [e]"
    and "r = BlockhashQueue_Validate q'"
  using assms
  by (auto simp: BlockhashQueue_Add_def BlockhashQueue_trim_def Let_def entry_recent_now
      dropWhile_append_last)

lemma Add_success_validates:
  "BlockhashQueue_Add q e = (q', Inr u) \<Longrightarrow> BlockhashEntry_Validate e = Inr ()"
  by (cases "BlockhashEntry_Validate e") (auto simp: BlockhashQueue_Add_def Let_def)

lemma entry_window:
  "BlockhashEntry_IsRecent e s m \<longleftrightarrow> unat (bh_slot e) \<le> unat s \<and> unat s - unat (bh_slot e) \<le> unat m"
  by (auto simp: BlockhashEntry_IsRecent_def word_le_nat_alt word_less_nat_alt unat_sub)

text \<open>
  C37: After a successful \<open>Add\<close>, a transaction that names the added block hash is accepted in
  exactly the slots from the entry's slot to that slot plus the window, with no wrap-around at
  the end of the 64-bit slot range; and an entry that survives with a distinct hash keeps its
  own window.
\<close>

theorem blockhash_window_exact:
  assumes "BlockhashQueue_Add q e = (q', Inr u)" and "d \<in> set (bq_entries q')"
  shows "(BlockhashQueue_IsRecent q' (bh_hash e) s \<longleftrightarrow>
           unat (bh_slot e) \<le> unat s \<and> unat s \<le> unat (bh_slot e) + unat (bq_max_age q')) \<and>
         (BlockhashQueue_IsRecent q' (bh_hash d) s \<longleftrightarrow>
           unat (bh_slot d) \<le> unat s \<and> unat s \<le> unat (bh_slot d) + unat (bq_max_age q'))"
proof -
  note ok = Add_success_validates [OF assms(1)]
  note after = Add_entries [OF assms(1) ok]
  have "distinct (map bh_hash (bq_entries q'))"
    using after(3) BlockhashQueue_Validate_distinct by metis
  then have found: "BlockhashQueue_Find q' (bh_hash x) = Some x" if "x \<in> set (bq_entries q')" for x
    using that unfolding BlockhashQueue_Find_def by (rule find_unique)
  have "e \<in> set (bq_entries q')" by (subst after(2)) simp
  from found [OF this] found [OF assms(2)] show ?thesis
    by (auto simp: BlockhashQueue_IsRecent_def entry_window)
qed

definition sample_entry :: "hash \<Rightarrow> u64 \<Rightarrow> RecentBlockhashEntry" where
  "sample_entry h s = \<lparr>bh_hash = h, bh_slot = s, bh_last_valid = 0, bh_fee = DefaultFeeCalculator,
                       bh_time = 0\<rparr>"

lemma sample_entry_simps [simp]:
  "bh_hash (sample_entry h s) = h" "bh_slot (sample_entry h s) = s"
  "h \<noteq> 0 \<Longrightarrow> BlockhashEntry_Validate (sample_entry h s) = Inr ()"
  by (simp_all add: sample_entry_def BlockhashEntry_Validate_def FeeCalculator_Validate_def
      DefaultFeeCalculator_def LamportsPerSignature_def DefaultBaseFeeBurnPercent_def
      DefaultBaseComputeUnitPriceMicroLamports_def DefaultStorageWriteLamportsPerByte_def)

lemmas queue_run = BlockhashQueue_Add_def Let_def BlockhashQueue_trim_def
  BlockhashEntry_IsRecent_def BlockhashQueue_Validate_def int64_wrap_def

theorem blockhash_window_exact_witness:
  "BlockhashQueue_IsRecent \<lparr>bq_entries = [sample_entry 7 3], bq_max_age = 150\<rparr> 7 153"
  using blockhash_window_exact
    [of "NewBlockhashQueue 0" "sample_entry 7 3"
        "\<lparr>bq_entries = [sample_entry 7 3], bq_max_age = 150\<rparr>" "()" "sample_entry 7 3" 153]
  by (simp add: NewBlockhashQueue_def MaxRecentBlockhashAgeSlots_def queue_run)

text \<open>
  Slots are added in order, so nothing recent is ever dropped and nothing old is kept: the
  entries of a queue built by adds of increasing slots are exactly the ones of the window.
\<close>

lemma dropWhile_sorted_filter:
  assumes "sorted_wrt (\<lambda>a b. P b \<longrightarrow> P a) xs"
  shows "dropWhile P xs = filter (\<lambda>x. \<not> P x) xs"
  using assms by (induction xs) (auto simp: filter_id_conv)

lemma old_entries_first:
  assumes "sorted (map (unat \<circ> bh_slot) es)" and "\<forall>d \<in> set es. bh_slot d \<le> s"
  shows "sorted_wrt (\<lambda>a b. \<not> BlockhashEntry_IsRecent b s m \<longrightarrow> \<not> BlockhashEntry_IsRecent a s m) es"
  using assms by (induction es) (auto simp: entry_window word_le_nat_alt)

text \<open>
  A queue whose slots do not decrease stays so under \<open>Add\<close> of a later slot, and keeps
  exactly the entries that are still recent at that slot, with the new entry last.
\<close>

theorem blockhash_window_kept:
  assumes "BlockhashQueue_Add q e = (q', Inr u)"
    and "sorted (map (unat \<circ> bh_slot) (bq_entries q))"
    and "\<forall>d \<in> set (bq_entries q). bh_slot d \<le> bh_slot e"
  shows "bq_entries q' =
           filter (\<lambda>d. BlockhashEntry_IsRecent d (bh_slot e) (bq_max_age q')) (bq_entries q) @ [e] \<and>
         sorted (map (unat \<circ> bh_slot) (bq_entries q')) \<and>
         BlockhashQueue_Validate q' = Inr ()"
proof -
  note after = Add_entries [OF assms(1) Add_success_validates [OF assms(1)]]
  have kept: "bq_entries q' =
      filter (\<lambda>d. BlockhashEntry_IsRecent d (bh_slot e) (bq_max_age q')) (bq_entries q) @ [e]"
    by (subst after(2)) (simp add: dropWhile_sorted_filter [OF old_entries_first [OF assms(2,3)]])
  have "sorted (map (unat \<circ> bh_slot) (bq_entries q'))"
    using assms(2,3) by (subst kept) (auto simp: sorted_append sorted_filter word_le_nat_alt)
  with kept after(3) show ?thesis by simp
qed

theorem blockhash_window_kept_witness:
  "bq_entries (fst (BlockhashQueue_Add \<lparr>bq_entries = [sample_entry 7 3, sample_entry 8 5], bq_max_age = 2\<rparr>
     (sample_entry 9 6))) = [sample_entry 8 5, sample_entry 9 6]"
  using blockhash_window_kept
    [of "\<lparr>bq_entries = [sample_entry 7 3, sample_entry 8 5], bq_max_age = 2\<rparr>" "sample_entry 9 6"
        "\<lparr>bq_entries = [sample_entry 8 5, sample_entry 9 6], bq_max_age = 2\<rparr>" "()"]
  by (simp add: queue_run)

text \<open>
  \<open>Add\<close> is not atomic. When it rejects a duplicate block hash, the duplicate is already in
  the queue: the queue it leaves does not validate.
\<close>

theorem rejected_add_stays_in_queue:
  assumes "BlockhashEntry_Validate e = Inr ()" and "d \<in> set (bq_entries q)"
    and "bh_hash d = bh_hash e" and "sorted (map (unat \<circ> bh_slot) (bq_entries q))"
    and "\<forall>x \<in> set (bq_entries q). bh_slot x \<le> bh_slot e"
    and "BlockhashEntry_IsRecent d (bh_slot e) (bq_max_age q)" and "bq_max_age q \<noteq> 0"
  shows "\<exists>q' err. BlockhashQueue_Add q e = (q', Inl err) \<and> e \<in> set (bq_entries q') \<and>
           (\<exists>err2. BlockhashQueue_Validate q' = Inl err2)"
proof -
  obtain q' r where add: "BlockhashQueue_Add q e = (q', r)" by fastforce
  note after = Add_entries [OF add assms(1)]
  have "bq_entries q' =
      filter (\<lambda>d. BlockhashEntry_IsRecent d (bh_slot e) (bq_max_age q')) (bq_entries q) @ [e]"
    by (subst after(2)) (simp add: dropWhile_sorted_filter [OF old_entries_first [OF assms(4,5)]])
  moreover have "bq_max_age q' = bq_max_age q" using after(1) assms(7) by simp
  ultimately have "e \<in> set (bq_entries q')" and "\<not> distinct (map bh_hash (bq_entries q'))"
    using assms(2,3,6) by (auto simp: image_iff intro!: bexI [of _ d])
  then have "\<exists>err2. BlockhashQueue_Validate q' = Inl err2"
    using BlockhashQueue_Validate_distinct by (cases "BlockhashQueue_Validate q'") auto
  with \<open>e \<in> set (bq_entries q')\<close> add after(3) show ?thesis by auto
qed

theorem rejected_add_stays_in_queue_witness:
  "\<exists>q' err. BlockhashQueue_Add \<lparr>bq_entries = [sample_entry 7 3], bq_max_age = 150\<rparr> (sample_entry 7 4) =
     (q', Inl err) \<and> sample_entry 7 4 \<in> set (bq_entries q') \<and>
     (\<exists>err2. BlockhashQueue_Validate q' = Inl err2)"
  by (rule rejected_add_stays_in_queue [where d = "sample_entry 7 3"])
    (simp_all add: BlockhashEntry_IsRecent_def)

end
