(* ===== verification/Runtime_Accounts.thy ===== *)
theory Runtime_Accounts
  imports Resolved_Messages "HOL-Library.AList"
begin

text \<open>
  \<open>runtime/account_ops.go\<close>: who signs, what is writable, and the transfer of lamports between two
  accounts of the state map that an instruction works on.
\<close>

section \<open>The account map\<close>

text \<open>
  \<open>map[structure.PublicKey]structure.Account\<close> is an association list with distinct keys. A read
  of a missing key gives the zero value of the element type, as in Go.
\<close>

type_synonym ledger = "(pubkey \<times> account) list"

definition zero_account :: account where
  "zero_account = \<lparr>a_lamports = 0, a_data = [], a_owner = 0, a_executable = False, a_rent_epoch = 0\<rparr>"

definition get_account :: "ledger \<Rightarrow> pubkey \<Rightarrow> account" where
  "get_account L k = (case map_of L k of None \<Rightarrow> zero_account | Some a \<Rightarrow> a)"

definition put_account :: "pubkey \<Rightarrow> account \<Rightarrow> ledger \<Rightarrow> ledger" where
  "put_account k a L = AList.update k a L"

definition well_keyed :: "ledger \<Rightarrow> bool" where
  "well_keyed L \<longleftrightarrow> distinct (map fst L)"

definition balance :: "ledger \<Rightarrow> pubkey \<Rightarrow> nat" where
  "balance L k = unat (a_lamports (get_account L k))"

definition total_lamports :: "ledger \<Rightarrow> nat" where
  "total_lamports L = (\<Sum>(k, a) \<leftarrow> L. unat (a_lamports a))"

lemma map_of_put_account [simp]: "map_of (put_account k a L) = (map_of L)(k \<mapsto> a)"
  by (simp add: put_account_def update_conv')

lemma get_put_account [simp]: "get_account (put_account k a L) j = (if j = k then a else get_account L j)"
  by (simp add: get_account_def)

lemma well_keyed_put [simp]: "well_keyed L \<Longrightarrow> well_keyed (put_account k a L)"
  by (simp add: well_keyed_def put_account_def distinct_update)

lemma keys_put [simp]: "fst ` set (put_account k a L) = insert k (fst ` set L)"
  using dom_update [of k a L] by (simp add: put_account_def dom_map_of_conv_image_fst)

lemma balance_put [simp]:
  "balance (put_account k a L) j = (if j = k then unat (a_lamports a) else balance L j)"
  by (simp add: balance_def)

lemma balance_missing: "k \<notin> fst ` set L \<Longrightarrow> balance L k = 0"
  using map_of_eq_None_iff [of L k] by (simp add: balance_def get_account_def zero_account_def)

lemma total_lamports_sum:
  assumes "well_keyed L" and "finite K" and "fst ` set L \<subseteq> K"
  shows "total_lamports L = sum (balance L) K"
proof -
  have "total_lamports L = (\<Sum>p \<in> set L. unat (a_lamports (snd p)))"
    using assms(1) unfolding total_lamports_def well_keyed_def
    by (simp add: sum_list_distinct_conv_sum_set distinct_map case_prod_beta')
  also have "\<dots> = sum (balance L) (fst ` set L)"
    using assms(1) unfolding well_keyed_def
    by (subst sum.reindex) (auto simp: distinct_map balance_def get_account_def intro!: sum.cong)
  also have "\<dots> = sum (balance L) K"
    using assms(2,3) by (intro sum.mono_neutral_left) (auto simp: balance_missing)
  finally show ?thesis .
qed

section \<open>Permissions\<close>

definition IsSignerAddress :: "pubkey \<Rightarrow> ResolvedMessage \<Rightarrow> bool" where
  "IsSignerAddress address m \<longleftrightarrow>
     address \<in> set (take (unat (h_required (rm_header m))) (rm_static_keys m))"

definition IsWritableMessageAccount :: "nat \<Rightarrow> ResolvedMessage \<Rightarrow> bool" where
  "IsWritableMessageAccount accountIndex m \<longleftrightarrow>
     (let staticMetas = Resolved_StaticAccountMetas m in
      if accountIndex < length staticMetas then m_writable (staticMetas ! accountIndex)
      else length (rm_static_keys m) \<le> accountIndex \<and>
           accountIndex - length (rm_static_keys m) < length (la_writable (rm_loaded m)))"

section \<open>Transfers\<close>

text \<open>
  The source reads both accounts, changes the two copies and writes them back, source first. An
  error leaves the map as it was.
\<close>

definition TransferLamports ::
    "pubkey \<Rightarrow> pubkey \<Rightarrow> u64 \<Rightarrow> ledger \<Rightarrow> RentConfig \<Rightarrow> structure_error + ledger" where
  "TransferLamports sourceAddress destinationAddress lamports accounts rentConfig =
     (case map_of accounts sourceAddress of
        None \<Rightarrow> Inl ErrInvalidLoadedTransaction
      | Some sourceAccount \<Rightarrow>
          rbind (case map_of accounts destinationAddress of
                   None \<Rightarrow> NewAccount 0 [] (pid_System DefaultBuiltinProgramIDs) False 0
                 | Some a \<Rightarrow> Inr a) (\<lambda>destinationAccount.
          rbind (DebitLamports sourceAccount lamports rentConfig) (\<lambda>sourceAccount.
          rbind (CreditLamports destinationAccount lamports) (\<lambda>destinationAccount.
          rbind (ValidateWithRent destinationAccount rentConfig) (\<lambda>_.
            Inr (put_account destinationAddress destinationAccount
                  (put_account sourceAddress sourceAccount accounts)))))))"

text \<open>
  What a transfer of the runtime and one of the virtual machine have in common: between two
  places the amount moves, and from a place to itself the second write wins.
\<close>

locale balance_transfer =
  fixes transfer :: "'k \<Rightarrow> 'k \<Rightarrow> u64 \<Rightarrow> 's \<Rightarrow> 'e + 's"
    and bal :: "'s \<Rightarrow> 'k \<Rightarrow> nat"
  assumes moves: "transfer i j n s = Inr s' \<Longrightarrow> i \<noteq> j \<Longrightarrow>
      bal s' i + unat n = bal s i \<and> bal s' j = bal s j + unat n"
    and frame: "transfer i j n s = Inr s' \<Longrightarrow> k \<noteq> i \<Longrightarrow> k \<noteq> j \<Longrightarrow> bal s' k = bal s k"
    and self: "transfer i i n s = Inr s' \<Longrightarrow> bal s' i = bal s i + unat n"
begin

lemma sum_frame:
  assumes "transfer i j n s = Inr s'" and "finite K"
  shows "sum (bal s') (K - {i, j}) = sum (bal s) (K - {i, j})"
  using frame [OF assms(1)] by (intro sum.cong) auto

theorem conserves:
  assumes "transfer i j n s = Inr s'" and "i \<noteq> j" and "finite K" and "i \<in> K" and "j \<in> K"
  shows "sum (bal s') K = sum (bal s) K"
proof -
  have "K = insert i (insert j (K - {i, j}))" using assms(4,5) by auto
  then have split: "sum f K = f i + f j + sum f (K - {i, j})" for f :: "'k \<Rightarrow> nat"
    using assms(2,3) by (metis (no_types, lifting) Diff_iff add.assoc finite.insertI finite_Diff
        insertCI insertE singletonD sum.insert)
  show ?thesis
    using moves [OF assms(1,2)] by (simp add: split sum_frame [OF assms(1,3)])
qed

theorem self_creates:
  assumes "transfer i i n s = Inr s'" and "finite K" and "i \<in> K"
  shows "sum (bal s') K = sum (bal s) K + unat n"
proof -
  have split: "sum f K = f i + sum f (K - {i, i})" for f :: "'k \<Rightarrow> nat"
    using assms(2,3) by (simp add: sum.remove)
  show ?thesis
    using self [OF assms(1)] by (simp only: split sum_frame [OF assms(1,2)])
qed

end

lemma TransferLamports_Inr:
  assumes "TransferLamports i j n L rc = Inr L'"
  obtains a b a' b' where "map_of L i = Some a" and "get_account L j = b \<or> map_of L j = None \<and> a_lamports b = 0"
    and "DebitLamports a n rc = Inr a'" and "CreditLamports b n = Inr b'"
    and "L' = put_account j b' (put_account i a' L)"
    and "map_of L j = None \<longrightarrow> b = \<lparr>a_lamports = 0, a_data = [], a_owner = pid_System DefaultBuiltinProgramIDs,
           a_executable = False, a_rent_epoch = 0\<rparr>"
    and "ValidateWithRent b' rc = Inr ()"
  using assms
  by (auto simp: TransferLamports_def result_simps get_account_def NewAccount_def
      NewAccountWithRent_def Let_def split: option.splits)

lemma transfer_balances:
  assumes "TransferLamports i j n L rc = Inr L'"
  shows "i \<noteq> j \<Longrightarrow> balance L' i + unat n = balance L i"
    and "balance L' j = balance L j + unat n"
    and "k \<noteq> i \<Longrightarrow> k \<noteq> j \<Longrightarrow> get_account L' k = get_account L k"
  using assms
  by (elim TransferLamports_Inr;
      auto simp: balance_def get_account_def zero_account_def
        dest: debit_unat credit_unat split: option.splits)+

interpretation runtime_transfer: balance_transfer
  "\<lambda>i j n L. TransferLamports i j n L rc" balance for rc
proof unfold_locales
  fix i j k n L L'
  assume ok: "TransferLamports i j n L rc = Inr L'"
  show "i \<noteq> j \<Longrightarrow> balance L' i + unat n = balance L i \<and> balance L' j = balance L j + unat n"
    using transfer_balances(1,2) [OF ok] by simp
  show "k \<noteq> i \<Longrightarrow> k \<noteq> j \<Longrightarrow> balance L' k = balance L k"
    using transfer_balances(3) [OF ok] by (simp add: balance_def)
next
  fix i n L L'
  assume "TransferLamports i i n L rc = Inr L'"
  then show "balance L' i = balance L i + unat n" by (rule transfer_balances(2))
qed

lemma transfer_keys:
  assumes "TransferLamports i j n L rc = Inr L'" and "well_keyed L"
  shows "well_keyed L'" and "fst ` set L' = insert i (insert j (fst ` set L))"
proof -
  obtain a b where L': "L' = put_account j b (put_account i a L)"
    using assms(1) by (rule TransferLamports_Inr)
  show "well_keyed L'" using assms(2) unfolding L' by simp
  show "fst ` set L' = insert i (insert j (fst ` set L))" unfolding L' by auto
qed

lemma transfer_total:
  assumes "TransferLamports i j n L rc = Inr L'" and "well_keyed L"
  shows "i \<noteq> j \<Longrightarrow> total_lamports L' = total_lamports L"
    and "i = j \<Longrightarrow> total_lamports L' = total_lamports L + unat n"
proof -
  note keys = transfer_keys [OF assms]
  have new: "total_lamports L' = sum (balance L') (fst ` set L')"
    using keys(1) by (intro total_lamports_sum) auto
  have old: "total_lamports L = sum (balance L) (fst ` set L')"
    using assms(2) by (intro total_lamports_sum) (auto simp: keys(2))
  show "total_lamports L' = total_lamports L" if "i \<noteq> j"
    unfolding new old by (rule runtime_transfer.conserves [OF assms(1) that]) (auto simp: keys(2))
  show "total_lamports L' = total_lamports L + unat n" if "i = j"
    unfolding new old using assms(1) that
    by (intro runtime_transfer.self_creates [where i = i]) (auto simp: keys(2))
qed

text \<open>
  C9: A transfer between two different accounts conserves the lamports of the whole map, moves
  exactly the amount and touches no other account; it fails when the source does not hold the
  amount.
\<close>

theorem transfer_conserves_lamports:
  assumes "TransferLamports i j n L rc = Inr L'" and "well_keyed L" and "i \<noteq> j"
  shows "total_lamports L' = total_lamports L \<and>
         balance L' i = balance L i - unat n \<and> unat n \<le> balance L i \<and>
         balance L' j = balance L j + unat n \<and>
         (\<forall>k. k \<noteq> i \<longrightarrow> k \<noteq> j \<longrightarrow> get_account L' k = get_account L k)"
  using transfer_total(1) [OF assms] transfer_balances [OF assms(1)] assms(3) by fastforce

definition rich :: "u64 \<Rightarrow> account" where
  "rich n = zero_account\<lparr>a_lamports := n\<rparr>"

lemmas transfer_run = TransferLamports_def get_account_def put_account_def rich_def zero_account_def
  DebitLamports_def CreditLamports_def ValidateWithRent_def MinimumBalance_def DefaultRentConfig_def
  RentConfig_Validate_def safeAddUint64_def safeMulUint64_def MaxAccountDataSize_def Let_def

theorem transfer_conserves_lamports_witness:
  "total_lamports [(1, rich 7000000), (2, rich 4000000)] = total_lamports [(1, rich 10000000), (2, rich 1000000)]"
  using transfer_conserves_lamports
    [of 1 2 3000000 "[(1, rich 10000000), (2, rich 1000000)]" DefaultRentConfig
        "[(1, rich 7000000), (2, rich 4000000)]"]
  by (simp add: transfer_run well_keyed_def)

end
