(* ===== verification/Program_Runtime.thy ===== *)
theory Program_Runtime
  imports Runtime_Accounts Go_Strings
begin

text \<open>
  \<open>runtime/program.go\<close> and \<open>runtime/permission.go\<close>: the context a program runs in, the registry
  that dispatches an instruction to a program or to the virtual machine, and the sandbox that
  runs one instruction on a copy of the accounts and checks what it wrote.
\<close>

section \<open>Programs\<close>

text \<open>
  An error of the runtime. \<open>RPanic\<close> is an index expression of the source that is out of range: Go
  stops the goroutine there, and no result exists.
\<close>

datatype runtime_error = RStructure structure_error | RText string | RPanic

record TransactionReturnData =
  rd_program :: pubkey
  rd_data :: bytes

record ProgramExecutionTrace =
  tr_logs :: "gostring list"
  tr_return :: "TransactionReturnData option"
  tr_inner :: "CompiledInstruction list"

record InstructionContext =
  ic_index :: nat
  ic_depth :: u8
  ic_instruction :: CompiledInstruction
  ic_message :: ResolvedMessage
  ic_accounts :: ledger
  ic_slot :: u64
  ic_epoch :: u64
  ic_rent :: RentConfig
  ic_budget :: ComputeBudgetLimits
  ic_fee :: u64
  ic_fee_source :: u8
  ic_programs :: BuiltinProgramIDs
  ic_overrides :: "pubkey list"

text \<open>
  A handler changes the accounts of its context, the counter of compute units and the trace
  through pointers; it returns all three. After an error the accounts are never read again.
\<close>

record program_outcome =
  po_units :: u64
  po_trace :: ProgramExecutionTrace
  po_result :: "runtime_error + ledger"

type_synonym program_handler = "InstructionContext \<Rightarrow> program_outcome"

record ProgramSpec =
  ps_id :: pubkey
  ps_name :: gostring

record ProgramRegistry =
  pr_programs :: "(pubkey \<times> ProgramSpec \<times> program_handler) list"
  pr_names :: "(gostring \<times> pubkey) list"
  pr_fallback :: "program_handler option"

definition empty_trace :: ProgramExecutionTrace where
  "empty_trace = \<lparr>tr_logs = [], tr_return = None, tr_inner = []\<rparr>"

definition failing :: "runtime_error \<Rightarrow> program_outcome" where
  "failing e = \<lparr>po_units = 0, po_trace = empty_trace, po_result = Inl e\<rparr>"

definition IsSignerContextAddress :: "pubkey \<Rightarrow> InstructionContext \<Rightarrow> bool" where
  "IsSignerContextAddress address c \<longleftrightarrow>
     IsSignerAddress address (ic_message c) \<or> address \<in> set (ic_overrides c)"

section \<open>The registry\<close>

definition NormalizeProgramName :: "gostring \<Rightarrow> gostring" where
  "NormalizeProgramName name = TrimSpace name"

definition ProgramSpec_Validate :: "ProgramSpec \<Rightarrow> runtime_error + unit" where
  "ProgramSpec_Validate s = (if TrimSpace (ps_name s) = [] then Inl (RText ''empty name'') else Inr ())"

definition NewProgramHandlerRegistry :: ProgramRegistry where
  "NewProgramHandlerRegistry = \<lparr>pr_programs = [], pr_names = [], pr_fallback = None\<rparr>"

definition RegisterHandler ::
    "ProgramRegistry \<Rightarrow> ProgramSpec \<Rightarrow> program_handler option \<Rightarrow> runtime_error + ProgramRegistry" where
  "RegisterHandler r s handler =
     rbind (ProgramSpec_Validate s) (\<lambda>_.
       case handler of
         None \<Rightarrow> Inl (RText ''nil program handler'')
       | Some h \<Rightarrow>
           let name = NormalizeProgramName (ps_name s); s = s\<lparr>ps_name := name\<rparr> in
           if name = [] then Inl (RText ''empty normalized name'')
           else if map_of (pr_programs r) (ps_id s) \<noteq> None then Inl (RText ''duplicate program'')
           else if (case map_of (pr_names r) name of None \<Rightarrow> False | Some i \<Rightarrow> i \<noteq> ps_id s)
             then Inl (RText ''duplicate program name'')
           else Inr (r\<lparr>pr_programs := AList.update (ps_id s) (s, h) (pr_programs r),
                       pr_names := AList.update name (ps_id s) (pr_names r)\<rparr>))"

text \<open>A value of the interface \<open>Program\<close> is its id and its \<open>Execute\<close>; \<open>None\<close> is nil.\<close>

definition RegisterProgram ::
    "ProgramRegistry \<Rightarrow> (pubkey \<times> program_handler) option \<Rightarrow> runtime_error + ProgramRegistry" where
  "RegisterProgram r program =
     (case program of
        None \<Rightarrow> Inl (RText ''nil program'')
      | Some (i, h) \<Rightarrow>
          RegisterHandler r \<lparr>ps_id = i, ps_name = Base58Encode (key_bytes i)\<rparr> (Some h))"

fun register_programs ::
    "ProgramRegistry \<Rightarrow> (pubkey \<times> program_handler) option list \<Rightarrow> runtime_error + ProgramRegistry" where
  "register_programs r [] = Inr r"
| "register_programs r (p # ps) = rbind (RegisterProgram r p) (\<lambda>r. register_programs r ps)"

definition NewProgramRegistry ::
    "(pubkey \<times> program_handler) option list \<Rightarrow> runtime_error + ProgramRegistry" where
  "NewProgramRegistry programs = register_programs NewProgramHandlerRegistry programs"

definition SetFallbackHandler :: "ProgramRegistry \<Rightarrow> program_handler option \<Rightarrow> ProgramRegistry" where
  "SetFallbackHandler r handler = r\<lparr>pr_fallback := handler\<rparr>"

definition SetFallbackProgram ::
    "ProgramRegistry \<Rightarrow> (pubkey \<times> program_handler) option \<Rightarrow> runtime_error + ProgramRegistry" where
  "SetFallbackProgram r program =
     (case program of
        None \<Rightarrow> Inr (SetFallbackHandler r None)
      | Some (i, h) \<Rightarrow>
          if i \<noteq> 0 then Inl (RText ''fallback program id must be zero'')
          else Inr (SetFallbackHandler r (Some h)))"

definition Registry_Spec :: "ProgramRegistry \<Rightarrow> pubkey \<Rightarrow> ProgramSpec option" where
  "Registry_Spec r i = map_option fst (map_of (pr_programs r) i)"

definition SpecByName :: "ProgramRegistry \<Rightarrow> gostring \<Rightarrow> ProgramSpec option" where
  "SpecByName r name =
     (case map_of (pr_names r) (NormalizeProgramName name) of
        None \<Rightarrow> None
      | Some i \<Rightarrow> map_option fst (map_of (pr_programs r) i))"

definition Registry_IsEmpty :: "ProgramRegistry \<Rightarrow> bool" where
  "Registry_IsEmpty r \<longleftrightarrow> pr_programs r = [] \<and> pr_fallback r = None"

definition Registry_lookup ::
    "ProgramRegistry \<Rightarrow> pubkey \<Rightarrow> program_handler option \<times> program_handler option" where
  "Registry_lookup r i =
     (case map_of (pr_programs r) i of
        Some (s, h) \<Rightarrow> (Some h, None)
      | None \<Rightarrow> (None, pr_fallback r))"

definition validateVirtualMachineFallbackProgram ::
    "pubkey \<Rightarrow> InstructionContext \<Rightarrow> runtime_error + unit" where
  "validateVirtualMachineFallbackProgram i c =
     (case map_of (ic_accounts c) i of
        None \<Rightarrow> Inl (RStructure ErrInvalidLoadedTransaction)
      | Some a \<Rightarrow>
          if \<not> a_executable a then Inl (RStructure ErrInvalidInstruction)
          else
            let loader = (if pid_BPFLoader (ic_programs c) = 0
                          then pid_BPFLoader DefaultBuiltinProgramIDs
                          else pid_BPFLoader (ic_programs c))
            in if a_owner a \<noteq> loader then Inl (RStructure ErrInvalidInstruction) else Inr ())"

definition Registry_Execute :: "ProgramRegistry \<Rightarrow> InstructionContext \<Rightarrow> program_outcome" where
  "Registry_Execute r c =
     (if length (rm_keys (ic_message c)) \<le> unat (ci_program (ic_instruction c))
        then failing (RStructure ErrInvalidInstruction)
      else
        let i = rm_keys (ic_message c) ! unat (ci_program (ic_instruction c)) in
        case Registry_lookup r i of
          (Some h, _) \<Rightarrow> h c
        | (None, Some fallback) \<Rightarrow>
            (case validateVirtualMachineFallbackProgram i c of
               Inl e \<Rightarrow> failing e
             | Inr _ \<Rightarrow> fallback c)
        | (None, None) \<Rightarrow> failing (RText ''unsupported program''))"

section \<open>The sandbox\<close>

definition normalizeInstructionComputeUnits :: "u64 \<Rightarrow> u64" where
  "normalizeInstructionComputeUnits units = (if units \<noteq> 0 then units else DefaultBuiltinInstructionCU)"

definition accountsEqual :: "account \<Rightarrow> account \<Rightarrow> bool" where
  "accountsEqual left right \<longleftrightarrow>
     a_lamports left = a_lamports right \<and> a_owner left = a_owner right \<and>
     a_executable left = a_executable right \<and> a_rent_epoch left = a_rent_epoch right \<and>
     a_data left = a_data right"

definition writableAccountSet :: "ResolvedMessage \<Rightarrow> pubkey set" where
  "writableAccountSet m =
     set (map ((!) (rm_keys m)) (filter (\<lambda>i. IsWritableMessageAccount i m) [0..<length (rm_keys m)]))"

definition instructionAccountSet :: "CompiledInstruction \<Rightarrow> ResolvedMessage \<Rightarrow> pubkey set" where
  "instructionAccountSet i m =
     set (map (\<lambda>x. rm_keys m ! unat x) (filter (\<lambda>x. unat x < length (rm_keys m)) (ci_accounts i)))"

definition instructionProgramID :: "CompiledInstruction \<Rightarrow> ResolvedMessage \<Rightarrow> runtime_error + pubkey" where
  "instructionProgramID i m =
     (if length (rm_keys m) \<le> unat (ci_program i) then Inl (RStructure ErrInvalidInstruction)
      else Inr (rm_keys m ! unat (ci_program i)))"

definition validateProgramOwnerWrite ::
    "pubkey \<Rightarrow> account \<Rightarrow> account \<Rightarrow> BuiltinProgramIDs \<Rightarrow> runtime_error + unit" where
  "validateProgramOwnerWrite programID before after programIDs =
     (if programID \<noteq> pid_Token programIDs then Inr ()
      else if a_owner before \<noteq> programID \<or> a_owner after \<noteq> programID
        then Inl (RStructure ErrInvalidInstruction)
      else if a_executable before \<noteq> a_executable after then Inl (RStructure ErrInvalidInstruction)
      else if a_owner before \<noteq> a_owner after then Inl (RStructure ErrInvalidInstruction)
      else Inr ())"

definition ValidateInstructionWrites ::
    "CompiledInstruction \<Rightarrow> ResolvedMessage \<Rightarrow> ledger \<Rightarrow> ledger \<Rightarrow> BuiltinProgramIDs \<Rightarrow> runtime_error + unit" where
  "ValidateInstructionWrites i m before after programIDs =
     rbind (instructionProgramID i m) (\<lambda>programID.
       rforall (\<lambda>(address, afterAccount).
         case map_of before address of
           None \<Rightarrow>
             if address \<notin> writableAccountSet m then Inl (RStructure ErrInvalidInstruction) else Inr ()
         | Some beforeAccount \<Rightarrow>
             if accountsEqual beforeAccount afterAccount then Inr ()
             else if address \<notin> writableAccountSet m then Inl (RStructure ErrInvalidInstruction)
             else if address \<notin> instructionAccountSet i m then Inl (RStructure ErrInvalidInstruction)
             else validateProgramOwnerWrite programID beforeAccount afterAccount programIDs) after)"

text \<open>
  The sandbox starts the program on a copy of the accounts. It returns the compute units, the
  trace and either the error, with which the caller's accounts stay as they were, or the
  accounts that replace them.
\<close>

definition run_sandbox ::
    "InstructionContext \<Rightarrow> ProgramRegistry \<Rightarrow> u64 \<times> ProgramExecutionTrace \<times> (runtime_error + ledger)" where
  "run_sandbox c r =
     (let out = Registry_Execute r c;
          units = normalizeInstructionComputeUnits (po_units out)
      in (units, po_trace out,
          if cb_units (ic_budget c) < units then Inl (RText ''exceed remaining budget'')
          else rbind (po_result out) (\<lambda>after.
            rbind (ValidateInstructionWrites (ic_instruction c) (ic_message c) (ic_accounts c) after
                (ic_programs c)) (\<lambda>_. Inr after))))"

section \<open>The registry keeps its two indexes in step\<close>

inductive registry_step :: "ProgramRegistry \<Rightarrow> ProgramRegistry \<Rightarrow> bool" where
  register: "RegisterHandler r s h = Inr r' \<Longrightarrow> registry_step r r'"
| fallback: "registry_step r (SetFallbackHandler r h)"

definition registry_ok :: "ProgramRegistry \<Rightarrow> bool" where
  "registry_ok r \<longleftrightarrow>
     (\<forall>i s h. map_of (pr_programs r) i = Some (s, h) \<longrightarrow>
        ps_id s = i \<and> map_of (pr_names r) (ps_name s) = Some i) \<and>
     (\<forall>name i. map_of (pr_names r) name = Some i \<longrightarrow>
        (\<exists>s h. map_of (pr_programs r) i = Some (s, h) \<and> ps_name s = name))"

lemma RegisterHandler_Inr:
  assumes "RegisterHandler r s h = Inr r'"
  obtains f where "h = Some f" and "map_of (pr_programs r) (ps_id s) = None"
    and "map_of (pr_names r) (NormalizeProgramName (ps_name s)) \<in> {None, Some (ps_id s)}"
    and "map_of (pr_programs r') =
           (map_of (pr_programs r))(ps_id s \<mapsto> (s\<lparr>ps_name := NormalizeProgramName (ps_name s)\<rparr>, f))"
    and "map_of (pr_names r') = (map_of (pr_names r))(NormalizeProgramName (ps_name s) \<mapsto> ps_id s)"
  using assms
  by (auto simp: RegisterHandler_def result_simps Let_def update_conv' simp del: not_None_eq
      split: option.splits)

lemma SetFallbackHandler_frame [simp]:
  "pr_programs (SetFallbackHandler r h) = pr_programs r" "pr_names (SetFallbackHandler r h) = pr_names r"
  "registry_ok (SetFallbackHandler r h) \<longleftrightarrow> registry_ok r"
  by (simp_all add: SetFallbackHandler_def registry_ok_def)

lemma registry_ok_register:
  assumes "registry_ok r" and "RegisterHandler r s h = Inr r'"
  shows "registry_ok r'"
proof -
  obtain f where new: "map_of (pr_programs r) (ps_id s) = None"
    "map_of (pr_names r) (NormalizeProgramName (ps_name s)) \<in> {None, Some (ps_id s)}"
    "map_of (pr_programs r') =
       (map_of (pr_programs r))(ps_id s \<mapsto> (s\<lparr>ps_name := NormalizeProgramName (ps_name s)\<rparr>, f))"
    "map_of (pr_names r') = (map_of (pr_names r))(NormalizeProgramName (ps_name s) \<mapsto> ps_id s)"
    using assms(2) by (rule RegisterHandler_Inr)
  have "map_of (pr_names r) (NormalizeProgramName (ps_name s)) = None"
    using new(1,2) assms(1) by (fastforce simp: registry_ok_def)
  then show ?thesis
    using assms(1) new(1) unfolding registry_ok_def new(3,4)
    by (intro conjI allI impI) (force split: if_splits)+
qed

interpretation registry_life: step_invariant registry_step registry_ok
proof
  fix r r'
  assume "registry_ok r" and "registry_step r r'"
  from this(2,1) show "registry_ok r'"
    by induction (auto intro: registry_ok_register)
qed

interpretation registry_keeps: step_invariant registry_step "\<lambda>r. map_of (pr_programs r) i = Some p" for i p
proof
  fix r r'
  assume "map_of (pr_programs r) i = Some p" and "registry_step r r'"
  from this(2,1) show "map_of (pr_programs r') i = Some p"
    by induction (auto elim!: RegisterHandler_Inr)
qed

text \<open>
  However programs are registered, no registration displaces an earlier one: the handler that
  is found for an id stays the one that was registered first, the fallback never shadows it, and
  a lookup by the name of a program finds that program.
\<close>

theorem registered_program_is_fixed:
  assumes "registry_step\<^sup>*\<^sup>* NewProgramHandlerRegistry r"
    and "map_of (pr_programs r) i = Some (s, h)" and "registry_step\<^sup>*\<^sup>* r r'"
  shows "Registry_lookup r' i = (Some h, None) \<and> Registry_Spec r' i = Some s \<and> ps_id s = i \<and>
         (\<forall>name. NormalizeProgramName name = ps_name s \<longrightarrow> SpecByName r' name = Some s)"
proof -
  have "registry_ok NewProgramHandlerRegistry"
    by (simp add: registry_ok_def NewProgramHandlerRegistry_def)
  then have "registry_ok r'"
    using registry_life.reachable_inv rtranclp_trans [OF assms(1,3)] by blast
  moreover have kept: "map_of (pr_programs r') i = Some (s, h)"
    using registry_keeps.reachable_inv [OF assms(3,2)] .
  ultimately have "ps_id s = i" and "map_of (pr_names r') (ps_name s) = Some i"
    unfolding registry_ok_def by blast+
  with kept show ?thesis
    by (simp add: Registry_lookup_def Registry_Spec_def SpecByName_def)
qed

definition idle :: program_handler where
  "idle c = \<lparr>po_units = 0, po_trace = empty_trace, po_result = Inr (ic_accounts c)\<rparr>"

definition sample_registry :: ProgramRegistry where
  "sample_registry =
     \<lparr>pr_programs = [(5, \<lparr>ps_id = 5, ps_name = [97]\<rparr>, idle)], pr_names = [([97], 5)], pr_fallback = None\<rparr>"

lemma sample_registry_reached: "registry_step NewProgramHandlerRegistry sample_registry"
  by (rule registry_step.register [where s = "\<lparr>ps_id = 5, ps_name = [32, 97]\<rparr>" and h = "Some idle"])
    (simp add: RegisterHandler_def ProgramSpec_Validate_def NormalizeProgramName_def TrimSpace_def
      NewProgramHandlerRegistry_def sample_registry_def Let_def)

theorem registered_program_is_fixed_witness:
  "Registry_lookup (SetFallbackHandler sample_registry (Some idle)) 5 = (Some idle, None)"
proof -
  have "registry_step\<^sup>*\<^sup>* sample_registry (SetFallbackHandler sample_registry (Some idle))"
    using registry_step.fallback by (rule r_into_rtranclp [of registry_step])
  moreover have "registry_step\<^sup>*\<^sup>* NewProgramHandlerRegistry sample_registry"
    using sample_registry_reached by (rule r_into_rtranclp [of registry_step])
  moreover have "map_of (pr_programs sample_registry) 5 = Some (\<lparr>ps_id = 5, ps_name = [97]\<rparr>, idle)"
    by (simp add: sample_registry_def)
  ultimately show ?thesis using registered_program_is_fixed by blast
qed

section \<open>What the sandbox lets through\<close>

lemma accountsEqual_iff [simp]: "accountsEqual a b \<longleftrightarrow> a = b"
  by (cases a; cases b) (auto simp: accountsEqual_def)

lemma in_writableAccountSet:
  "k \<in> writableAccountSet m \<longleftrightarrow> (\<exists>i < length (rm_keys m). rm_keys m ! i = k \<and> IsWritableMessageAccount i m)"
  by (auto simp: writableAccountSet_def)

lemma in_instructionAccountSet:
  "k \<in> instructionAccountSet i m \<longleftrightarrow>
     (\<exists>x \<in> set (ci_accounts i). unat x < length (rm_keys m) \<and> rm_keys m ! unat x = k)"
  by (auto simp: instructionAccountSet_def)

lemma ValidateInstructionWrites_Inr:
  assumes "ValidateInstructionWrites i m before after p = Inr u" and "map_of after k = Some a"
  shows "map_of before k = Some a \<or>
         k \<in> writableAccountSet m \<and>
         (\<forall>b. map_of before k = Some b \<longrightarrow>
            k \<in> instructionAccountSet i m \<and>
            (rm_keys m ! unat (ci_program i) = pid_Token p \<longrightarrow>
              a_owner b = pid_Token p \<and> a_owner a = pid_Token p \<and> a_executable a = a_executable b))"
proof -
  have "(k, a) \<in> set after" using assms(2) by (rule map_of_SomeD)
  with assms(1) show ?thesis
    by (fastforce simp: ValidateInstructionWrites_def result_simps rforall_Inr instructionProgramID_def
        validateProgramOwnerWrite_def split: option.splits if_splits)
qed

lemma run_sandbox_Inr:
  assumes "run_sandbox c r = (units, trace, Inr after)"
  shows "units \<le> cb_units (ic_budget c)"
    and "ValidateInstructionWrites (ic_instruction c) (ic_message c) (ic_accounts c) after
           (ic_programs c) = Inr ()"
    and "po_result (Registry_Execute r c) = Inr after"
  using assms by (auto simp: run_sandbox_def Let_def result_simps)


definition sample_resolved :: ResolvedMessage where
  "sample_resolved =
     \<lparr>rm_header = \<lparr>h_required = 1, h_ro_signed = 0, h_ro_unsigned = 1\<rparr>, rm_static_keys = [7, 8, 5],
      rm_loaded = \<lparr>la_writable = [], la_readonly = []\<rparr>, rm_keys = [7, 8, 5], rm_blockhash = 9,
      rm_instructions = [\<lparr>ci_program = 2, ci_accounts = [0, 1], ci_data = []\<rparr>]\<rparr>"

definition sample_context :: InstructionContext where
  "sample_context =
     \<lparr>ic_index = 0, ic_depth = 0, ic_instruction = \<lparr>ci_program = 2, ci_accounts = [0, 1], ci_data = []\<rparr>,
      ic_message = sample_resolved, ic_accounts = [(7, rich 1000000)], ic_slot = 0, ic_epoch = 0,
      ic_rent = DefaultRentConfig, ic_budget = DefaultComputeBudgetLimits, ic_fee = 0,
      ic_fee_source = 1, ic_programs = zero_programs, ic_overrides = []\<rparr>"


text \<open>
  C36: The write check has a hole: it looks only at the accounts of the result, so a program that
  deletes an account from the map is accepted even when that account is neither writable nor
  named by the instruction, although the check is there to stop every undeclared change.
\<close>

theorem deletion_is_not_checked:
  assumes "unat (ci_program i) < length (rm_keys m)" and "well_keyed before"
  shows "ValidateInstructionWrites i m before (AList.delete k before) p = Inr ()"
proof -
  have "map_of before x = Some a" if "(x, a) \<in> set (AList.delete k before)" for x a
    using that assms(2) by (auto simp: AList.delete_eq well_keyed_def)
  then show ?thesis
    using assms(1)
    by (auto simp: ValidateInstructionWrites_def instructionProgramID_def rforall_Inr)
qed

theorem deletion_is_not_checked_witness:
  "ValidateInstructionWrites (ic_instruction sample_context) sample_resolved
     [(5, rich 1000000), (7, rich 1000000)] [(7, rich 1000000)] zero_programs = Inr ()"
  using deletion_is_not_checked
    [of "ic_instruction sample_context" sample_resolved "[(5, rich 1000000), (7, rich 1000000)]" 5 zero_programs]
  by (simp add: sample_context_def sample_resolved_def well_keyed_def)

end
