(* ===== verification/System_Program.thy ===== *)
theory System_Program
  imports Program_Runtime System_Instructions
begin

text \<open>
  \<open>programs/system/program.go\<close>: the program that creates, funds, assigns and resizes accounts.
\<close>

section \<open>Model\<close>

text \<open>An index into the key table; out of range, Go panics.\<close>

definition key_at :: "ResolvedMessage \<Rightarrow> u8 \<Rightarrow> runtime_error + pubkey" where
  "key_at m i = (if unat i < length (rm_keys m) then Inr (rm_keys m ! unat i) else Inl RPanic)"

definition account_key :: "InstructionContext \<Rightarrow> nat \<Rightarrow> runtime_error + pubkey" where
  "account_key c i = key_at (ic_message c) (ci_accounts (ic_instruction c) ! i)"

text \<open>A nil parameter struct is dereferenced: a panic as well.\<close>

definition deref :: "'a option \<Rightarrow> runtime_error + 'a" where
  "deref p = (case p of None \<Rightarrow> Inl RPanic | Some x \<Rightarrow> Inr x)"

definition requireSystemOwnedAccount :: "pubkey \<Rightarrow> InstructionContext \<Rightarrow> runtime_error + unit" where
  "requireSystemOwnedAccount address c =
     rbind (key_at (ic_message c) (ci_program (ic_instruction c))) (\<lambda>programID.
       let a = get_account (ic_accounts c) address in
       if a_owner a \<noteq> programID \<or> a_executable a then Inl (RStructure ErrInvalidSystemInstruction)
       else Inr ())"

definition executeSystemTransfer :: "SystemInstruction \<Rightarrow> InstructionContext \<Rightarrow> runtime_error + ledger" where
  "executeSystemTransfer si c =
     (if length (ci_accounts (ic_instruction c)) < 2 then Inl (RStructure ErrInvalidSystemInstruction)
      else
        rbind (account_key c 0) (\<lambda>sourceAddress.
        rbind (account_key c 1) (\<lambda>destinationAddress.
          if \<not> IsSignerContextAddress sourceAddress c then Inl (RStructure ErrMissingRequiredSignature)
          else
            rbind (requireSystemOwnedAccount sourceAddress c) (\<lambda>_.
              if a_data (get_account (ic_accounts c) sourceAddress) \<noteq> []
                then Inl (RStructure ErrInvalidSystemInstruction)
              else
                rbind (deref (si_transfer si)) (\<lambda>lamports.
                  wrap_err RStructure
                    (TransferLamports sourceAddress destinationAddress lamports (ic_accounts c)
                      (ic_rent c)))))))"

definition executeSystemCreateAccount :: "SystemInstruction \<Rightarrow> InstructionContext \<Rightarrow> runtime_error + ledger" where
  "executeSystemCreateAccount si c =
     (if length (ci_accounts (ic_instruction c)) < 2 then Inl (RStructure ErrInvalidSystemInstruction)
      else
        rbind (account_key c 0) (\<lambda>payerAddress.
        rbind (account_key c 1) (\<lambda>newAccountAddress.
          if \<not> IsSignerContextAddress payerAddress c \<or> \<not> IsSignerContextAddress newAccountAddress c
            then Inl (RStructure ErrMissingRequiredSignature)
          else if payerAddress = newAccountAddress then Inl (RStructure ErrInvalidSystemInstruction)
          else
            rbind (requireSystemOwnedAccount payerAddress c) (\<lambda>_.
              if a_data (get_account (ic_accounts c) payerAddress) \<noteq> []
                then Inl (RStructure ErrInvalidSystemInstruction)
              else
                rbind (requireSystemOwnedAccount newAccountAddress c) (\<lambda>_.
                  if a_data (get_account (ic_accounts c) newAccountAddress) \<noteq> []
                    then Inl (RStructure ErrInvalidSystemInstruction)
                  else
                    rbind (deref (si_create si)) (\<lambda>p.
                    rbind (wrap_err RStructure (TransferLamports payerAddress newAccountAddress
                        (ca_lamports p) (ic_accounts c) (ic_rent c))) (\<lambda>accounts.
                      if sint (ca_space p) < 0 then Inl RPanic
                      else
                        let newAccount = (get_account accounts newAccountAddress)
                              \<lparr>a_owner := ca_owner p, a_data := replicate (nat (sint (ca_space p))) 0\<rparr>
                        in rbind (wrap_err RStructure (ValidateWithRent newAccount (ic_rent c))) (\<lambda>_.
                             Inr (put_account newAccountAddress newAccount accounts)))))))))"

definition executeSystemAssign :: "SystemInstruction \<Rightarrow> InstructionContext \<Rightarrow> runtime_error + ledger" where
  "executeSystemAssign si c =
     (if length (ci_accounts (ic_instruction c)) < 1 then Inl (RStructure ErrInvalidSystemInstruction)
      else
        rbind (account_key c 0) (\<lambda>targetAddress.
          if \<not> IsSignerContextAddress targetAddress c then Inl (RStructure ErrMissingRequiredSignature)
          else
            rbind (requireSystemOwnedAccount targetAddress c) (\<lambda>_.
            rbind (deref (si_assign si)) (\<lambda>owner.
              Inr (put_account targetAddress
                    ((get_account (ic_accounts c) targetAddress)\<lparr>a_owner := owner\<rparr>)
                    (ic_accounts c))))))"

definition executeSystemAllocate :: "SystemInstruction \<Rightarrow> InstructionContext \<Rightarrow> runtime_error + ledger" where
  "executeSystemAllocate si c =
     (if length (ci_accounts (ic_instruction c)) < 1 then Inl (RStructure ErrInvalidSystemInstruction)
      else
        rbind (account_key c 0) (\<lambda>targetAddress.
          if \<not> IsSignerContextAddress targetAddress c then Inl (RStructure ErrMissingRequiredSignature)
          else
            rbind (requireSystemOwnedAccount targetAddress c) (\<lambda>_.
            rbind (deref (si_allocate si)) (\<lambda>space.
            rbind (wrap_err RStructure (ResizeData (get_account (ic_accounts c) targetAddress)
                (sint space) (ic_rent c))) (\<lambda>account.
              Inr (put_account targetAddress account (ic_accounts c)))))))"

definition executeSystemInstruction :: "SystemInstruction \<Rightarrow> InstructionContext \<Rightarrow> runtime_error + ledger" where
  "executeSystemInstruction si c =
     (if si_type si = SystemInstructionTransfer then executeSystemTransfer si c
      else if si_type si = SystemInstructionCreateAccount then executeSystemCreateAccount si c
      else if si_type si = SystemInstructionAssign then executeSystemAssign si c
      else if si_type si = SystemInstructionAllocate then executeSystemAllocate si c
      else Inl (RStructure ErrInvalidSystemInstruction))"

definition System_Execute :: "InstructionContext \<Rightarrow> runtime_error + ledger" where
  "System_Execute c =
     rbind (wrap_err RStructure (UnmarshalSystemInstructionBinary (ci_data (ic_instruction c)))) (\<lambda>si.
       executeSystemInstruction si c)"

text \<open>The program as the registry calls it: it reports neither compute units nor a trace.\<close>

definition system_handler :: program_handler where
  "system_handler c = \<lparr>po_units = 0, po_trace = empty_trace, po_result = System_Execute c\<rparr>"

lemmas system_ops = executeSystemTransfer_def executeSystemCreateAccount_def executeSystemAssign_def
  executeSystemAllocate_def

section \<open>Authority\<close>

lemma transfer_accounts:
  assumes "TransferLamports i j n L rc = Inr L'"
  shows "get_account L' j = (get_account L j)\<lparr>a_lamports := a_lamports (get_account L j) + n\<rparr>"
    and "i \<noteq> j \<Longrightarrow> get_account L' i = (get_account L i)\<lparr>a_lamports := a_lamports (get_account L i) - n\<rparr>"
proof -
  obtain a b a' b' where r: "map_of L i = Some a"
      "get_account L j = b \<or> map_of L j = None \<and> a_lamports b = 0"
      "DebitLamports a n rc = Inr a'" "CreditLamports b n = Inr b'"
      "L' = put_account j b' (put_account i a' L)"
      "map_of L j = None \<longrightarrow> b = \<lparr>a_lamports = 0, a_data = [], a_owner = pid_System DefaultBuiltinProgramIDs,
         a_executable = False, a_rent_epoch = 0\<rparr>"
    using assms by (rule TransferLamports_Inr)
  have "get_account L j = b"
    using r(2,6) by (auto simp: get_account_def zero_account_def system_program_zero)
  then show "get_account L' j = (get_account L j)\<lparr>a_lamports := a_lamports (get_account L j) + n\<rparr>"
    using r(4,5) by (simp add: CreditLamports_Inr)
  show "get_account L' i = (get_account L i)\<lparr>a_lamports := a_lamports (get_account L i) - n\<rparr>" if "i \<noteq> j"
    using that r(1,3,5) by (simp add: DebitLamports_Inr get_account_def)
qed

text \<open>The accounts a signer puts at the disposal of the system program.\<close>

definition at_disposal :: "InstructionContext \<Rightarrow> pubkey \<Rightarrow> bool" where
  "at_disposal c k \<longleftrightarrow>
     IsSignerContextAddress k c \<and>
     a_owner (get_account (ic_accounts c) k) = rm_keys (ic_message c) ! unat (ci_program (ic_instruction c)) \<and>
     \<not> a_executable (get_account (ic_accounts c) k)"

lemma require_owned:
  "requireSystemOwnedAccount k c = Inr u \<Longrightarrow> IsSignerContextAddress k c \<Longrightarrow> at_disposal c k"
  by (auto simp: requireSystemOwnedAccount_def at_disposal_def key_at_def result_simps Let_def)

lemma transfer_authority:
  assumes "executeSystemTransfer si c = Inr after"
  shows "get_account after k = get_account (ic_accounts c) k \<or> at_disposal c k \<or>
         (\<exists>n. get_account after k = (get_account (ic_accounts c) k)
            \<lparr>a_lamports := a_lamports (get_account (ic_accounts c) k) + n\<rparr>)"
proof -
  obtain i j n where s: "IsSignerContextAddress i c" "requireSystemOwnedAccount i c = Inr ()"
      "TransferLamports i j n (ic_accounts c) (ic_rent c) = Inr after"
    using assms by (auto simp: executeSystemTransfer_def result_simps)
  show ?thesis
    using transfer_accounts [OF s(3)] transfer_balances(3) [OF s(3)] require_owned [OF s(2,1)]
    by (cases "k = j"; cases "k = i") auto
qed

lemma create_authority:
  assumes "executeSystemCreateAccount si c = Inr after"
  shows "get_account after k = get_account (ic_accounts c) k \<or> at_disposal c k"
proof -
  obtain i j n L a where s: "IsSignerContextAddress i c" "IsSignerContextAddress j c"
      "requireSystemOwnedAccount i c = Inr ()" "requireSystemOwnedAccount j c = Inr ()"
      "TransferLamports i j n (ic_accounts c) (ic_rent c) = Inr L" "after = put_account j a L"
    using assms by (auto simp: executeSystemCreateAccount_def result_simps Let_def)
  show ?thesis
    using transfer_balances(3) [OF s(5)] require_owned [OF s(3,1)] require_owned [OF s(4,2)] s(6)
    by (cases "k = j"; cases "k = i") auto
qed

lemma assign_allocate_authority:
  assumes "executeSystemAssign si c = Inr after \<or> executeSystemAllocate si c = Inr after"
  shows "get_account after k = get_account (ic_accounts c) k \<or> at_disposal c k"
proof -
  obtain i a where s: "IsSignerContextAddress i c" "requireSystemOwnedAccount i c = Inr ()"
      "after = put_account i a (ic_accounts c)"
    using assms by (auto simp: executeSystemAssign_def executeSystemAllocate_def result_simps)
  show ?thesis using require_owned [OF s(2,1)] s(3) by auto
qed


section \<open>Conservation\<close>

lemma total_put_same:
  assumes "well_keyed L" and "a_lamports a = a_lamports (get_account L k)"
  shows "total_lamports (put_account k a L) = total_lamports L"
proof -
  have "total_lamports (put_account k a L) = sum (balance (put_account k a L)) (insert k (fst ` set L))"
    using assms(1) by (intro total_lamports_sum) auto
  also have "\<dots> = sum (balance L) (insert k (fst ` set L))"
    using assms(2) by (intro sum.cong) (auto simp: balance_def)
  also have "\<dots> = total_lamports L"
    using assms(1) by (intro total_lamports_sum [symmetric]) auto
  finally show ?thesis .
qed

lemma ResizeData_lamports: "ResizeData a n rc = Inr b \<Longrightarrow> a_lamports b = a_lamports a"
  by (auto simp: ResizeData_def SetData_Inr Let_def result_simps)

lemma create_conserves:
  assumes "executeSystemCreateAccount si c = Inr after" and "well_keyed (ic_accounts c)"
  shows "total_lamports after = total_lamports (ic_accounts c) \<and> well_keyed after"
proof -
  obtain i j n L a where s: "i \<noteq> j" "TransferLamports i j n (ic_accounts c) (ic_rent c) = Inr L"
      "after = put_account j a L" "a_lamports a = a_lamports (get_account L j)"
    using assms(1) by (force simp: executeSystemCreateAccount_def result_simps Let_def)
  show ?thesis
    using transfer_keys(1) [OF s(2) assms(2)] transfer_total(1) [OF s(2) assms(2)] s(1)
    by (simp add: s(3,4) total_put_same)
qed

lemma transfer_instruction:
  assumes "executeSystemTransfer si c = Inr after"
  obtains i j n where "account_key c 0 = Inr i" and "account_key c 1 = Inr j" and "si_transfer si = Some n"
    and "TransferLamports i j n (ic_accounts c) (ic_rent c) = Inr after"
    and "2 \<le> length (ci_accounts (ic_instruction c))"
  using assms by (auto simp: executeSystemTransfer_def deref_def result_simps not_less split: option.splits)

lemma assign_allocate_conserves:
  assumes "executeSystemAssign si c = Inr after \<or> executeSystemAllocate si c = Inr after"
    and "well_keyed (ic_accounts c)"
  shows "total_lamports after = total_lamports (ic_accounts c) \<and> well_keyed after"
  using assms
  by (auto simp: executeSystemAssign_def executeSystemAllocate_def result_simps total_put_same
      dest: ResizeData_lamports)

lemma system_conserves:
  assumes "System_Execute c = Inr after" and "well_keyed (ic_accounts c)"
    and "account_key c 0 \<noteq> account_key c 1"
  shows "total_lamports after = total_lamports (ic_accounts c) \<and> well_keyed after"
proof -
  obtain si where "executeSystemInstruction si c = Inr after"
    using assms(1) by (auto simp: System_Execute_def result_simps)
  moreover have "total_lamports after = total_lamports (ic_accounts c) \<and> well_keyed after"
    if "executeSystemTransfer si c = Inr after"
    using that
  proof (rule transfer_instruction)
    fix i j n
    assume "account_key c 0 = Inr i" "account_key c 1 = Inr j"
      and t: "TransferLamports i j n (ic_accounts c) (ic_rent c) = Inr after"
    with assms(3) show ?thesis
      using transfer_total(1) [OF t assms(2)] transfer_keys(1) [OF t assms(2)] by auto
  qed
  ultimately show ?thesis
    using create_conserves [OF _ assms(2)] assign_allocate_conserves [OF _ assms(2)]
    by (auto simp: executeSystemInstruction_def split: if_splits)
qed


text \<open>
  C23: A transfer whose source and destination are the same account creates money. When the
  system program accepts it, the account holds the amount on top of its old balance, and so
  does the whole ledger: the debited copy is overwritten by the credited one.
\<close>

theorem self_transfer_mints:
  assumes "System_Execute c = Inr after" and "well_keyed (ic_accounts c)"
    and "UnmarshalSystemInstructionBinary (ci_data (ic_instruction c)) = Inr si"
    and "si_type si = SystemInstructionTransfer" and "account_key c 0 = account_key c 1"
  shows "\<exists>i n. account_key c 0 = Inr i \<and> si_transfer si = Some n \<and>
           total_lamports after = total_lamports (ic_accounts c) + unat n \<and>
           balance after i = balance (ic_accounts c) i + unat n"
proof -
  have "executeSystemTransfer si c = Inr after"
    using assms(1,3,4) by (simp add: System_Execute_def executeSystemInstruction_def)
  then show ?thesis
  proof (rule transfer_instruction)
    fix i j n
    assume "account_key c 0 = Inr i" "account_key c 1 = Inr j" "si_transfer si = Some n"
      and t: "TransferLamports i j n (ic_accounts c) (ic_rent c) = Inr after"
    with assms(5) show ?thesis
      using transfer_total(2) [OF t assms(2)] transfer_balances(2) [OF t] by auto
  qed
qed

lemma system_keeps_keys:
  assumes "System_Execute c = Inr after" and "map_of (ic_accounts c) k \<noteq> None"
  shows "map_of after k \<noteq> None"
proof -
  have t: "\<exists>y. map_of L' k = Some y" if "TransferLamports i j n (ic_accounts c) rc = Inr L'" for i j n rc L'
    using that
  proof (rule TransferLamports_Inr)
    fix a b a' b'
    assume "L' = put_account j b' (put_account i a' (ic_accounts c))"
    then show ?thesis using assms(2) by simp
  qed
  show ?thesis
    using assms t
    by (auto simp: System_Execute_def executeSystemInstruction_def system_ops result_simps Let_def
        split: if_splits)
qed

section \<open>No panic\<close>

lemma account_key_in_range:
  assumes "\<forall>x \<in> set (ci_accounts (ic_instruction c)). unat x < length (rm_keys (ic_message c))"
    and "i < length (ci_accounts (ic_instruction c))"
  shows "account_key c i = Inr (rm_keys (ic_message c) ! unat (ci_accounts (ic_instruction c) ! i))"
  using assms by (simp add: account_key_def key_at_def)

lemma small_space: "validateAccountSpace space = Inr u \<Longrightarrow> \<not> sint space < 0"
proof -
  assume "validateAccountSpace space = Inr u"
  then have "space \<le> of_nat MaxAccountDataSize"
    unfolding validateAccountSpace_def if_Inl_eq_Inr by simp
  moreover have "(of_nat MaxAccountDataSize :: u64) = 10485760"
    by (simp add: MaxAccountDataSize_def)
  ultimately have "unat space \<le> unat (10485760 :: u64)"
    by (simp only: word_le_nat_alt)
  then have "unat space < 2 ^ 63"
    by simp
  from sint_small [OF this] show ?thesis by simp
qed

lemma wrap_not_panic [simp]: "wrap_err RStructure r \<noteq> Inl RPanic"
  by (cases r) auto

lemma UnmarshalSystemInstruction_valid:
  "UnmarshalSystemInstructionBinary data = Inr si \<Longrightarrow> SystemInstruction_Validate si = Inr ()"
  by (auto simp: UnmarshalSystemInstructionBinary_def result_simps Let_def)

lemma require_no_panic:
  "unat (ci_program (ic_instruction c)) < length (rm_keys (ic_message c)) \<Longrightarrow>
   requireSystemOwnedAccount k c \<noteq> Inl RPanic"
  by (auto simp: requireSystemOwnedAccount_def key_at_def Let_def)

lemma system_instruction_no_panic:
  assumes "\<forall>x \<in> set (ci_accounts (ic_instruction c)). unat x < length (rm_keys (ic_message c))"
    and "unat (ci_program (ic_instruction c)) < length (rm_keys (ic_message c))"
    and "SystemInstruction_Validate si = Inr ()"
  shows "si_type si = SystemInstructionTransfer \<Longrightarrow> executeSystemTransfer si c \<noteq> Inl RPanic"
    and "si_type si = SystemInstructionCreateAccount \<Longrightarrow> executeSystemCreateAccount si c \<noteq> Inl RPanic"
    and "si_type si = SystemInstructionAssign \<Longrightarrow> executeSystemAssign si c \<noteq> Inl RPanic"
    and "si_type si = SystemInstructionAllocate \<Longrightarrow> executeSystemAllocate si c \<noteq> Inl RPanic"
proof -
  have keys: "i < length (ci_accounts (ic_instruction c)) \<Longrightarrow> account_key c i \<noteq> Inl RPanic" for i
    by (simp add: account_key_in_range [OF assms(1)])
  have two: "\<not> length (ci_accounts (ic_instruction c)) < 2 \<Longrightarrow> account_key c 0 \<noteq> Inl RPanic"
    "\<not> length (ci_accounts (ic_instruction c)) < 2 \<Longrightarrow> account_key c (Suc 0) \<noteq> Inl RPanic"
    by (rule keys, linarith)+
  have one: "ci_accounts (ic_instruction c) \<noteq> [] \<Longrightarrow> account_key c 0 \<noteq> Inl RPanic"
    by (rule keys) simp
  note facts = one two require_no_panic [OF assms(2)] assms(3)
  show "si_type si = SystemInstructionTransfer \<Longrightarrow> executeSystemTransfer si c \<noteq> Inl RPanic"
    "si_type si = SystemInstructionCreateAccount \<Longrightarrow> executeSystemCreateAccount si c \<noteq> Inl RPanic"
    "si_type si = SystemInstructionAssign \<Longrightarrow> executeSystemAssign si c \<noteq> Inl RPanic"
    "si_type si = SystemInstructionAllocate \<Longrightarrow> executeSystemAllocate si c \<noteq> Inl RPanic"
    using facts by (auto simp: system_ops SystemInstruction_Validate_def system_types deref_def rbind_eq_Inl Let_def
        dest: small_space split: option.splits if_splits)
qed

text \<open>
  On a message that the runtime resolved, the system program never panics: every index it
  uses is an index of the key table, every parameter it dereferences is present, and the size it
  allocates is not negative.
\<close>

theorem system_program_never_panics:
  assumes "ResolvedMessage_Validate (ic_message c) = Inr ()"
    and "ic_instruction c \<in> set (rm_instructions (ic_message c))"
  shows "System_Execute c \<noteq> Inl RPanic"
proof (cases "UnmarshalSystemInstructionBinary (ci_data (ic_instruction c))")
  case (Inr si)
  then show ?thesis
    using system_instruction_no_panic [OF resolved_indexes_in_range(2,1) [OF assms]]
      UnmarshalSystemInstruction_valid [OF Inr]
    by (simp add: System_Execute_def executeSystemInstruction_def)
qed (simp add: System_Execute_def)

section \<open>A transfer, run\<close>

definition transfer_octets :: bytes where
  "transfer_octets = [2, 0, 0, 0, 64, 66, 15, 0, 0, 0, 0, 0]"

definition system_message :: "u8 list \<Rightarrow> ResolvedMessage" where
  "system_message indexes =
     \<lparr>rm_header = \<lparr>h_required = 1, h_ro_signed = 0, h_ro_unsigned = 1\<rparr>, rm_static_keys = [7, 8, 0],
      rm_loaded = \<lparr>la_writable = [], la_readonly = []\<rparr>, rm_keys = [7, 8, 0], rm_blockhash = 9,
      rm_instructions = [\<lparr>ci_program = 2, ci_accounts = indexes, ci_data = transfer_octets\<rparr>]\<rparr>"

definition system_context :: "u8 list \<Rightarrow> InstructionContext" where
  "system_context indexes =
     sample_context\<lparr>ic_instruction := \<lparr>ci_program = 2, ci_accounts = indexes, ci_data = transfer_octets\<rparr>,
       ic_message := system_message indexes, ic_accounts := [(7, rich 5000000), (8, rich 1000000)]\<rparr>"

definition sample_transfer :: SystemInstruction where
  "sample_transfer = \<lparr>si_type = 2, si_create = None, si_transfer = Some 1000000, si_assign = None,
                      si_allocate = None\<rparr>"

lemma sample_transfer_decodes: "UnmarshalSystemInstructionBinary transfer_octets = Inr sample_transfer"
  by (rule UnmarshalSystemInstruction_marshal)
    (simp_all add: canonical_instruction_def sample_transfer_def system_types
      SystemInstruction_MarshalBinary_def SystemInstruction_Validate_def transfer_octets_def system_writes
      put_le_def)

lemmas system_run = System_Execute_def sample_transfer_decodes executeSystemInstruction_def
  system_context_def system_message_def sample_context_def sample_transfer_def system_types
  executeSystemTransfer_def account_key_def key_at_def IsSignerContextAddress_def IsSignerAddress_def
  requireSystemOwnedAccount_def deref_def transfer_run



theorem self_transfer_mints_witness:
  "total_lamports [(7, rich 6000000), (8, rich 1000000)] =
   total_lamports [(7, rich 5000000), (8, rich 1000000)] + 1000000"
  using self_transfer_mints
    [of "system_context [0, 0]" "[(7, rich 6000000), (8, rich 1000000)]" sample_transfer]
  by (simp add: system_run well_keyed_def)

theorem system_program_never_panics_witness: "System_Execute (system_context [0, 1]) \<noteq> Inl RPanic"
  by (rule system_program_never_panics)
    (simp_all add: system_context_def system_message_def sample_context_def ResolvedMessage_Validate_def
      LoadedAddresses_Validate_def hasDuplicatePublicKeys_def validateMessageHeader_def
      validateCompiledInstructions_def validateInstruction_def transfer_octets_def
      MaxAccountsPerTransaction_def MaxInstructionDataSize_def MaxInstructionAccounts_def
      MaxInstructionsPerTransaction_def MaxOrdexusTransactionSize_def)

end
