(* ===== verification/Account_Locks.thy ===== *)
theory Account_Locks
  imports Runtime_Accounts
begin

text \<open>
  \<open>runtime/account_locks.go\<close>: the table of account locks that a scheduler takes for the transactions
  it runs side by side. Write locks exclude each other and the read locks; read locks are shared
  and counted.
\<close>

section \<open>Model\<close>

text \<open>A missing key of the map of counters reads as 0.\<close>

record AccountLockSet =
  readLocks :: "pubkey \<Rightarrow> nat"
  writeLocks :: "pubkey set"

definition NewAccountLockSet :: AccountLockSet where
  "NewAccountLockSet = \<lparr>readLocks = (\<lambda>_. 0), writeLocks = {}\<rparr>"

definition no_addresses :: LoadedAddresses where
  "no_addresses = \<lparr>la_writable = [], la_readonly = []\<rparr>"

definition TransactionLockAccounts :: "Transaction \<Rightarrow> structure_error + pubkey set \<times> pubkey set" where
  "TransactionLockAccounts t =
     rbind (Transaction_OrdexusMessage t) (\<lambda>m.
     rbind (NewResolvedMessage m no_addresses) (\<lambda>r.
       let is = [0..<length (rm_keys r)] in
       Inr (set (map ((!) (rm_keys r)) (filter (\<lambda>i. \<not> IsWritableMessageAccount i r) is)),
            set (map ((!) (rm_keys r)) (filter (\<lambda>i. IsWritableMessageAccount i r) is)))))"

definition TryLockTransaction :: "AccountLockSet \<Rightarrow> Transaction \<Rightarrow> structure_error + bool \<times> AccountLockSet" where
  "TryLockTransaction l t =
     rbind (TransactionLockAccounts t) (\<lambda>(readAccounts, writeAccounts).
       if \<exists>a \<in> writeAccounts. a \<in> writeLocks l \<or> 0 < readLocks l a then Inr (False, l)
       else if \<exists>a \<in> readAccounts. a \<in> writeLocks l then Inr (False, l)
       else Inr (True, \<lparr>readLocks = (\<lambda>a. if a \<in> readAccounts then readLocks l a + 1 else readLocks l a),
                        writeLocks = writeLocks l \<union> writeAccounts\<rparr>))"

definition UnlockTransaction :: "AccountLockSet \<Rightarrow> Transaction \<Rightarrow> structure_error + AccountLockSet" where
  "UnlockTransaction l t =
     rbind (TransactionLockAccounts t) (\<lambda>(readAccounts, writeAccounts).
       Inr \<lparr>readLocks = (\<lambda>a. if a \<in> readAccounts then (if readLocks l a \<le> 1 then 0 else readLocks l a - 1)
                             else readLocks l a),
            writeLocks = writeLocks l - writeAccounts\<rparr>)"

section \<open>The table and the transactions that hold it\<close>

definition reads :: "Transaction \<Rightarrow> pubkey set" where
  "reads t = (case TransactionLockAccounts t of Inl _ \<Rightarrow> {} | Inr (r, w) \<Rightarrow> r)"

definition writes :: "Transaction \<Rightarrow> pubkey set" where
  "writes t = (case TransactionLockAccounts t of Inl _ \<Rightarrow> {} | Inr (r, w) \<Rightarrow> w)"

definition compatible :: "Transaction \<Rightarrow> Transaction \<Rightarrow> bool" where
  "compatible t u \<longleftrightarrow> writes t \<inter> (writes u \<union> reads u) = {} \<and> reads t \<inter> writes u = {}"

lemma compatible_sym: "compatible t u \<longleftrightarrow> compatible u t"
  by (auto simp: compatible_def)

inductive lock_step :: "AccountLockSet \<times> Transaction list \<Rightarrow> AccountLockSet \<times> Transaction list \<Rightarrow> bool" where
  acquire: "TryLockTransaction l t = Inr (True, l') \<Longrightarrow> lock_step (l, held) (l', t # held)"
| refuse: "TryLockTransaction l t = Inr (False, l') \<Longrightarrow> lock_step (l, held) (l', held)"
| release: "t \<in> set held \<Longrightarrow> UnlockTransaction l t = Inr l' \<Longrightarrow> lock_step (l, held) (l', remove1 t held)"

definition lock_inv :: "AccountLockSet \<times> Transaction list \<Rightarrow> bool" where
  "lock_inv s \<longleftrightarrow>
     sorted_wrt compatible (snd s) \<and>
     writeLocks (fst s) = (\<Union>t \<in> set (snd s). writes t) \<and>
     readLocks (fst s) = (\<lambda>a. length (filter (\<lambda>t. a \<in> reads t) (snd s)))"

lemma sorted_wrt_remove1:
  assumes "sorted_wrt P xs" and "x \<in> set xs" and "\<And>a b. P a b \<longleftrightarrow> P b a"
  shows "sorted_wrt P (remove1 x xs)" and "\<forall>y \<in> set (remove1 x xs). P x y"
  using assms(1,2) by (induction xs) (auto simp: assms(3) dest: notin_set_remove1)

lemma set_insert_remove1: "x \<in> set xs \<Longrightarrow> set xs = insert x (set (remove1 x xs))"
  by (induction xs) auto

lemma length_filter_remove1:
  "x \<in> set xs \<Longrightarrow> length (filter P (remove1 x xs)) = length (filter P xs) - (if P x then 1 else 0)"
  by (simp add: filter_remove1 length_remove1)

lemma lock_accounts_disjoint:
  assumes "TransactionLockAccounts t = Inr (r, w)"
  shows "reads t = r" and "writes t = w"
  using assms by (simp_all add: reads_def writes_def)

lemma TryLock_True:
  assumes "TryLockTransaction l t = Inr (True, l')" and "lock_inv (l, held)"
  shows "lock_inv (l', t # held)"
proof -
  obtain r w where rw: "TransactionLockAccounts t = Inr (r, w)"
    and free: "\<forall>a \<in> w. a \<notin> writeLocks l \<and> readLocks l a = 0" "\<forall>a \<in> r. a \<notin> writeLocks l"
    and l': "l' = \<lparr>readLocks = (\<lambda>a. if a \<in> r then readLocks l a + 1 else readLocks l a),
                   writeLocks = writeLocks l \<union> w\<rparr>"
    using assms(1) by (auto simp: TryLockTransaction_def result_simps split: if_splits)
  have "compatible t u" if "u \<in> set held" for u
    using assms(2) that free by (fastforce simp: compatible_def lock_inv_def lock_accounts_disjoint [OF rw]
        filter_empty_conv)
  then show ?thesis
    using assms(2) by (auto simp: lock_inv_def l' lock_accounts_disjoint [OF rw])
qed

lemma Unlock_held:
  assumes "UnlockTransaction l t = Inr l'" and "lock_inv (l, held)" and "t \<in> set held"
  shows "lock_inv (l', remove1 t held)"
proof -
  obtain r w where rw: "TransactionLockAccounts t = Inr (r, w)"
    and l': "l' = \<lparr>readLocks = (\<lambda>a. if a \<in> r then (if readLocks l a \<le> 1 then 0 else readLocks l a - 1)
                       else readLocks l a), writeLocks = writeLocks l - w\<rparr>"
    using assms(1) by (auto simp: UnlockTransaction_def result_simps)
  have inv: "sorted_wrt compatible held" "writeLocks l = (\<Union>t \<in> set held. writes t)"
    "readLocks l = (\<lambda>a. length (filter (\<lambda>t. a \<in> reads t) held))"
    using assms(2) by (auto simp: lock_inv_def)
  note rest = sorted_wrt_remove1 [OF inv(1) assms(3) compatible_sym]
  have "set held = insert t (set (remove1 t held))"
    using assms(3) by (rule set_insert_remove1)
  then have "writeLocks l - w = (\<Union>u \<in> set (remove1 t held). writes u)"
    using rest(2) by (auto simp: inv(2) compatible_def lock_accounts_disjoint [OF rw])
  moreover have "(if a \<in> r then (if readLocks l a \<le> 1 then 0 else readLocks l a - 1) else readLocks l a) =
      length (filter (\<lambda>t. a \<in> reads t) (remove1 t held))" for a
    by (simp add: inv(3) length_filter_remove1 [OF assms(3)] lock_accounts_disjoint [OF rw])
  ultimately show ?thesis
    using rest(1) by (simp add: lock_inv_def l')
qed

interpretation lock_table: step_invariant lock_step lock_inv
proof
  fix s s'
  assume "lock_inv s" and "lock_step s s'"
  from this(2,1) show "lock_inv s'"
  proof induction
    case (refuse l t l' held)
    then have "l' = l" by (auto simp: TryLockTransaction_def result_simps split: if_splits)
    with refuse show ?case by simp
  qed (auto intro: TryLock_True Unlock_held)
qed

lemma TryLock_exact:
  assumes "lock_inv (l, held)" and "TryLockTransaction l t = Inr (b, l')"
  shows "b \<longleftrightarrow> (\<forall>u \<in> set held. compatible t u)"
proof -
  obtain r w where rw: "TransactionLockAccounts t = Inr (r, w)"
    using assms(2) by (auto simp: TryLockTransaction_def result_simps)
  have b: "b \<longleftrightarrow> \<not> (\<exists>a \<in> w. a \<in> writeLocks l \<or> 0 < readLocks l a) \<and> \<not> (\<exists>a \<in> r. a \<in> writeLocks l)"
    using assms(2) by (simp add: TryLockTransaction_def rw split: if_splits)
  show ?thesis
    using assms(1) unfolding b lock_inv_def compatible_def
    by (fastforce simp: lock_accounts_disjoint [OF rw] filter_empty_conv)
qed

text \<open>
  C24: In every state that lock and unlock calls reach, no two transactions that hold locks
  conflict: neither writes an account the other reads or writes. And a lock is granted exactly
  when the transaction is compatible with all the holders, so it is refused for no other reason.
\<close>

theorem locks_exclude_conflicts:
  assumes "lock_step\<^sup>*\<^sup>* (NewAccountLockSet, []) (l, held)"
  shows "sorted_wrt compatible held \<and>
         (\<forall>t b l'. TryLockTransaction l t = Inr (b, l') \<longrightarrow> (b \<longleftrightarrow> (\<forall>u \<in> set held. compatible t u)))"
proof -
  have "lock_inv (NewAccountLockSet, [])" by (simp add: lock_inv_def NewAccountLockSet_def)
  then have inv: "lock_inv (l, held)" by (rule lock_table.reachable_inv [OF assms])
  then have "sorted_wrt compatible held" by (simp add: lock_inv_def)
  with TryLock_exact [OF inv] show ?thesis by blast
qed

definition locking_transaction :: "pubkey \<Rightarrow> Transaction" where
  "locking_transaction k =
     \<lparr>t_signatures = [1], t_accounts = [], t_instructions = [], t_blockhash = 0,
      t_message = \<lparr>msg_header = \<lparr>h_required = 1, h_ro_signed = 0, h_ro_unsigned = 1\<rparr>, msg_keys = [k, 5],
        msg_blockhash = 9, msg_instructions = [\<lparr>ci_program = 1, ci_accounts = [0], ci_data = []\<rparr>],
        msg_lookups = [], msg_version = 0, msg_uses_table = False\<rparr>,
      t_fee = 0, t_size = 0, t_submit = 0, t_status = 0\<rparr>"

lemma locking_accounts:
  "k \<noteq> 5 \<Longrightarrow> TransactionLockAccounts (locking_transaction k) = Inr ({5}, {k})"
  by (simp (no_asm_simp) add: TransactionLockAccounts_def locking_transaction_def Transaction_OrdexusMessage_def
      Message_IsZero_def NewResolvedMessage_def Message_Validate_def totalAccountCount_def message_limits
      validateMessageHeader_def validateCompiledInstructions_def validateInstruction_def
      validateAddressTableLookups_def LoadedAddresses_Validate_def no_addresses_def
      hasDuplicatePublicKeys_def ResolvedMessage_Validate_def IsWritableMessageAccount_def
      Resolved_StaticAccountMetas_def static_metas_def static_meta_def Let_def)
    (rule conjI; rule set_eqI; auto simp: less_Suc_eq image_iff
      conj_disj_distribR conj_disj_distribL ex_disj_distrib)

theorem locks_exclude_conflicts_witness:
  "\<exists>l. lock_step\<^sup>*\<^sup>* (NewAccountLockSet, []) (l, [locking_transaction 7]) \<and>
     (\<forall>b l'. TryLockTransaction l (locking_transaction 7) = Inr (b, l') \<longrightarrow> \<not> b) \<and>
     (\<exists>l'. TryLockTransaction l (locking_transaction 8) = Inr (True, l'))"
proof -
  define l where "l = \<lparr>readLocks = (\<lambda>a. if a = 5 then 1 else 0), writeLocks = {7}\<rparr>"
  have "TryLockTransaction NewAccountLockSet (locking_transaction 7) = Inr (True, l)"
    by (simp add: TryLockTransaction_def locking_accounts NewAccountLockSet_def l_def cong: if_cong)
  then have reach: "lock_step\<^sup>*\<^sup>* (NewAccountLockSet, []) (l, [locking_transaction 7])"
    by (intro r_into_rtranclp [of lock_step] lock_step.acquire)
  have "\<not> compatible (locking_transaction 7) (locking_transaction 7)"
    by (simp add: compatible_def writes_def locking_accounts)
  moreover have "\<exists>l'. TryLockTransaction l (locking_transaction 8) = Inr (True, l')"
    by (simp add: TryLockTransaction_def locking_accounts l_def)
  ultimately show ?thesis
    using reach locks_exclude_conflicts [OF reach] by (intro exI [of _ l]) auto
qed

end
