(* ===== verification/Execution.thy ===== *)
theory Execution
  imports Program_Runtime
begin

text \<open>
  \<open>structure/execution.go\<close> and the error part of \<open>structure/instruction_model.go\<close>: the result of
  executing a transaction and its validation. The text of an error is the error that it renders.
\<close>

section \<open>Model\<close>

definition TransactionStatusPending :: u16 where "TransactionStatusPending = 0"
definition TransactionStatusConfirmed :: u16 where "TransactionStatusConfirmed = 1"
definition TransactionStatusFailed :: u16 where "TransactionStatusFailed = 2"
definition TransactionStatusExpired :: u16 where "TransactionStatusExpired = 3"

lemmas status_defs = TransactionStatusPending_def TransactionStatusConfirmed_def
  TransactionStatusFailed_def TransactionStatusExpired_def

definition InstructionErrorCodeNone :: u16 where "InstructionErrorCodeNone = 0"
definition InstructionErrorCodeGeneric :: u16 where "InstructionErrorCodeGeneric = 1"
definition InstructionErrorCodeComputationalBudgetExceeded :: u16 where
  "InstructionErrorCodeComputationalBudgetExceeded = 9"

definition TransactionErrorCodeNone :: u16 where "TransactionErrorCodeNone = 0"
definition TransactionErrorCodeAccountLoadedTwice :: u16 where "TransactionErrorCodeAccountLoadedTwice = 2"
definition TransactionErrorCodeAccountNotFound :: u16 where "TransactionErrorCodeAccountNotFound = 3"
definition TransactionErrorCodeInsufficientFundsForFee :: u16 where
  "TransactionErrorCodeInsufficientFundsForFee = 5"
definition TransactionErrorCodeAlreadyProcessed :: u16 where "TransactionErrorCodeAlreadyProcessed = 7"
definition TransactionErrorCodeBlockhashNotFound :: u16 where "TransactionErrorCodeBlockhashNotFound = 8"
definition TransactionErrorCodeSignatureFailure :: u16 where "TransactionErrorCodeSignatureFailure = 9"
definition TransactionErrorCodeInvalidProgramForExecution :: u16 where
  "TransactionErrorCodeInvalidProgramForExecution = 10"
definition TransactionErrorCodeSanitizeFailure :: u16 where "TransactionErrorCodeSanitizeFailure = 11"
definition TransactionErrorCodeInvalidAddressLookupTable :: u16 where
  "TransactionErrorCodeInvalidAddressLookupTable = 12"
definition TransactionErrorCodeInstructionError :: u16 where "TransactionErrorCodeInstructionError = 14"

lemmas code_defs = InstructionErrorCodeNone_def InstructionErrorCodeGeneric_def
  InstructionErrorCodeComputationalBudgetExceeded_def TransactionErrorCodeNone_def
  TransactionErrorCodeAccountLoadedTwice_def TransactionErrorCodeAccountNotFound_def
  TransactionErrorCodeInsufficientFundsForFee_def TransactionErrorCodeAlreadyProcessed_def
  TransactionErrorCodeBlockhashNotFound_def TransactionErrorCodeSignatureFailure_def
  TransactionErrorCodeInvalidProgramForExecution_def TransactionErrorCodeSanitizeFailure_def
  TransactionErrorCodeInvalidAddressLookupTable_def TransactionErrorCodeInstructionError_def

record InstructionError =
  ie_index :: u16
  ie_code :: u16
  ie_message :: "runtime_error option"

record TransactionError =
  te_code :: u16
  te_message :: "runtime_error option"
  te_instruction :: "InstructionError option"

record InnerInstruction =
  ii_index :: u16
  ii_instructions :: "CompiledInstruction list"

record TokenBalance =
  tb_index :: u8
  tb_mint :: pubkey
  tb_owner :: pubkey
  tb_program :: pubkey
  tb_amount :: gostring
  tb_decimals :: u8

record ExecutionResult =
  er_success :: bool
  er_error :: "InstructionError option"
  er_logs :: "gostring list"
  er_return :: "TransactionReturnData option"
  er_units :: u64
  er_cost :: u64

record TransactionExecutionResult =
  x_status :: u16
  x_error :: "TransactionError option"
  x_fee :: FeeDetails
  x_pre :: "u64 list"
  x_post :: "u64 list"
  x_pre_tokens :: "TokenBalance list"
  x_post_tokens :: "TokenBalance list"
  x_inner :: "InnerInstruction list"
  x_logs :: "gostring list"
  x_return :: "TransactionReturnData option"
  x_units :: u64
  x_cost :: u64
  x_loaded :: LoadedAddresses
  x_written :: "AddressedAccount list"

definition InstructionError_Validate :: "InstructionError \<Rightarrow> structure_error + unit" where
  "InstructionError_Validate e =
     (if ie_code e = InstructionErrorCodeNone then Inl ErrInvalidExecutionResult else Inr ())"

definition TransactionError_Validate :: "TransactionError \<Rightarrow> structure_error + unit" where
  "TransactionError_Validate e =
     (if te_code e = TransactionErrorCodeNone then Inl ErrInvalidExecutionResult
      else if te_code e = TransactionErrorCodeInstructionError then
        (case te_instruction e of
           None \<Rightarrow> Inl ErrInvalidExecutionResult
         | Some i \<Rightarrow> InstructionError_Validate i)
      else Inr ())"

definition InnerInstruction_Validate :: "InnerInstruction \<Rightarrow> nat \<Rightarrow> structure_error + unit" where
  "InnerInstruction_Validate ii accountCount =
     (if ii_instructions ii = [] then Inl ErrInvalidExecutionResult
      else if MaxInstructionsPerTransaction < length (ii_instructions ii) then Inl ErrInvalidExecutionResult
      else rforall (\<lambda>i. validateInstruction i accountCount) (ii_instructions ii))"

definition ReturnData_Validate :: "TransactionReturnData \<Rightarrow> structure_error + unit" where
  "ReturnData_Validate r =
     (if MaxInstructionDataSize < length (rd_data r) then Inl ErrInvalidExecutionResult else Inr ())"

definition TokenBalance_Validate :: "TokenBalance \<Rightarrow> structure_error + unit" where
  "TokenBalance_Validate b = (if tb_amount b = [] then Inl ErrInvalidExecutionResult else Inr ())"

definition ExecutionResult_Validate :: "ExecutionResult \<Rightarrow> structure_error + unit" where
  "ExecutionResult_Validate r =
     (if er_success r \<and> er_error r \<noteq> None then Inl ErrInvalidExecutionResult
      else if \<not> er_success r \<and> er_error r = None then Inl ErrInvalidExecutionResult
      else case er_error r of
        Some e \<Rightarrow> InstructionError_Validate e
      | None \<Rightarrow> (case er_return r of Some d \<Rightarrow> ReturnData_Validate d | None \<Rightarrow> Inr ()))"

definition validateTokenBalances :: "TokenBalance list \<Rightarrow> structure_error + unit" where
  "validateTokenBalances bs = rforall TokenBalance_Validate bs"

definition validateWrittenAccounts :: "AddressedAccount list \<Rightarrow> structure_error + unit" where
  "validateWrittenAccounts as = rforall AddressedAccount_Validate as"

definition TransactionExecutionResult_Validate :: "TransactionExecutionResult \<Rightarrow> structure_error + unit" where
  "TransactionExecutionResult_Validate r =
     (if x_status r = TransactionStatusFailed \<and> x_error r = None then Inl ErrInvalidExecutionResult
      else if x_status r \<noteq> TransactionStatusFailed \<and> x_error r \<noteq> None then Inl ErrInvalidExecutionResult
      else if length (x_pre r) \<noteq> length (x_post r) then Inl ErrInvalidExecutionResult
      else
        rbind (case x_error r of None \<Rightarrow> Inr () | Some e \<Rightarrow> TransactionError_Validate e) (\<lambda>_.
        rbind (case x_return r of None \<Rightarrow> Inr () | Some d \<Rightarrow> ReturnData_Validate d) (\<lambda>_.
        rbind (validateTokenBalances (x_pre_tokens r)) (\<lambda>_.
        rbind (validateTokenBalances (x_post_tokens r)) (\<lambda>_.
          validateWrittenAccounts (x_written r))))))"

definition zero_fee_details :: FeeDetails where
  "zero_fee_details = \<lparr>f_signatures = 0, f_signature_fee = 0, f_compute_fee = 0, f_storage_fee = 0,
     f_base = 0, f_priority = 0, f_total = 0, f_burned = 0, f_validator = 0\<rparr>"

definition zero_result :: TransactionExecutionResult where
  "zero_result =
     \<lparr>x_status = 0, x_error = None, x_fee = zero_fee_details, x_pre = [], x_post = [],
      x_pre_tokens = [], x_post_tokens = [], x_inner = [], x_logs = [], x_return = None,
      x_units = 0, x_cost = 0, x_loaded = \<lparr>la_writable = [], la_readonly = []\<rparr>, x_written = []\<rparr>"

section \<open>Validated results\<close>

lemma validated_written:
  assumes "TransactionExecutionResult_Validate r = Inr ()" and "w \<in> set (x_written r)"
  shows "Account_Validate (aa_account w) = Inr ()"
  using assms
  by (auto simp: TransactionExecutionResult_Validate_def result_simps validateWrittenAccounts_def
      rforall_Inr AddressedAccount_Validate_def)

lemma validated_status:
  "TransactionExecutionResult_Validate r = Inr () \<Longrightarrow> x_status r = TransactionStatusFailed \<longleftrightarrow> x_error r \<noteq> None"
  by (auto simp: TransactionExecutionResult_Validate_def result_simps)

end
