(* ===== verification/Simulator.thy ===== *)
theory Simulator
  imports Execution System_Program Account_Locks Blockhash_Queue
begin

text \<open>
  \<open>runtime/simulator.go\<close>: the execution of one transaction on a snapshot of the accounts, from the
  checks before it runs through its instructions to the accounts it writes.
\<close>

section \<open>Input\<close>

text \<open>
  What the simulator takes from code outside the model: the decoder of shielded instructions and
  its storage charge, Ed25519 verification, and the id of a transaction without signatures.
\<close>

record host =
  hs_decode :: shielded_decoder
  hs_charge :: "ShieldedTransferInstruction \<Rightarrow> structure_error + u64"
  hs_verify :: ed25519_verify
  hs_unsigned_id :: "Transaction \<Rightarrow> structure_error + signature"

record TransactionSimulationInput =
  in_transaction :: Transaction
  in_accounts :: "AddressedAccount list"
  in_queue :: BlockhashQueue
  in_slot :: u64
  in_epoch :: u64
  in_calculator :: FeeCalculator
  in_budget :: ComputeBudgetLimits
  in_fee :: u64
  in_fee_source :: u8
  in_rent :: RentConfig
  in_programs :: BuiltinProgramIDs
  in_registry :: ProgramRegistry
  in_extra :: "(pubkey \<times> program_handler) option list"
  in_fallback :: "(pubkey \<times> program_handler) option"
  in_processed :: "gostring set"

definition TxID :: "host \<Rightarrow> Transaction \<Rightarrow> structure_error + signature" where
  "TxID h t =
     (case t_signatures t of
        s # _ \<Rightarrow> Inr s
      | [] \<Rightarrow> rbind (Transaction_Validate (hs_decode h) t) (\<lambda>_. hs_unsigned_id h t))"

definition TxIDString :: "host \<Rightarrow> Transaction \<Rightarrow> structure_error + gostring" where
  "TxIDString h t = rbind (TxID h t) (\<lambda>transactionID. Inr (Base58Encode (put_le 64 transactionID)))"

definition normalizeSimulationInput ::
    "host \<Rightarrow> TransactionSimulationInput \<Rightarrow> runtime_error + TransactionSimulationInput" where
  "normalizeSimulationInput h input =
     (let input = (if in_calculator input =
             \<lparr>fc_per_signature = 0, fc_unit_price = 0, fc_storage_price = 0, fc_burn_percent = 0\<rparr>
             then input\<lparr>in_calculator := DefaultFeeCalculator\<rparr> else input);
          input = (if in_rent input = \<lparr>rc_per_byte_year = 0, rc_years = 0, rc_overhead = 0\<rparr>
             then input\<lparr>in_rent := DefaultRentConfig\<rparr> else input);
          input = (if in_programs input = zero_programs
             then input\<lparr>in_programs := DefaultBuiltinProgramIDs\<rparr> else input)
      in
      rbind (wrap_err RStructure (EstimateTransactionComputeBudget (hs_decode h) (hs_charge h)
          (in_transaction input) (in_programs input))) (\<lambda>estimatedBudget.
        if in_budget input = \<lparr>cb_units = 0, cb_price = 0, cb_loaded = 0, cb_storage = 0, cb_heap = 0\<rparr>
          then Inr (input\<lparr>in_budget := estimatedBudget\<rparr>)
        else
          rbind (wrap_err RStructure (ComputeBudgetLimits_Validate (in_budget input))) (\<lambda>_.
            if cb_units (in_budget input) < cb_units estimatedBudget
              then Inl (RText ''declared compute budget is below estimated demand'')
            else Inr input)))"

section \<open>Compute units\<close>

definition accumulateComputeUnits :: "u64 \<Rightarrow> u64 \<Rightarrow> u64 \<Rightarrow> u64 \<times> bool" where
  "accumulateComputeUnits consumed instructionUnits limit =
     (if - 1 - consumed < instructionUnits then (- 1, True)
      else (consumed + instructionUnits, limit < consumed + instructionUnits))"

definition remainingComputeUnits :: "u64 \<Rightarrow> u64 \<Rightarrow> u64" where
  "remainingComputeUnits limit consumed = (if limit \<le> consumed then 0 else limit - consumed)"

section \<open>Accounts before execution\<close>

definition newSimulationProgramRegistry :: "TransactionSimulationInput \<Rightarrow> runtime_error + ProgramRegistry" where
  "newSimulationProgramRegistry input =
     rbind (case in_fallback input of
              None \<Rightarrow> Inr (in_registry input)
            | Some p \<Rightarrow> SetFallbackProgram (in_registry input) (Some p)) (\<lambda>registry.
       register_programs registry (in_extra input))"

fun account_map :: "ledger \<Rightarrow> AddressedAccount list \<Rightarrow> structure_error + ledger" where
  "account_map m [] = Inr m"
| "account_map m (a # as) =
     (if map_of m (aa_address a) \<noteq> None then Inl ErrInvalidLoadedTransaction
      else rbind (AddressedAccount_Validate a) (\<lambda>_. account_map (put_account (aa_address a) (aa_account a) m) as))"

definition accountMapFromAddressedAccounts :: "AddressedAccount list \<Rightarrow> structure_error + ledger" where
  "accountMapFromAddressedAccounts accounts = account_map [] accounts"

definition addMissing :: "pubkey \<Rightarrow> pubkey \<Rightarrow> ledger \<Rightarrow> ledger" where
  "addMissing address owner accounts =
     (if map_of accounts address \<noteq> None then accounts
      else put_account address (zero_account\<lparr>a_owner := owner\<rparr>) accounts)"

definition addMissingWritableSystemAccount :: "pubkey \<Rightarrow> BuiltinProgramIDs \<Rightarrow> ledger \<Rightarrow> ledger" where
  "addMissingWritableSystemAccount address p accounts = addMissing address (pid_System p) accounts"

definition addMissingBuiltinProgramPlaceholders :: "ResolvedMessage \<Rightarrow> BuiltinProgramIDs \<Rightarrow> ledger \<Rightarrow> ledger" where
  "addMissingBuiltinProgramPlaceholders m p accounts =
     foldl (\<lambda>accounts k. if \<not> IsBuiltinProgram p k then accounts else addMissing k (pid_NativeLoader p) accounts)
       accounts (rm_keys m)"

definition systemInstructionCreatesOrFundsDestination :: "u32 \<Rightarrow> bool" where
  "systemInstructionCreatesOrFundsDestination instructionType \<longleftrightarrow>
     instructionType = SystemInstructionCreateAccount \<or> instructionType = SystemInstructionTransfer"

definition addMissingSystemAccountPlaceholder ::
    "CompiledInstruction \<Rightarrow> ResolvedMessage \<Rightarrow> BuiltinProgramIDs \<Rightarrow> ledger \<Rightarrow> ledger" where
  "addMissingSystemAccountPlaceholder i m p accounts =
     (if length (ci_accounts i) < 2 then accounts
      else case UnmarshalSystemInstructionBinary (ci_data i) of
        Inl _ \<Rightarrow> accounts
      | Inr si \<Rightarrow>
          if \<not> systemInstructionCreatesOrFundsDestination (si_type si) then accounts
          else addMissingWritableSystemAccount (rm_keys m ! unat (ci_accounts i ! 1)) p accounts)"

definition isStakeRegisterValidatorInstruction :: "bytes \<Rightarrow> bool" where
  "isStakeRegisterValidatorInstruction data \<longleftrightarrow>
     (if length data < 4 then False else get_le (take 4 data) = (0 :: u32))"

definition addMissingStakeAccountPlaceholder ::
    "CompiledInstruction \<Rightarrow> ResolvedMessage \<Rightarrow> BuiltinProgramIDs \<Rightarrow> ledger \<Rightarrow> ledger" where
  "addMissingStakeAccountPlaceholder i m p accounts =
     (if length (ci_accounts i) < 2 \<or> \<not> isStakeRegisterValidatorInstruction (ci_data i) then accounts
      else addMissingWritableSystemAccount (rm_keys m ! unat (ci_accounts i ! 1)) p accounts)"

text \<open>One account of the shielded instruction, when its index is in the key table.\<close>

definition addMissingAt :: "u8 \<Rightarrow> ResolvedMessage \<Rightarrow> BuiltinProgramIDs \<Rightarrow> ledger \<Rightarrow> ledger" where
  "addMissingAt index m p accounts =
     (if unat index < length (rm_keys m)
      then addMissingWritableSystemAccount (rm_keys m ! unat index) p accounts else accounts)"

fun addMissingMarkers ::
    "CompiledInstruction \<Rightarrow> ResolvedMessage \<Rightarrow> BuiltinProgramIDs \<Rightarrow> nat \<Rightarrow> ShieldedAction list \<Rightarrow> ledger \<Rightarrow> ledger" where
  "addMissingMarkers i m p cursor [] accounts = accounts"
| "addMissingMarkers i m p cursor (action # actions) accounts =
     (if \<not> act_enabled_spend action then addMissingMarkers i m p cursor actions accounts
      else if length (ci_accounts i) \<le> cursor then accounts
      else addMissingMarkers i m p (cursor + 1) actions (addMissingAt (ci_accounts i ! cursor) m p accounts))"

definition addMissingShieldedAccountPlaceholders ::
    "shielded_decoder \<Rightarrow> CompiledInstruction \<Rightarrow> ResolvedMessage \<Rightarrow> BuiltinProgramIDs \<Rightarrow> ledger \<Rightarrow> ledger" where
  "addMissingShieldedAccountPlaceholders decode i m p accounts =
     (case decode (ci_data i) of
        Inl _ \<Rightarrow> accounts
      | Inr s \<Rightarrow>
          if ci_accounts i = [] then accounts
          else
            let cursor = (if 0 < sti_input s then 2 else 1) in
            if 0 < sti_output s then
              (if length (ci_accounts i) \<le> cursor then accounts
               else addMissingMarkers i m p (cursor + 1) (sti_actions s)
                      (addMissingAt (ci_accounts i ! cursor) m p accounts))
            else addMissingMarkers i m p cursor (sti_actions s) accounts)"

definition addMissingForInstruction ::
    "shielded_decoder \<Rightarrow> ResolvedMessage \<Rightarrow> BuiltinProgramIDs \<Rightarrow> CompiledInstruction \<Rightarrow> ledger \<Rightarrow> ledger" where
  "addMissingForInstruction decode m p i accounts =
     (if length (rm_keys m) \<le> unat (ci_program i) then accounts
      else
        let programID = rm_keys m ! unat (ci_program i) in
        if programID = pid_System p then addMissingSystemAccountPlaceholder i m p accounts
        else if programID = pid_Stake p then addMissingStakeAccountPlaceholder i m p accounts
        else if programID = pid_Shielded p then addMissingShieldedAccountPlaceholders decode i m p accounts
        else accounts)"

definition addMissingAccountPlaceholders ::
    "shielded_decoder \<Rightarrow> ResolvedMessage \<Rightarrow> BuiltinProgramIDs \<Rightarrow> ledger \<Rightarrow> ledger" where
  "addMissingAccountPlaceholders decode m p accounts =
     foldl (\<lambda>accounts i. addMissingForInstruction decode m p i accounts)
       (addMissingBuiltinProgramPlaceholders m p accounts) (rm_instructions m)"

definition loaded_account :: "ResolvedMessage \<Rightarrow> BuiltinProgramIDs \<Rightarrow> nat \<Rightarrow> account \<Rightarrow> LoadedAccount" where
  "loaded_account m p i a =
     (let metas = Resolved_StaticAccountMetas m; k = rm_keys m ! i in
      \<lparr>ld_address = k, ld_account = a,
       ld_signer = (i < length metas \<and> m_signer (metas ! i)),
       ld_writable = (if length metas \<le> i
          then i < length (rm_static_keys m) + length (la_writable (rm_loaded m))
          else m_writable (metas ! i)),
       ld_program = (IsBuiltinProgram p k \<or> a_executable a)\<rparr>)"

definition loadSimulationAccounts ::
    "ResolvedMessage \<Rightarrow> ledger \<Rightarrow> BuiltinProgramIDs \<Rightarrow> structure_error + LoadedAccount list" where
  "loadSimulationAccounts m accounts p =
     rmap (\<lambda>i. case map_of accounts (rm_keys m ! i) of
                 None \<Rightarrow> Inl ErrInvalidLoadedTransaction
               | Some a \<Rightarrow> Inr (loaded_account m p i a)) [0..<length (rm_keys m)]"

definition debitSimulationFee :: "pubkey \<Rightarrow> u64 \<Rightarrow> RentConfig \<Rightarrow> ledger \<Rightarrow> structure_error + ledger" where
  "debitSimulationFee feePayer totalFee rentConfig accounts =
     (case map_of accounts feePayer of
        None \<Rightarrow> Inl ErrInvalidLoadedTransaction
      | Some a \<Rightarrow>
          rbind (DebitLamports a totalFee rentConfig) (\<lambda>a. Inr (put_account feePayer a accounts)))"

definition cloneLoadedAccountsToMap :: "LoadedAccount list \<Rightarrow> ledger" where
  "cloneLoadedAccountsToMap accounts = foldl (\<lambda>m a. put_account (ld_address a) (ld_account a) m) [] accounts"

definition balancesFromLoadedAccounts :: "LoadedAccount list \<Rightarrow> u64 list" where
  "balancesFromLoadedAccounts accounts = map (\<lambda>a. a_lamports (ld_account a)) accounts"

definition balancesFromMessage :: "pubkey list \<Rightarrow> ledger \<Rightarrow> u64 list" where
  "balancesFromMessage keys accounts = map (\<lambda>k. a_lamports (get_account accounts k)) keys"

definition writtenAccountsFromMessage :: "pubkey list \<Rightarrow> ledger \<Rightarrow> AddressedAccount list" where
  "writtenAccountsFromMessage keys accounts =
     map (\<lambda>k. \<lparr>aa_address = k, aa_account = get_account accounts k\<rparr>) keys"

definition writtenAccountsFromLoadedAccounts :: "LoadedAccount list \<Rightarrow> AddressedAccount list" where
  "writtenAccountsFromLoadedAccounts accounts =
     map (\<lambda>a. \<lparr>aa_address = ld_address a, aa_account = ld_account a\<rparr>) accounts"

section \<open>Preparation\<close>

definition transactionFailure :: "u16 \<Rightarrow> runtime_error \<Rightarrow> TransactionError" where
  "transactionFailure code message = \<lparr>te_code = code, te_message = Some message, te_instruction = None\<rparr>"

definition instructionFailure :: "u16 \<Rightarrow> u16 \<Rightarrow> runtime_error \<Rightarrow> TransactionError" where
  "instructionFailure instructionIndex code message =
     \<lparr>te_code = TransactionErrorCodeInstructionError, te_message = None,
      te_instruction = Some \<lparr>ie_index = instructionIndex, ie_code = code, ie_message = Some message\<rparr>\<rparr>"

definition validateTransactionAuthorization ::
    "Transaction \<Rightarrow> OrdexusMessage \<Rightarrow> BuiltinProgramIDs \<Rightarrow> structure_error + unit" where
  "validateTransactionAuthorization t m p =
     (if 0 < h_required (msg_header m) then
        (if h_ro_signed (msg_header m) = h_required (msg_header m) then Inl ErrMissingWritableSigner
         else Inr ())
      else if t_signatures t \<noteq> [] then Inl ErrInvalidTransactionEncoding
      else if length (msg_instructions m) \<noteq> 1 then Inl ErrMissingRequiredSignature
      else
        let i = hd (msg_instructions m) in
        if length (msg_keys m) \<le> unat (ci_program i) \<or> msg_keys m ! unat (ci_program i) \<noteq> pid_Shielded p
          then Inl ErrMissingRequiredSignature
        else if ci_accounts i = [] \<or> hd (ci_accounts i) \<noteq> 0 then Inl ErrInvalidInstruction
        else
          let metas = StaticAccountMetas m in
          if metas = [] \<or> \<not> m_writable (hd metas) then Inl ErrInvalidInstruction else Inr ())"

text \<open>
  A step of \<open>prepareSimulation\<close> that fails returns the result with this status and error and the
  verdict of \<open>result.Validate()\<close>.
\<close>

definition fail_with :: "u16 \<Rightarrow> runtime_error \<Rightarrow> TransactionExecutionResult \<Rightarrow> TransactionExecutionResult" where
  "fail_with code message r =
     r\<lparr>x_status := TransactionStatusFailed, x_error := Some (transactionFailure code message)\<rparr>"

text \<open>The checks before any account is read: the resolved message and the fee, or the failure.\<close>

definition admit ::
    "host \<Rightarrow> TransactionSimulationInput \<Rightarrow> (u16 \<times> runtime_error) + ResolvedMessage \<times> FeeDetails" where
  "admit h input =
     (let t = in_transaction input; c = (\<lambda>code e. (code, RStructure e)) in
      rbind (wrap_err (c TransactionErrorCodeSanitizeFailure) (Transaction_Validate (hs_decode h) t)) (\<lambda>_.
      rbind (wrap_err (c TransactionErrorCodeSignatureFailure) (HasValidSignatures (hs_verify h) t)) (\<lambda>valid.
        if \<not> valid then Inl (TransactionErrorCodeSignatureFailure, RText ''signature verification failed'')
        else
      rbind (wrap_err (c TransactionErrorCodeSignatureFailure) (TxIDString h t)) (\<lambda>transactionID.
        if transactionID \<in> in_processed input
          then Inl (TransactionErrorCodeAlreadyProcessed, RText ''transaction already processed'')
        else
      rbind (wrap_err (c TransactionErrorCodeSanitizeFailure) (Transaction_OrdexusMessage t)) (\<lambda>m.
        if msg_uses_table m \<or> msg_lookups m \<noteq> []
          then Inl (TransactionErrorCodeInvalidAddressLookupTable, RText ''address table transactions'')
        else
      rbind (wrap_err (c TransactionErrorCodeSignatureFailure)
          (validateTransactionAuthorization t m (in_programs input))) (\<lambda>_.
        if \<not> BlockhashQueue_IsRecent (in_queue input) (msg_blockhash m) (in_slot input)
          then Inl (TransactionErrorCodeBlockhashNotFound, RText ''recent blockhash is not valid'')
        else
      rbind (wrap_err (c TransactionErrorCodeSanitizeFailure) (NewResolvedMessage m no_addresses)) (\<lambda>r.
      rbind (wrap_err (c TransactionErrorCodeInsufficientFundsForFee)
          (FeeCalculator_Calculate (in_calculator input) (int (length (t_signatures t))) (in_budget input))) (\<lambda>fee.
        Inr (r, fee)))))))))"

text \<open>The accounts of the message: the snapshot with its placeholders, and as they are loaded.\<close>

definition load_accounts ::
    "host \<Rightarrow> TransactionSimulationInput \<Rightarrow> ResolvedMessage \<Rightarrow> FeeDetails \<Rightarrow>
     (u16 \<times> runtime_error) + ledger \<times> LoadedTransaction" where
  "load_accounts h input r fee =
     (let c = (\<lambda>code e. (code, RStructure e)) in
      rbind (wrap_err (c TransactionErrorCodeAccountLoadedTwice)
          (accountMapFromAddressedAccounts (in_accounts input))) (\<lambda>accountStates.
      let accountStates = addMissingAccountPlaceholders (hs_decode h) r (in_programs input) accountStates in
      rbind (wrap_err (c TransactionErrorCodeAccountNotFound)
          (loadSimulationAccounts r accountStates (in_programs input))) (\<lambda>loadedAccounts.
      rbind (wrap_err (c TransactionErrorCodeSanitizeFailure)
          (NewLoadedTransaction (hs_decode h) (in_transaction input) r loadedAccounts fee)) (\<lambda>lt.
        Inr (accountStates, lt)))))"

definition prepareSimulation ::
    "host \<Rightarrow> TransactionSimulationInput \<Rightarrow>
     LoadedTransaction option \<times> TransactionExecutionResult \<times> (structure_error + unit)" where
  "prepareSimulation h input =
     (let reject = (\<lambda>(code, e) r. let r = fail_with code e r
                     in (None, r, TransactionExecutionResult_Validate r)) in
      case admit h input of
        Inl failure \<Rightarrow> reject failure zero_result
      | Inr (message, fee) \<Rightarrow>
      (case load_accounts h input message fee of
        Inl failure \<Rightarrow> reject failure zero_result
      | Inr (accountStates, lt) \<Rightarrow>
          let result = zero_result\<lparr>x_fee := fee, x_pre := balancesFromLoadedAccounts (lt_accounts lt),
                x_loaded := rm_loaded message\<rparr> in
          (case (if lt_fee_source lt = FeePaymentSourceTransparentAccount
                 then debitSimulationFee (lt_fee_payer lt) (f_total fee) (in_rent input) accountStates
                 else Inr accountStates) of
             Inl e \<Rightarrow>
               reject (TransactionErrorCodeInsufficientFundsForFee, RStructure e)
                 (result\<lparr>x_post := balancesFromMessage (rm_keys message) accountStates,
                    x_written := writtenAccountsFromMessage (rm_keys message) accountStates\<rparr>)
           | Inr accountStates \<Rightarrow>
               (case loadSimulationAccounts message accountStates (in_programs input) of
                  Inl e \<Rightarrow> reject (TransactionErrorCodeAccountNotFound, RStructure e) result
                | Inr loadedAccounts \<Rightarrow> (Some (lt\<lparr>lt_accounts := loadedAccounts\<rparr>), result, Inr ())))))"

section \<open>Execution\<close>

definition ExecuteInstructionSandbox ::
    "nat \<Rightarrow> CompiledInstruction \<Rightarrow> ResolvedMessage \<Rightarrow> ledger \<Rightarrow> TransactionSimulationInput \<Rightarrow>
     ProgramRegistry \<Rightarrow> u64 \<times> ProgramExecutionTrace \<times> (runtime_error + ledger)" where
  "ExecuteInstructionSandbox instructionIndex instruction message accounts input registry =
     run_sandbox
       \<lparr>ic_index = instructionIndex, ic_depth = 0, ic_instruction = instruction, ic_message = message,
        ic_accounts = accounts, ic_slot = in_slot input, ic_epoch = in_epoch input,
        ic_rent = in_rent input, ic_budget = in_budget input, ic_fee = in_fee input,
        ic_fee_source = in_fee_source input, ic_programs = in_programs input, ic_overrides = []\<rparr>
       registry"

definition SimulationLogInstructionSuccess :: gostring where
  "SimulationLogInstructionSuccess = ascii ''instruction success''"

definition SimulationLogTransactionSuccess :: gostring where
  "SimulationLogTransactionSuccess = ascii ''transaction success''"

definition add_trace :: "nat \<Rightarrow> ProgramExecutionTrace \<Rightarrow> TransactionExecutionResult \<Rightarrow> TransactionExecutionResult" where
  "add_trace instructionIndex trace r =
     r\<lparr>x_logs := x_logs r @ tr_logs trace,
       x_return := (case tr_return trace of None \<Rightarrow> x_return r | Some d \<Rightarrow> Some d),
       x_inner := (if tr_inner trace = [] then x_inner r
                   else x_inner r @ [\<lparr>ii_index = of_nat instructionIndex, ii_instructions = tr_inner trace\<rparr>])\<rparr>"

definition with_accounts :: "pubkey list \<Rightarrow> ledger \<Rightarrow> u64 \<Rightarrow> TransactionExecutionResult \<Rightarrow> TransactionExecutionResult" where
  "with_accounts keys accounts units r =
     r\<lparr>x_post := balancesFromMessage keys accounts, x_written := writtenAccountsFromMessage keys accounts,
       x_units := units, x_cost := units\<rparr>"

text \<open>A failed transaction goes back to the loaded accounts, which include a transparent fee.\<close>

definition roll_back :: "LoadedTransaction \<Rightarrow> TransactionError \<Rightarrow> u64 \<Rightarrow> TransactionExecutionResult \<Rightarrow> TransactionExecutionResult" where
  "roll_back lt e units r =
     with_accounts (rm_keys (lt_message lt)) (cloneLoadedAccountsToMap (lt_accounts lt)) units
       (r\<lparr>x_status := TransactionStatusFailed, x_error := Some e\<rparr>)"

datatype run = Stopped TransactionExecutionResult | Finished ledger u64 TransactionExecutionResult

fun run_instructions ::
    "TransactionSimulationInput \<Rightarrow> LoadedTransaction \<Rightarrow> ProgramRegistry \<Rightarrow> nat \<Rightarrow> CompiledInstruction list \<Rightarrow>
     ledger \<Rightarrow> u64 \<Rightarrow> TransactionExecutionResult \<Rightarrow> run" where
  "run_instructions input lt registry n [] accounts consumed result = Finished accounts consumed result"
| "run_instructions input lt registry n (i # is) accounts consumed result =
     (let limit = cb_units (in_budget input);
          instructionInput = input\<lparr>in_fee := f_total (lt_fee_details lt), in_fee_source := lt_fee_source lt,
            in_budget := (in_budget input)\<lparr>cb_units := remainingComputeUnits limit consumed\<rparr>\<rparr>;
          (units, trace, outcome) =
            ExecuteInstructionSandbox n i (lt_message lt) accounts instructionInput registry;
          result = add_trace n trace result;
          (consumed, exceeded) = accumulateComputeUnits consumed units limit
      in if exceeded then
           Stopped (roll_back lt (instructionFailure (of_nat n)
             InstructionErrorCodeComputationalBudgetExceeded (RText ''computational budget exceeded''))
             consumed result)
         else case outcome of
           Inl e \<Rightarrow> Stopped (roll_back lt (instructionFailure (of_nat n) InstructionErrorCodeGeneric e)
                           consumed result)
         | Inr accounts \<Rightarrow>
             run_instructions input lt registry (Suc n) is accounts consumed
               (result\<lparr>x_logs := x_logs result @ [SimulationLogInstructionSuccess]\<rparr>))"

definition finish :: "TransactionSimulationInput \<Rightarrow> LoadedTransaction \<Rightarrow> run \<Rightarrow> TransactionExecutionResult" where
  "finish input lt r =
     (case r of
        Stopped result \<Rightarrow> result
      | Finished accounts consumed result \<Rightarrow>
          (case (if lt_fee_source lt = FeePaymentSourceShieldedPool
                 then debitSimulationFee (lt_fee_payer lt) (f_total (lt_fee_details lt)) (in_rent input) accounts
                 else Inr accounts) of
             Inl e \<Rightarrow>
               roll_back lt (transactionFailure TransactionErrorCodeInsufficientFundsForFee (RStructure e))
                 consumed result
           | Inr accounts \<Rightarrow>
               (with_accounts (rm_keys (lt_message lt)) accounts consumed
                 (result\<lparr>x_status := TransactionStatusConfirmed\<rparr>))
                 \<lparr>x_logs := x_logs result @ [SimulationLogTransactionSuccess]\<rparr>))"

definition Simulate ::
    "host \<Rightarrow> TransactionSimulationInput \<Rightarrow> TransactionExecutionResult \<times> (structure_error + unit)" where
  "Simulate h input =
     (case normalizeSimulationInput h input of
        Inl e \<Rightarrow>
          let r = fail_with TransactionErrorCodeSanitizeFailure e zero_result
          in (r, TransactionExecutionResult_Validate r)
      | Inr input \<Rightarrow>
          (case prepareSimulation h input of
             (_, result, Inl e) \<Rightarrow> (result, Inl e)
           | (None, result, Inr _) \<Rightarrow> (result, Inr ())
           | (Some lt, result, Inr _) \<Rightarrow>
               (case newSimulationProgramRegistry input of
                  Inl e \<Rightarrow>
                    let r = (fail_with TransactionErrorCodeInvalidProgramForExecution e result)
                          \<lparr>x_post := balancesFromLoadedAccounts (lt_accounts lt),
                           x_written := writtenAccountsFromLoadedAccounts (lt_accounts lt)\<rparr>
                    in (r, TransactionExecutionResult_Validate r)
                | Inr registry \<Rightarrow>
                    let r = finish input lt (run_instructions input lt registry 0
                          (rm_instructions (lt_message lt)) (cloneLoadedAccountsToMap (lt_accounts lt)) 0 result)
                    in (r, TransactionExecutionResult_Validate r))))"

section \<open>Loaded accounts\<close>

lemma loaded_account_simps [simp]:
  "ld_address (loaded_account m p i a) = rm_keys m ! i" "ld_account (loaded_account m p i a) = a"
  by (simp_all add: loaded_account_def Let_def)

lemma loadSimulationAccounts_nth:
  assumes "loadSimulationAccounts m L p = Inr las"
  shows "length las = length (rm_keys m)"
    and "i < length (rm_keys m) \<Longrightarrow>
      ld_address (las ! i) = rm_keys m ! i \<and> map_of L (rm_keys m ! i) = Some (ld_account (las ! i))"
proof -
  show "length las = length (rm_keys m)"
    using length_rmap [OF assms [unfolded loadSimulationAccounts_def]] by simp
  show "ld_address (las ! i) = rm_keys m ! i \<and> map_of L (rm_keys m ! i) = Some (ld_account (las ! i))"
    if "i < length (rm_keys m)"
  proof (cases "map_of L (rm_keys m ! i)")
    case None
    then show ?thesis using rmap_nth [OF assms [unfolded loadSimulationAccounts_def], of i] that by simp
  next
    case (Some a)
    then have "las ! i = loaded_account m p i a"
      using rmap_nth [OF assms [unfolded loadSimulationAccounts_def], of i] that by simp
    with Some show ?thesis by simp
  qed
qed

lemma loadSimulationAccounts_set:
  assumes "loadSimulationAccounts m L p = Inr las"
  shows "ld_address ` set las = set (rm_keys m)" and "map ld_address las = rm_keys m"
    and "\<forall>a \<in> set las. map_of L (ld_address a) = Some (ld_account a)"
proof -
  note n = loadSimulationAccounts_nth [OF assms]
  show keys: "map ld_address las = rm_keys m"
    using n by (intro nth_equalityI) auto
  show "ld_address ` set las = set (rm_keys m)"
    by (metis keys list.set_map)
  show "\<forall>a \<in> set las. map_of L (ld_address a) = Some (ld_account a)"
    using n by (fastforce simp: in_set_conv_nth)
qed

lemma clone_snoc:
  "cloneLoadedAccountsToMap (as @ [a]) = put_account (ld_address a) (ld_account a) (cloneLoadedAccountsToMap as)"
  by (simp add: cloneLoadedAccountsToMap_def)

lemma map_of_clone:
  assumes "\<forall>a \<in> set as. f (ld_address a) = Some (ld_account a)"
  shows "map_of (cloneLoadedAccountsToMap as) k = (if k \<in> ld_address ` set as then f k else None)"
  using assms
proof (induction as rule: rev_induct)
  case Nil
  then show ?case by (simp add: cloneLoadedAccountsToMap_def)
next
  case (snoc a as)
  then show ?case by (auto simp: clone_snoc)
qed

lemma well_keyed_clone [simp]: "well_keyed (cloneLoadedAccountsToMap as)"
proof (induction as rule: rev_induct)
  case Nil
  then show ?case by (simp add: cloneLoadedAccountsToMap_def well_keyed_def)
next
  case (snoc a as)
  then show ?case by (simp add: clone_snoc)
qed

lemma loaded_clone:
  assumes "loadSimulationAccounts m L p = Inr las"
  shows "k \<in> set (rm_keys m) \<Longrightarrow> map_of (cloneLoadedAccountsToMap las) k = map_of L k"
    and "k \<notin> set (rm_keys m) \<Longrightarrow> map_of (cloneLoadedAccountsToMap las) k = None"
    and "k \<in> set (rm_keys m) \<Longrightarrow> map_of L k \<noteq> None"
proof -
  note facts = loadSimulationAccounts_set [OF assms]
  note clone = map_of_clone [OF facts(3), of k, unfolded facts(1)]
  show "k \<in> set (rm_keys m) \<Longrightarrow> map_of (cloneLoadedAccountsToMap las) k = map_of L k"
    and "k \<notin> set (rm_keys m) \<Longrightarrow> map_of (cloneLoadedAccountsToMap las) k = None"
    using clone by simp_all
  show "k \<in> set (rm_keys m) \<Longrightarrow> map_of L k \<noteq> None"
    using facts(1,3) by (metis imageE option.distinct(1))
qed

lemma debitSimulationFee_Inr:
  assumes "debitSimulationFee k n rc L = Inr L'"
  shows "n \<le> a_lamports (get_account L k)"
    and "get_account L' j = (if j = k then (get_account L k)\<lparr>a_lamports := a_lamports (get_account L k) - n\<rparr>
                            else get_account L j)"
    and "map_of L k \<noteq> None" and "map_of L' j = None \<longleftrightarrow> map_of L j = None"
  using assms
  by (auto simp: debitSimulationFee_def result_simps DebitLamports_Inr get_account_def
      split: option.splits if_splits)

section \<open>Inversion of the preparation\<close>

text \<open>The facts about a prepared transaction that the properties below rest on.\<close>

definition prepared ::
    "host \<Rightarrow> TransactionSimulationInput \<Rightarrow> ResolvedMessage \<Rightarrow> FeeDetails \<Rightarrow> ledger \<Rightarrow> ledger \<Rightarrow>
     LoadedTransaction \<Rightarrow> TransactionExecutionResult \<Rightarrow> bool" where
  "prepared h input m fee prior charged lt result \<longleftrightarrow>
     admit h input = Inr (m, fee) \<and>
     (\<exists>lt0. load_accounts h input m fee = Inr (prior, lt0) \<and>
        x_pre result = balancesFromLoadedAccounts (lt_accounts lt0)) \<and>
     ResolvedMessage_Validate m = Inr () \<and>
     lt_message lt = m \<and> lt_fee_details lt = fee \<and> lt_fee_payer lt = hd (rm_keys m) \<and>
     lt_fee_source lt = (if h_required (rm_header m) = 0 then FeePaymentSourceShieldedPool
                         else FeePaymentSourceTransparentAccount) \<and>
     (if h_required (rm_header m) = 0 then charged = prior
      else debitSimulationFee (hd (rm_keys m)) (f_total fee) (in_rent input) prior = Inr charged) \<and>
     loadSimulationAccounts m charged (in_programs input) = Inr (lt_accounts lt) \<and>
     x_status result = 0 \<and> x_error result = None \<and> x_fee result = fee"

lemma NewLoadedTransaction_Inr:
  assumes "NewLoadedTransaction decode t m las fee = Inr lt"
  shows "lt_message lt = m" and "lt_accounts lt = las" and "lt_fee_details lt = fee"
    and "lt_fee_payer lt = hd (rm_keys m)" and "ResolvedMessage_Validate m = Inr ()"
    and "lt_fee_source lt = (if h_required (rm_header m) = 0 then FeePaymentSourceShieldedPool
                             else FeePaymentSourceTransparentAccount)"
    and "rm_keys m \<noteq> []"
proof -
  have "LoadedTransaction_Validate decode lt = Inr ()" and
    lt: "lt = \<lparr>lt_transaction = t, lt_message = m, lt_accounts = las,
              lt_fee_payer = (case rm_keys m of [] \<Rightarrow> 0 | k # _ \<Rightarrow> k),
              lt_fee_source = (if h_required (rm_header m) = 0 then FeePaymentSourceShieldedPool
                               else FeePaymentSourceTransparentAccount), lt_fee_details = fee\<rparr>"
    using assms by (auto simp: NewLoadedTransaction_def result_simps Let_def)
  then show valid: "ResolvedMessage_Validate m = Inr ()"
    by (simp add: LoadedTransaction_Validate_def rbind_eq_Inr)
  then show "rm_keys m \<noteq> []" by (rule ResolvedMessage_Validate_facts(1))
  then show "lt_fee_payer lt = hd (rm_keys m)" by (simp add: lt split: list.split)
qed (use assms in \<open>auto simp: NewLoadedTransaction_def result_simps Let_def\<close>)

lemma load_accounts_Inr:
  assumes "load_accounts h input m fee = Inr (prior, lt)"
  obtains las where "loadSimulationAccounts m prior (in_programs input) = Inr las"
    and "NewLoadedTransaction (hs_decode h) (in_transaction input) m las fee = Inr lt"
  using assms by (auto simp: load_accounts_def result_simps Let_def)

lemma prepareSimulation_Some:
  assumes "prepareSimulation h input = (Some lt, result, Inr u)"
  obtains m fee prior charged where "prepared h input m fee prior charged lt result"
proof -
  obtain m fee prior lt0 where a: "admit h input = Inr (m, fee)"
    and l: "load_accounts h input m fee = Inr (prior, lt0)"
    using assms by (auto simp: prepareSimulation_def Let_def split: sum.splits)
  obtain las where n: "NewLoadedTransaction (hs_decode h) (in_transaction input) m las fee = Inr lt0"
    using l by (rule load_accounts_Inr)
  note lt0 = NewLoadedTransaction_Inr [OF n]
  obtain charged las' where c: "(if lt_fee_source lt0 = FeePaymentSourceTransparentAccount
        then debitSimulationFee (lt_fee_payer lt0) (f_total fee) (in_rent input) prior
        else Inr prior) = Inr charged"
    and las': "loadSimulationAccounts m charged (in_programs input) = Inr las'"
    and lt: "lt = lt0\<lparr>lt_accounts := las'\<rparr>"
    and result: "result = zero_result\<lparr>x_fee := fee, x_pre := balancesFromLoadedAccounts (lt_accounts lt0),
                x_loaded := rm_loaded m\<rparr>"
    using assms by (auto simp: prepareSimulation_def Let_def a l split: sum.splits)
  have "if h_required (rm_header m) = 0 then charged = prior
      else debitSimulationFee (hd (rm_keys m)) (f_total fee) (in_rent input) prior = Inr charged"
    using c lt0 by (auto simp: FeePaymentSourceTransparentAccount_def FeePaymentSourceShieldedPool_def
        split: if_splits)
  then have "prepared h input m fee prior charged lt result"
    using a l lt0 las' by (simp add: prepared_def lt result zero_result_def)
  then show ?thesis by (rule that)
qed

section \<open>The loop over the instructions\<close>

lemma accumulate_within:
  "accumulateComputeUnits c u l = (c', False) \<Longrightarrow> c' \<le> l \<and> unat c' = unat c + unat u"
proof -
  assume *: "accumulateComputeUnits c u l = (c', False)"
  then have "\<not> - 1 - c < u" and "c' = c + u" and "c' \<le> l"
    by (auto simp: accumulateComputeUnits_def not_less split: if_splits)
  moreover from this(1) have "safeAddUint64 u c = Inr (u + c)" by (simp add: safeAddUint64_def)
  then have "unat (u + c) = unat u + unat c" by (rule safeAddUint64_unat)
  ultimately show ?thesis by (simp add: add.commute)
qed

lemma roll_back_simps [simp]:
  "x_status (roll_back lt e u r) = TransactionStatusFailed" "x_error (roll_back lt e u r) = Some e"
  "x_pre (roll_back lt e u r) = x_pre r" "x_fee (roll_back lt e u r) = x_fee r"
  "x_written (roll_back lt e u r) =
     writtenAccountsFromMessage (rm_keys (lt_message lt)) (cloneLoadedAccountsToMap (lt_accounts lt))"
  "x_post (roll_back lt e u r) =
     balancesFromMessage (rm_keys (lt_message lt)) (cloneLoadedAccountsToMap (lt_accounts lt))"
  by (simp_all add: roll_back_def with_accounts_def)

lemma add_trace_simps [simp]:
  "x_status (add_trace n t r) = x_status r" "x_error (add_trace n t r) = x_error r"
  "x_pre (add_trace n t r) = x_pre r" "x_fee (add_trace n t r) = x_fee r"
  by (simp_all add: add_trace_def)

lemma run_Stopped:
  assumes "run_instructions inp lt reg n is accs c res = Stopped out"
  shows "x_status out = TransactionStatusFailed \<and> x_pre out = x_pre res \<and>
    x_written out = writtenAccountsFromMessage (rm_keys (lt_message lt)) (cloneLoadedAccountsToMap (lt_accounts lt)) \<and>
    x_post out = balancesFromMessage (rm_keys (lt_message lt)) (cloneLoadedAccountsToMap (lt_accounts lt))"
  using assms
  by (induction inp lt reg n "is" accs c res rule: run_instructions.induct)
    (fastforce simp: Let_def split: prod.splits if_splits sum.splits)+

lemma run_Finished:
  assumes "run_instructions inp lt reg n is accs c res = Finished L c' out"
    and "c \<le> cb_units (in_budget inp)"
  shows "c' \<le> cb_units (in_budget inp) \<and> x_pre out = x_pre res \<and> x_error out = x_error res"
  using assms
  by (induction inp lt reg n "is" accs c res rule: run_instructions.induct)
    (fastforce simp: Let_def dest: accumulate_within split: prod.splits if_splits sum.splits)+

lemma run_Finished_inv:
  assumes "run_instructions inp lt reg n is accs c res = Finished L c' out" and "P accs"
    and "\<And>n i accs L u tr inp'. i \<in> set is \<Longrightarrow> P accs \<Longrightarrow> in_programs inp' = in_programs inp \<Longrightarrow>
      ExecuteInstructionSandbox n i (lt_message lt) accs inp' reg = (u, tr, Inr L) \<Longrightarrow> P L"
  shows "P L"
  using assms
proof (induction "is" arbitrary: n accs c res)
  case (Cons i "is")
  define inp' where "inp' = inp\<lparr>in_fee := f_total (lt_fee_details lt), in_fee_source := lt_fee_source lt,
    in_budget := (in_budget inp)\<lparr>cb_units := remainingComputeUnits (cb_units (in_budget inp)) c\<rparr>\<rparr>"
  obtain u tr L1 where e: "ExecuteInstructionSandbox n i (lt_message lt) accs inp' reg = (u, tr, Inr L1)"
    using Cons.prems(1) by (auto simp: Let_def inp'_def split: prod.splits if_splits sum.splits)
  have "P L1"
    by (rule Cons.prems(3) [OF _ Cons.prems(2) _ e]) (simp_all add: inp'_def)
  moreover obtain n' c1 res' where "run_instructions inp lt reg n' is L1 c1 res' = Finished L c' out"
    using Cons.prems(1) e by (auto simp: Let_def inp'_def split: prod.splits if_splits)
  ultimately show ?case
    using Cons.IH Cons.prems(3) by (meson list.set_intros(2))
qed simp

end
