(* ===== verification/Simulation_Safety.thy ===== *)
theory Simulation_Safety
  imports Simulator
begin

text \<open>
  What the execution of a transaction guarantees to the ledger: a failed transaction leaves
  nothing behind but its fee, a confirmed one was authorised, kept its compute budget, wrote only
  accounts that its message declares writable and moved lamports without creating any.
\<close>

section \<open>The outcomes of a simulation\<close>

text \<open>Either the transaction was turned down before execution or it ran on prepared accounts.\<close>

lemma fail_with_simps [simp]:
  "x_status (fail_with code e r) = TransactionStatusFailed" "x_written (fail_with code e r) = x_written r"
  "x_error (fail_with code e r) = Some (transactionFailure code e)"
  by (simp_all add: fail_with_def)

lemma prepareSimulation_None:
  assumes "prepareSimulation h inp = (None, r, w)"
  shows "(\<exists>code e. r = fail_with code e zero_result) \<or>
    (\<exists>m fee prior lt. admit h inp = Inr (m, fee) \<and> load_accounts h inp m fee = Inr (prior, lt) \<and>
       x_status r = TransactionStatusFailed \<and>
       (x_written r = writtenAccountsFromMessage (rm_keys m) prior \<or> x_written r = []))"
proof (cases "admit h inp")
  case (Inl e)
  with assms show ?thesis by (auto simp: prepareSimulation_def Let_def split: prod.splits)
next
  case admitted: (Inr a)
  obtain m fee where a: "a = (m, fee)" by (cases a)
  show ?thesis
  proof (cases "load_accounts h inp m fee")
    case (Inl e)
    with assms admitted a show ?thesis by (auto simp: prepareSimulation_def Let_def split: prod.splits)
  next
    case (Inr b)
    obtain prior lt where b: "b = (prior, lt)" by (cases b)
    have "x_written zero_result = []" by (simp add: zero_result_def)
    then have "x_status r = TransactionStatusFailed \<and>
       (x_written r = writtenAccountsFromMessage (rm_keys m) prior \<or> x_written r = [])"
      using assms admitted a b Inr by (auto simp: prepareSimulation_def Let_def split: sum.splits)
    then show ?thesis using admitted Inr a b by blast
  qed
qed

lemma Simulate_cases:
  assumes "Simulate h input = (res, v)"
  obtains (rejected) code e where "res = fail_with code e zero_result"
  | (no_fee) inp m fee prior lt where "normalizeSimulationInput h input = Inr inp"
      and "admit h inp = Inr (m, fee)" and "load_accounts h inp m fee = Inr (prior, lt)"
      and "x_status res = TransactionStatusFailed"
      and "x_written res = writtenAccountsFromMessage (rm_keys m) prior \<or> x_written res = []"
  | (no_registry) inp m fee prior charged lt r where "normalizeSimulationInput h input = Inr inp"
      and "prepared h inp m fee prior charged lt r" and "x_status res = TransactionStatusFailed"
      and "x_written res = writtenAccountsFromLoadedAccounts (lt_accounts lt)"
  | (ran) inp m fee prior charged lt r reg where "normalizeSimulationInput h input = Inr inp"
      and "prepared h inp m fee prior charged lt r" and "newSimulationProgramRegistry inp = Inr reg"
      and "res = finish inp lt (run_instructions inp lt reg 0 (rm_instructions m)
             (cloneLoadedAccountsToMap (lt_accounts lt)) 0 r)"
proof (cases "normalizeSimulationInput h input")
  case (Inl e)
  then show ?thesis using assms that(1) by (auto simp: Simulate_def Let_def)
next
  case inp: (Inr inp)
  obtain lt r w where p: "prepareSimulation h inp = (lt, r, w)" by (cases "prepareSimulation h inp")
  show ?thesis
  proof (cases lt)
    case None
    with assms inp p have "res = r" by (auto simp: Simulate_def split: sum.splits)
    moreover have "prepareSimulation h inp = (None, r, w)" using p None by simp
    ultimately show ?thesis
      using prepareSimulation_None [of h inp r w] inp that(1,2) by blast
  next
    case (Some lt')
    then have "w = Inr ()"
      using p by (auto simp: prepareSimulation_def Let_def split: sum.splits prod.splits)
    with p Some have ps: "prepareSimulation h inp = (Some lt', r, Inr ())" by simp
    then obtain m fee prior charged where prep: "prepared h inp m fee prior charged lt' r"
      by (rule prepareSimulation_Some)
    then have "lt_message lt' = m" by (simp add: prepared_def)
    with assms inp ps that(3,4) prep show ?thesis
      by (cases "newSimulationProgramRegistry inp") (auto simp: Simulate_def Let_def fail_with_def)
  qed
qed

section \<open>A failed transaction\<close>

text \<open>The account of a key before execution, or with the fee taken from it.\<close>

definition at_most_charged :: "ResolvedMessage \<Rightarrow> FeeDetails \<Rightarrow> ledger \<Rightarrow> AddressedAccount \<Rightarrow> bool" where
  "at_most_charged m fee prior w \<longleftrightarrow>
     aa_account w = get_account prior (aa_address w) \<or>
     aa_address w = hd (rm_keys m) \<and> f_total fee \<le> a_lamports (get_account prior (aa_address w)) \<and>
     aa_account w = (get_account prior (aa_address w))
       \<lparr>a_lamports := a_lamports (get_account prior (aa_address w)) - f_total fee\<rparr>"

lemma written_keys: "w \<in> set (writtenAccountsFromMessage ks L) \<Longrightarrow>
    aa_address w \<in> set ks \<and> aa_account w = get_account L (aa_address w)"
  by (auto simp: writtenAccountsFromMessage_def)

lemma charged_account:
  assumes "prepared h inp m fee prior charged lt r"
  shows "get_account charged k = get_account prior k \<or>
    k = hd (rm_keys m) \<and> f_total fee \<le> a_lamports (get_account prior k) \<and>
    get_account charged k = (get_account prior k)\<lparr>a_lamports := a_lamports (get_account prior k) - f_total fee\<rparr>"
  using assms debitSimulationFee_Inr(1,2) [of "hd (rm_keys m)" "f_total fee" "in_rent inp" prior charged]
  by (auto simp: prepared_def split: if_splits)

lemma clone_account:
  assumes "prepared h inp m fee prior charged lt r" and "k \<in> set (rm_keys m)"
  shows "get_account (cloneLoadedAccountsToMap (lt_accounts lt)) k = get_account charged k"
  using assms loaded_clone(1) [of m charged "in_programs inp" "lt_accounts lt" k]
  by (simp add: prepared_def get_account_def)

lemma rolled_back:
  assumes "prepared h inp m fee prior charged lt r"
    and "w \<in> set (writtenAccountsFromMessage (rm_keys m) (cloneLoadedAccountsToMap (lt_accounts lt)))"
  shows "at_most_charged m fee prior w"
  using written_keys [OF assms(2)] clone_account [OF assms(1)] charged_account [OF assms(1), of "aa_address w"]
  by (auto simp: at_most_charged_def)

lemma written_loaded:
  assumes "prepared h inp m fee prior charged lt r"
    and "w \<in> set (writtenAccountsFromLoadedAccounts (lt_accounts lt))"
  shows "at_most_charged m fee prior w"
proof -
  have "loadSimulationAccounts m charged (in_programs inp) = Inr (lt_accounts lt)"
    using assms(1) by (simp add: prepared_def)
  from loadSimulationAccounts_set(3) [OF this] have "aa_account w = get_account charged (aa_address w)"
    using assms(2) by (auto simp: writtenAccountsFromLoadedAccounts_def get_account_def)
  with charged_account [OF assms(1), of "aa_address w"] show ?thesis by (auto simp: at_most_charged_def)
qed

lemma finish_failed:
  assumes "x_status (finish inp lt (run_instructions inp lt reg 0 is accs 0 r)) = TransactionStatusFailed"
  shows "x_written (finish inp lt (run_instructions inp lt reg 0 is accs 0 r)) =
    writtenAccountsFromMessage (rm_keys (lt_message lt)) (cloneLoadedAccountsToMap (lt_accounts lt))"
proof (cases "run_instructions inp lt reg 0 is accs 0 r")
  case (Stopped out)
  with run_Stopped [OF Stopped] show ?thesis by (simp add: finish_def)
next
  case (Finished L c out)
  with assms show ?thesis
    by (auto simp: finish_def with_accounts_def status_defs split: sum.splits)
qed

text \<open>
  C1: When the simulation of a transaction fails, for whatever reason, every account it hands
  back is the account as it was before, except that the fee payer may have been charged the fee,
  exactly, and only if it could afford it. No effect of any instruction survives, not even of
  those that succeeded before the failing one.
\<close>

theorem failed_transaction_pays_only_the_fee:
  assumes "Simulate h input = (res, v)" and "x_status res = TransactionStatusFailed"
    and "w \<in> set (x_written res)"
  shows "\<exists>inp m fee prior lt. normalizeSimulationInput h input = Inr inp \<and> admit h inp = Inr (m, fee) \<and>
           load_accounts h inp m fee = Inr (prior, lt) \<and> at_most_charged m fee prior w"
  using assms(1)
proof (cases rule: Simulate_cases)
  case (rejected code e)
  with assms(3) show ?thesis by (simp add: zero_result_def)
next
  case (no_fee inp m fee prior lt)
  have "at_most_charged m fee prior w"
    using no_fee(5) assms(3) written_keys [of w "rm_keys m" prior] by (auto simp: at_most_charged_def)
  with no_fee(1-3) show ?thesis by blast
next
  case (no_registry inp m fee prior charged lt r)
  with assms(3) show ?thesis using written_loaded [OF no_registry(2)] by (auto simp: prepared_def)
next
  case (ran inp m fee prior charged lt r reg)
  have "lt_message lt = m" using ran(2) by (simp add: prepared_def)
  then have "at_most_charged m fee prior w"
    using rolled_back [OF ran(2)] finish_failed [of inp lt reg "rm_instructions m"] assms(2,3) ran(4) by simp
  with ran(1,2) show ?thesis by (auto simp: prepared_def)
qed

section \<open>A confirmed transaction\<close>

definition confirmed_run ::
    "host \<Rightarrow> TransactionSimulationInput \<Rightarrow> TransactionSimulationInput \<Rightarrow> ResolvedMessage \<Rightarrow> FeeDetails \<Rightarrow>
     ledger \<Rightarrow> ledger \<Rightarrow> LoadedTransaction \<Rightarrow> TransactionExecutionResult \<Rightarrow> ProgramRegistry \<Rightarrow> ledger \<Rightarrow>
     ledger \<Rightarrow> TransactionExecutionResult \<Rightarrow> bool" where
  "confirmed_run h input inp m fee prior charged lt r reg L L' res \<longleftrightarrow>
     normalizeSimulationInput h input = Inr inp \<and> prepared h inp m fee prior charged lt r \<and>
     newSimulationProgramRegistry inp = Inr reg \<and>
     (\<exists>out. run_instructions inp lt reg 0 (rm_instructions m) (cloneLoadedAccountsToMap (lt_accounts lt)) 0 r =
        Finished L (x_units res) out) \<and>
     (if h_required (rm_header m) = 0
      then debitSimulationFee (hd (rm_keys m)) (f_total fee) (in_rent inp) L = Inr L' else L' = L) \<and>
     x_written res = writtenAccountsFromMessage (rm_keys m) L' \<and>
     x_post res = balancesFromMessage (rm_keys m) L' \<and> x_pre res = x_pre r"

lemma confirmed_cases:
  assumes "Simulate h input = (res, v)" and "x_status res = TransactionStatusConfirmed"
  obtains inp m fee prior charged lt r reg L L' where
    "confirmed_run h input inp m fee prior charged lt r reg L L' res"
  using assms(1)
proof (cases rule: Simulate_cases)
  case (rejected code e)
  with assms(2) show ?thesis by (simp add: status_defs)
next
  case no_fee
  with assms(2) show ?thesis by (simp add: status_defs)
next
  case no_registry
  with assms(2) show ?thesis by (simp add: status_defs)
next
  case (ran inp m fee prior charged lt r reg)
  show ?thesis
  proof (cases "run_instructions inp lt reg 0 (rm_instructions m) (cloneLoadedAccountsToMap (lt_accounts lt)) 0 r")
    case (Stopped out)
    with run_Stopped [OF Stopped] ran(4) assms(2) show ?thesis by (simp add: finish_def status_defs)
  next
    case (Finished L c out)
    note pre = run_Finished [OF Finished]
    have lt: "lt_message lt = m" "lt_fee_payer lt = hd (rm_keys m)" "lt_fee_details lt = fee"
      "lt_fee_source lt = (if h_required (rm_header m) = 0 then FeePaymentSourceShieldedPool
         else FeePaymentSourceTransparentAccount)"
      using ran(2) by (simp_all add: prepared_def)
    obtain L' where L': "if h_required (rm_header m) = 0
        then debitSimulationFee (hd (rm_keys m)) (f_total fee) (in_rent inp) L = Inr L' else L' = L"
      and res: "res = (with_accounts (rm_keys m) L' c (out\<lparr>x_status := TransactionStatusConfirmed\<rparr>))
                 \<lparr>x_logs := x_logs out @ [SimulationLogTransactionSuccess]\<rparr>"
      using ran(4) assms(2)
      by (auto simp: Finished finish_def lt FeePaymentSourceShieldedPool_def
          FeePaymentSourceTransparentAccount_def status_defs split: sum.splits if_splits)
    have "confirmed_run h input inp m fee prior charged lt r reg L L' res"
      using ran(1-3) Finished L' pre by (simp add: confirmed_run_def res with_accounts_def)
    then show ?thesis by (rule that)
  qed
qed

text \<open>
  C2: A confirmed transaction was authorised: it validates, every required signature verifies, its
  id was not processed before, its block hash is in the recent window, it uses no address table,
  its fee payer covered the fee, and it consumed no more compute units than its budget.
\<close>

theorem confirmed_transaction_was_authorised:
  assumes "Simulate h input = (res, v)" and "x_status res = TransactionStatusConfirmed"
  shows "\<exists>inp m i. normalizeSimulationInput h input = Inr inp \<and>
     Transaction_Validate (hs_decode h) (in_transaction inp) = Inr () \<and>
     HasValidSignatures (hs_verify h) (in_transaction inp) = Inr True \<and>
     TxIDString h (in_transaction inp) = Inr i \<and> i \<notin> in_processed inp \<and>
     Transaction_OrdexusMessage (in_transaction inp) = Inr m \<and> \<not> msg_uses_table m \<and> msg_lookups m = [] \<and>
     BlockhashQueue_IsRecent (in_queue inp) (msg_blockhash m) (in_slot inp) \<and>
     x_units res \<le> cb_units (in_budget inp)"
  using assms
proof (rule confirmed_cases)
  fix inp m fee prior charged lt r reg L L'
  assume run: "confirmed_run h input inp m fee prior charged lt r reg L L' res"
  then have "admit h inp = Inr (m, fee)" and n: "normalizeSimulationInput h input = Inr inp"
    by (simp_all add: confirmed_run_def prepared_def)
  moreover have "x_units res \<le> cb_units (in_budget inp)"
    using run run_Finished [of inp lt reg 0 "rm_instructions m" _ 0 r L "x_units res"]
    by (auto simp: confirmed_run_def)
  ultimately show ?thesis
    unfolding admit_def Let_def rbind_eq_Inr wrap_err_eq_Inr if_Inl_eq_Inr by auto
qed

section \<open>Writes of a confirmed transaction\<close>

lemma sandbox_accepts:
  assumes "ExecuteInstructionSandbox n i m accs inp reg = (u, tr, Inr L)"
  obtains c where "ic_accounts c = accs" and "ic_message c = m" and "ic_instruction c = i"
    and "po_result (Registry_Execute reg c) = Inr L"
    and "ValidateInstructionWrites i m accs L (in_programs inp) = Inr ()"
proof -
  define c where "c = \<lparr>ic_index = n, ic_depth = 0, ic_instruction = i, ic_message = m, ic_accounts = accs,
    ic_slot = in_slot inp, ic_epoch = in_epoch inp, ic_rent = in_rent inp, ic_budget = in_budget inp,
    ic_fee = in_fee inp, ic_fee_source = in_fee_source inp, ic_programs = in_programs inp, ic_overrides = []\<rparr>"
  have "run_sandbox c reg = (u, tr, Inr L)"
    using assms by (simp add: ExecuteInstructionSandbox_def c_def)
  from run_sandbox_Inr(2,3) [OF this] that [of c] show ?thesis by (simp add: c_def)
qed

lemma fee_payer_writable:
  assumes "admit h inp = Inr (m, fee)"
  shows "hd (rm_keys m) \<in> writableAccountSet m"
proof -
  obtain om where auth: "validateTransactionAuthorization (in_transaction inp) om (in_programs inp) = Inr ()"
    and res: "NewResolvedMessage om no_addresses = Inr m"
    using assms unfolding admit_def Let_def rbind_eq_Inr wrap_err_eq_Inr if_Inl_eq_Inr by auto
  note m = NewResolvedMessage_Inr [OF res]
  note facts = ResolvedMessage_Validate_facts [OF m(1)]
  have keys: "rm_keys m = msg_keys om" "rm_static_keys m = msg_keys om" "msg_keys om \<noteq> []"
    using m(2,3) facts(1) by (auto simp: no_addresses_def)
  have "m_writable (static_meta (msg_header om) (length (msg_keys om)) 0 (msg_keys om ! 0))"
  proof (cases "0 < h_required (msg_header om)")
    case True
    then have "h_ro_signed (msg_header om) \<noteq> h_required (msg_header om)"
      using auth by (auto simp: validateTransactionAuthorization_def split: if_splits)
    moreover have "h_ro_signed (msg_header om) \<le> h_required (msg_header om)"
      using facts(4) by (auto simp: validateMessageHeader_def m(4) result_simps not_less)
    ultimately have "uint (h_ro_signed (msg_header om)) < uint (h_required (msg_header om))"
      by (simp add: word_less_def [symmetric])
    moreover have "0 \<le> uint (h_ro_signed (msg_header om))" by simp
    ultimately have "0 < uint (h_required (msg_header om))"
      and "\<not> uint (h_required (msg_header om)) \<le> uint (h_ro_signed (msg_header om))" by linarith+
    then show ?thesis by (simp add: static_meta_def Let_def)
  next
    case False
    then have "m_writable (hd (StaticAccountMetas om))"
      using auth by (auto simp: validateTransactionAuthorization_def Let_def result_simps)
    then show ?thesis
      using keys(3) by (simp add: StaticAccountMetas_def static_metas_def hd_conv_nth)
  qed
  then have "IsWritableMessageAccount 0 m"
    using keys by (simp add: IsWritableMessageAccount_def Resolved_StaticAccountMetas_def static_metas_def m(4) Let_def)
  then show ?thesis
    using facts(1) by (auto simp: in_writableAccountSet hd_conv_nth)
qed

text \<open>What is asked of the programs: no account disappears; lamports are conserved on a message.\<close>

definition keeps_accounts :: "ProgramRegistry \<Rightarrow> bool" where
  "keeps_accounts reg \<longleftrightarrow>
     (\<forall>c L k. po_result (Registry_Execute reg c) = Inr L \<longrightarrow> map_of (ic_accounts c) k \<noteq> None \<longrightarrow>
        map_of L k \<noteq> None)"

definition conserves_on :: "ProgramRegistry \<Rightarrow> ResolvedMessage \<Rightarrow> bool" where
  "conserves_on reg m \<longleftrightarrow>
     (\<forall>c L. ic_message c = m \<longrightarrow> ic_instruction c \<in> set (rm_instructions m) \<longrightarrow> well_keyed (ic_accounts c) \<longrightarrow>
        po_result (Registry_Execute reg c) = Inr L \<longrightarrow>
        well_keyed L \<and> total_lamports L = total_lamports (ic_accounts c))"

text \<open>
  C3: If no program deletes an account from its map, a confirmed transaction changed only
  accounts that its message declares writable: every other account it hands back is the account
  as it was loaded.
\<close>

theorem confirmed_transaction_writes_only_writable:
  assumes "Simulate h input = (res, v)" and "x_status res = TransactionStatusConfirmed"
    and "\<forall>inp reg. normalizeSimulationInput h input = Inr inp \<longrightarrow>
           newSimulationProgramRegistry inp = Inr reg \<longrightarrow> keeps_accounts reg"
  shows "\<exists>inp m fee prior lt. normalizeSimulationInput h input = Inr inp \<and> admit h inp = Inr (m, fee) \<and>
           load_accounts h inp m fee = Inr (prior, lt) \<and>
           (\<forall>w \<in> set (x_written res). aa_address w \<notin> writableAccountSet m \<longrightarrow>
              aa_account w = get_account prior (aa_address w))"
  using assms(1,2)
proof (rule confirmed_cases)
  fix inp m fee prior charged lt r reg L L'
  assume run: "confirmed_run h input inp m fee prior charged lt r reg L L' res"
  then have n: "normalizeSimulationInput h input = Inr inp" and prep: "prepared h inp m fee prior charged lt r"
    and reg: "newSimulationProgramRegistry inp = Inr reg"
    by (simp_all add: confirmed_run_def)
  then have a: "admit h inp = Inr (m, fee)" and lt: "lt_message lt = m"
    by (simp_all add: prepared_def)
  note payer = fee_payer_writable [OF a]
  have keeps: "keeps_accounts reg" using assms(3) n reg by blast
  define start where "start = cloneLoadedAccountsToMap (lt_accounts lt)"
  have "\<forall>k. k \<notin> writableAccountSet m \<longrightarrow> map_of L k = map_of start k"
  proof -
    obtain out where "run_instructions inp lt reg 0 (rm_instructions m) start 0 r = Finished L (x_units res) out"
      using run by (auto simp: confirmed_run_def start_def)
    then show ?thesis
    proof (rule run_Finished_inv [where P = "\<lambda>A. \<forall>k. k \<notin> writableAccountSet m \<longrightarrow> map_of A k = map_of start k"])
      fix n i A B u tr inp'
      assume A: "\<forall>k. k \<notin> writableAccountSet m \<longrightarrow> map_of A k = map_of start k"
        and e: "ExecuteInstructionSandbox n i (lt_message lt) A inp' reg = (u, tr, Inr B)"
      obtain c where c: "ic_accounts c = A" "po_result (Registry_Execute reg c) = Inr B"
          "ValidateInstructionWrites i m A B (in_programs inp') = Inr ()"
        using e lt by (rule_tac sandbox_accepts [of n i m A inp' reg u tr B]) simp_all
      have "map_of B k = map_of A k" if "k \<notin> writableAccountSet m" for k
        using keeps [unfolded keeps_accounts_def, rule_format, OF c(2), of k] ValidateInstructionWrites_Inr [OF c(3), of k] that c(1)
        by (cases "map_of B k"; cases "map_of A k") auto
      with A show "\<forall>k. k \<notin> writableAccountSet m \<longrightarrow> map_of B k = map_of start k" by simp
    qed simp
  qed
  moreover have "get_account L' k = get_account L k" if "k \<notin> writableAccountSet m" for k
    using run payer that debitSimulationFee_Inr(2) by (auto simp: confirmed_run_def split: if_splits)
  moreover have "get_account start k = get_account prior k" if "k \<in> set (rm_keys m)" "k \<notin> writableAccountSet m" for k
    using clone_account [OF prep that(1)] charged_account [OF prep, of k] that(2) payer by (auto simp: start_def)
  ultimately have "aa_account w = get_account prior (aa_address w)"
    if "w \<in> set (x_written res)" "aa_address w \<notin> writableAccountSet m" for w
    using that run written_keys [of w "rm_keys m" L'] by (simp add: confirmed_run_def get_account_def)
  with n a prep show ?thesis by (auto simp: prepared_def)
qed

section \<open>Conservation through a whole transaction\<close>

lemma sum_balancesFromMessage:
  "distinct ks \<Longrightarrow> sum_list (map unat (balancesFromMessage ks L)) = sum (balance L) (set ks)"
  by (simp add: balancesFromMessage_def balance_def sum_list_distinct_conv_sum_set comp_def)

lemma sum_balances_total:
  "distinct ks \<Longrightarrow> well_keyed L \<Longrightarrow> fst ` set L \<subseteq> set ks \<Longrightarrow> sum (balance L) (set ks) = total_lamports L"
  by (rule total_lamports_sum [symmetric]) auto

lemma loaded_balances:
  assumes "loadSimulationAccounts m L p = Inr las"
  shows "balancesFromLoadedAccounts las = balancesFromMessage (rm_keys m) L"
proof -
  have "a_lamports (ld_account a) = a_lamports (get_account L (ld_address a))" if "a \<in> set las" for a
    using loadSimulationAccounts_set(3) [OF assms] that by (auto simp: get_account_def)
  then show ?thesis
    by (simp add: balancesFromLoadedAccounts_def balancesFromMessage_def
        loadSimulationAccounts_set(2) [OF assms, symmetric])
qed

lemma debit_sum:
  assumes "debitSimulationFee k n rc L = Inr L'" and "finite K" and "k \<in> K"
  shows "sum (balance L') K + unat n = sum (balance L) K"
proof -
  note d = debitSimulationFee_Inr [OF assms(1)]
  have "balance L' k + unat n = balance L k"
    using d(1) by (simp add: balance_def d(2) unat_sub word_le_nat_alt)
  moreover have "sum (balance L') (K - {k}) = sum (balance L) (K - {k})"
    by (intro sum.cong) (auto simp: balance_def d(2))
  ultimately show ?thesis
    using assms(2,3) by (simp add: sum.remove)
qed

lemma accepted_keys:
  assumes "ValidateInstructionWrites i m A B p = Inr ()" and "fst ` set A \<subseteq> set (rm_keys m)"
  shows "fst ` set B \<subseteq> set (rm_keys m)"
proof
  fix k
  assume "k \<in> fst ` set B"
  then obtain b where b: "map_of B k = Some b" by (metis map_of_eq_None_iff option.exhaust)
  show "k \<in> set (rm_keys m)"
    using ValidateInstructionWrites_Inr [OF assms(1) b] assms(2)
    by (auto simp: in_writableAccountSet dest!: map_of_SomeD)
qed

lemma pre_balances:
  assumes "prepared h inp m fee prior charged lt r"
  shows "x_pre r = balancesFromMessage (rm_keys m) prior"
proof -
  obtain lt0 where l: "load_accounts h inp m fee = Inr (prior, lt0)"
    and x: "x_pre r = balancesFromLoadedAccounts (lt_accounts lt0)"
    using assms by (auto simp: prepared_def)
  obtain las where "loadSimulationAccounts m prior (in_programs inp) = Inr las"
    and "NewLoadedTransaction (hs_decode h) (in_transaction inp) m las fee = Inr lt0"
    using l by (rule load_accounts_Inr)
  with x show ?thesis using NewLoadedTransaction_Inr(2) loaded_balances by metis
qed

lemma run_keeps_total:
  assumes prep: "prepared h inp m fee prior charged lt r"
    and run: "run_instructions inp lt reg 0 (rm_instructions m) (cloneLoadedAccountsToMap (lt_accounts lt)) 0 r =
      Finished L units out"
    and conserving: "conserves_on reg m"
  shows "sum (balance L) (set (rm_keys m)) = sum (balance charged) (set (rm_keys m))"
proof -
  define start where "start = cloneLoadedAccountsToMap (lt_accounts lt)"
  have las: "loadSimulationAccounts m charged (in_programs inp) = Inr (lt_accounts lt)"
    and lt: "lt_message lt = m" and d: "distinct (rm_keys m)"
    using prep ResolvedMessage_Validate_facts(3) by (auto simp: prepared_def)
  have inside: "fst ` set start \<subseteq> set (rm_keys m)"
    using loaded_clone(2) [OF las] by (auto simp: start_def map_of_eq_None_iff image_iff)
  have "well_keyed L \<and> fst ` set L \<subseteq> set (rm_keys m) \<and> total_lamports L = total_lamports start"
    using run
  proof (rule run_Finished_inv [where P = "\<lambda>A. well_keyed A \<and> fst ` set A \<subseteq> set (rm_keys m) \<and>
        total_lamports A = total_lamports start"], fold start_def)
    show "well_keyed start \<and> fst ` set start \<subseteq> set (rm_keys m) \<and> total_lamports start = total_lamports start"
      using inside by (simp add: start_def)
    fix n i A B u tr inp'
    assume i: "i \<in> set (rm_instructions m)"
      and A: "well_keyed A \<and> fst ` set A \<subseteq> set (rm_keys m) \<and> total_lamports A = total_lamports start"
      and e: "ExecuteInstructionSandbox n i (lt_message lt) A inp' reg = (u, tr, Inr B)"
    obtain c where c: "ic_accounts c = A" "ic_message c = m" "ic_instruction c = i"
        "po_result (Registry_Execute reg c) = Inr B"
        "ValidateInstructionWrites i m A B (in_programs inp') = Inr ()"
      using e lt by (rule_tac sandbox_accepts [of n i m A inp' reg u tr B]) simp_all
    have "fst ` set B \<subseteq> set (rm_keys m)" using accepted_keys [OF c(5)] A by simp
    with conserving [unfolded conserves_on_def, rule_format, OF c(2) _ _ c(4)] i A c(1,3)
    show "well_keyed B \<and> fst ` set B \<subseteq> set (rm_keys m) \<and> total_lamports B = total_lamports start" by simp
  qed
  then have "sum (balance L) (set (rm_keys m)) = sum (balance start) (set (rm_keys m))"
    using inside sum_balances_total [OF d] by (simp add: start_def)
  also have "\<dots> = sum (balance charged) (set (rm_keys m))"
    using clone_account [OF prep] by (intro sum.cong) (auto simp: start_def balance_def)
  finally show ?thesis .
qed

text \<open>
  C4: If the programs conserve lamports on the instructions of the message, a confirmed
  transaction conserves them up to its fee: over the accounts of the message, the balances after
  it plus the fee are the balances before it.
\<close>

theorem confirmed_transaction_conserves_lamports:
  assumes "Simulate h input = (res, v)" and "x_status res = TransactionStatusConfirmed"
    and "\<forall>inp m fee reg. normalizeSimulationInput h input = Inr inp \<longrightarrow> admit h inp = Inr (m, fee) \<longrightarrow>
           newSimulationProgramRegistry inp = Inr reg \<longrightarrow> conserves_on reg m"
  shows "\<exists>inp m fee. normalizeSimulationInput h input = Inr inp \<and> admit h inp = Inr (m, fee) \<and>
           sum_list (map unat (x_post res)) + unat (f_total fee) = sum_list (map unat (x_pre res))"
  using assms(1,2)
proof (rule confirmed_cases)
  fix inp m fee prior charged lt r reg L L'
  assume run: "confirmed_run h input inp m fee prior charged lt r reg L L' res"
  then have n: "normalizeSimulationInput h input = Inr inp" and prep: "prepared h inp m fee prior charged lt r"
    and reg: "newSimulationProgramRegistry inp = Inr reg"
    by (simp_all add: confirmed_run_def)
  from prep have a: "admit h inp = Inr (m, fee)"
    and fee: "if h_required (rm_header m) = 0 then charged = prior
      else debitSimulationFee (hd (rm_keys m)) (f_total fee) (in_rent inp) prior = Inr charged"
    and valid: "ResolvedMessage_Validate m = Inr ()"
    by (simp_all add: prepared_def)
  note facts = ResolvedMessage_Validate_facts(1,3) [OF valid]
  obtain out where finished: "run_instructions inp lt reg 0 (rm_instructions m)
      (cloneLoadedAccountsToMap (lt_accounts lt)) 0 r = Finished L (x_units res) out"
    using run by (auto simp: confirmed_run_def)
  have ran: "sum (balance L) (set (rm_keys m)) = sum (balance charged) (set (rm_keys m))"
    using assms(3) n a reg by (intro run_keeps_total [OF prep finished]) blast
  have payer: "hd (rm_keys m) \<in> set (rm_keys m)" using facts(1) by simp
  have "sum (balance L') (set (rm_keys m)) + unat (f_total fee) = sum (balance prior) (set (rm_keys m))"
  proof (cases "h_required (rm_header m) = 0")
    case True
    then have "debitSimulationFee (hd (rm_keys m)) (f_total fee) (in_rent inp) L = Inr L'"
      using run by (simp add: confirmed_run_def)
    from debit_sum [OF this _ payer] ran True fee show ?thesis by simp
  next
    case False
    then have "L' = L" using run by (simp add: confirmed_run_def)
    with False fee debit_sum [OF _ _ payer] ran show ?thesis by simp
  qed
  moreover have "x_post res = balancesFromMessage (rm_keys m) L'" and "x_pre res = x_pre r"
    using run by (simp_all add: confirmed_run_def)
  ultimately show ?thesis
    using n a facts(2) pre_balances [OF prep] by (auto simp: sum_balancesFromMessage)
qed

section \<open>A transfer, executed\<close>

text \<open>
  The concrete transaction of the witnesses: account 5 signs and sends 1000000 lamports to account 8
  through the system program; the fee is 5000 lamports.
\<close>

definition sim_instruction :: CompiledInstruction where
  "sim_instruction = \<lparr>ci_program = 2, ci_accounts = [0, 1], ci_data = transfer_octets\<rparr>"

definition sim_message :: OrdexusMessage where
  "sim_message =
     \<lparr>msg_header = \<lparr>h_required = 1, h_ro_signed = 0, h_ro_unsigned = 1\<rparr>, msg_keys = [5, 8, 0],
      msg_blockhash = 9, msg_instructions = [sim_instruction], msg_lookups = [], msg_version = 0,
      msg_uses_table = False\<rparr>"

definition sim_resolved :: ResolvedMessage where
  "sim_resolved =
     \<lparr>rm_header = \<lparr>h_required = 1, h_ro_signed = 0, h_ro_unsigned = 1\<rparr>, rm_static_keys = [5, 8, 0],
      rm_loaded = no_addresses, rm_keys = [5, 8, 0], rm_blockhash = 9,
      rm_instructions = [sim_instruction]\<rparr>"

definition sim_transaction :: Transaction where
  "sim_transaction =
     \<lparr>t_signatures = [5], t_accounts = [], t_instructions = [], t_blockhash = 0, t_message = sim_message,
      t_fee = 0, t_size = 0, t_submit = 0, t_status = 0\<rparr>"

definition sim_host :: host where
  "sim_host = \<lparr>hs_decode = no_shielded, hs_charge = no_charge, hs_verify = toy_verify,
     hs_unsigned_id = (\<lambda>_. Inl ErrInvalidInstruction)\<rparr>"

definition sim_input :: "ProgramRegistry \<Rightarrow> TransactionSimulationInput" where
  "sim_input reg =
     \<lparr>in_transaction = sim_transaction,
      in_accounts = [\<lparr>aa_address = 5, aa_account = rich 5000000\<rparr>, \<lparr>aa_address = 8, aa_account = rich 1000000\<rparr>],
      in_queue = \<lparr>bq_entries = [sample_entry 9 3], bq_max_age = 150\<rparr>, in_slot = 4, in_epoch = 0,
      in_calculator = DefaultFeeCalculator, in_budget = DefaultComputeBudgetLimits\<lparr>cb_units := 3000\<rparr>,
      in_fee = 0, in_fee_source = 0,
      in_rent = DefaultRentConfig, in_programs = sample_programs, in_registry = reg,
      in_extra = [], in_fallback = None, in_processed = {}\<rparr>"

definition system_registry :: ProgramRegistry where
  "system_registry =
     \<lparr>pr_programs = [(0, \<lparr>ps_id = 0, ps_name = [115]\<rparr>, system_handler)], pr_names = [([115], 0)],
      pr_fallback = None\<rparr>"

definition sim_fee :: FeeDetails where
  "sim_fee = \<lparr>f_signatures = 1, f_signature_fee = 5000, f_compute_fee = 0, f_storage_fee = 0, f_base = 5000,
     f_priority = 0, f_total = 5000, f_burned = 2500, f_validator = 2500\<rparr>"

lemma sim_message_valid: "Message_Validate sim_message = Inr ()"
  by (simp add: sim_message_def sim_instruction_def Message_Validate_def totalAccountCount_def message_limits
      validateMessageHeader_def validateCompiledInstructions_def validateInstruction_def
      validateAddressTableLookups_def transfer_octets_def)

lemma sim_transaction_message: "Transaction_OrdexusMessage sim_transaction = Inr sim_message"
  by (simp add: Transaction_OrdexusMessage_def sim_transaction_def Message_IsZero_def sim_message_def)

lemma sim_transaction_valid: "Transaction_Validate no_shielded sim_transaction = Inr ()"
  by (simp add: Transaction_Validate_def sim_transaction_message sim_message_valid)
    (simp add: sim_transaction_def validateSignatureCount_def sim_message_def message_limits
      validateTransactionAuthorizationShape_def)

lemma sim_signatures: "HasValidSignatures toy_verify sim_transaction = Inr True"
proof -
  have "Message_MarshalBinary sim_message = Inr (message_layout sim_message)"
    using sim_message_valid by (simp add: Message_MarshalBinary_Inr sim_message_def)
  then show ?thesis
    by (simp add: HasValidSignatures_def VerifySignatures_def sim_transaction_message)
      (simp add: sim_transaction_def sim_message_def validateSignatureCount_def VerifyMessageSignature_def
        toy_verify_def)
qed

lemma sim_budget:
  "EstimateTransactionComputeBudget no_shielded no_charge sim_transaction sample_programs =
   Inr (DefaultComputeBudgetLimits\<lparr>cb_units := 3000, cb_storage := 0\<rparr>)"
  using sim_message_valid
  by (simp add: EstimateTransactionComputeBudget_def EstimateTransactionResourceDemand_def
      sim_transaction_message)
    (simp add: sim_message_def sim_instruction_def sample_programs_def zero_programs_def estimateInstructionBudget_def
      isLikelyTransferInstruction_def DefaultTransferComputeUnits_def safeAddUint64_def
      MaxComputeUnitsPerTransaction_def)

lemma sim_settings:
  "DefaultFeeCalculator \<noteq> \<lparr>fc_per_signature = 0, fc_unit_price = 0, fc_storage_price = 0, fc_burn_percent = 0\<rparr>"
  "DefaultRentConfig \<noteq> \<lparr>rc_per_byte_year = 0, rc_years = 0, rc_overhead = 0\<rparr>"
  "sample_programs \<noteq> zero_programs"
  "DefaultComputeBudgetLimits\<lparr>cb_units := 3000\<rparr> \<noteq>
     \<lparr>cb_units = 0, cb_price = 0, cb_loaded = 0, cb_storage = 0, cb_heap = 0\<rparr>"
  "ComputeBudgetLimits_Validate (DefaultComputeBudgetLimits\<lparr>cb_units := 3000\<rparr>) = Inr ()"
  by (simp_all add: DefaultFeeCalculator_def DefaultRentConfig_def sample_programs_def zero_programs_def
      DefaultComputeBudgetLimits_def LamportsPerSignature_def ComputeBudgetLimits_Validate_def
      MaxComputeUnitsPerTransaction_def DefaultLoadedAccountsDataSize_def)

lemma sim_normalized: "normalizeSimulationInput sim_host (sim_input reg) = Inr (sim_input reg)"
  by (simp add: normalizeSimulationInput_def sim_input_def sim_host_def sim_budget sim_settings Let_def)

lemma sim_resolves: "NewResolvedMessage sim_message no_addresses = Inr sim_resolved"
  by (simp add: NewResolvedMessage_def sim_message_valid)
    (simp add: sim_message_def sim_resolved_def ResolvedMessage_Validate_def no_addresses_def
      LoadedAddresses_Validate_def hasDuplicatePublicKeys_def message_limits validateMessageHeader_def
      validateCompiledInstructions_def validateInstruction_def sim_instruction_def transfer_octets_def)

lemma sim_fee_details:
  "FeeCalculator_Calculate DefaultFeeCalculator 1 (DefaultComputeBudgetLimits\<lparr>cb_units := 3000\<rparr>) = Inr sim_fee"
  by (simp add: FeeCalculator_Calculate_def FeeCalculator_Validate_def ComputeBudgetLimits_Validate_def
      DefaultFeeCalculator_def DefaultComputeBudgetLimits_def LamportsPerSignature_def
      DefaultBaseComputeUnitPriceMicroLamports_def DefaultStorageWriteLamportsPerByte_def
      DefaultBaseFeeBurnPercent_def MaxComputeUnitsPerTransaction_def DefaultLoadedAccountsDataSize_def
      safeMulUint64_def unitPriceFeeFloor_def MicroLamportsPerLamport_def safeAddUint64_def
      PrioritizationFee_Fee_def sim_fee_def Let_def)

lemma sim_admitted: "admit sim_host (sim_input reg) = Inr (sim_resolved, sim_fee)"
proof -
  have "validateTransactionAuthorization sim_transaction sim_message sample_programs = Inr ()"
    by (simp add: validateTransactionAuthorization_def sim_message_def)
  moreover have "BlockhashQueue_IsRecent \<lparr>bq_entries = [sample_entry 9 3], bq_max_age = 150\<rparr>
      (msg_blockhash sim_message) 4"
    by (simp add: BlockhashQueue_IsRecent_def BlockhashQueue_Find_def BlockhashEntry_IsRecent_def sim_message_def)
  moreover have "\<not> msg_uses_table sim_message" "msg_lookups sim_message = []" "length (t_signatures sim_transaction) = 1"
    by (simp_all add: sim_message_def sim_transaction_def)
  moreover have "TxIDString sim_host sim_transaction = Inr (Base58Encode (put_le 64 (5 :: signature)))"
    by (simp add: TxIDString_def TxID_def sim_transaction_def)
  ultimately show ?thesis
    by (simp add: admit_def sim_input_def sim_transaction_valid sim_signatures sim_transaction_message
        sim_resolves sim_fee_details sim_host_def Let_def)
qed

definition sim_prior :: ledger where
  "sim_prior = [(5, rich 5000000), (8, rich 1000000), (0, zero_account\<lparr>a_owner := 103\<rparr>)]"

definition sim_loaded :: "u64 \<Rightarrow> LoadedAccount list" where
  "sim_loaded n =
     [\<lparr>ld_address = 5, ld_account = rich n, ld_signer = True, ld_writable = True, ld_program = False\<rparr>,
      \<lparr>ld_address = 8, ld_account = rich 1000000, ld_signer = False, ld_writable = True, ld_program = False\<rparr>,
      \<lparr>ld_address = 0, ld_account = zero_account\<lparr>a_owner := 103\<rparr>, ld_signer = False, ld_writable = False,
       ld_program = True\<rparr>]"

definition sim_lt :: "u64 \<Rightarrow> LoadedTransaction" where
  "sim_lt n = \<lparr>lt_transaction = sim_transaction, lt_message = sim_resolved, lt_accounts = sim_loaded n,
     lt_fee_payer = 5, lt_fee_source = FeePaymentSourceTransparentAccount, lt_fee_details = sim_fee\<rparr>"

lemmas account_eval = AddressedAccount_Validate_def LoadedAccount_Validate_def Account_Validate_def
  ValidateWithRent_def MinimumBalance_def DefaultRentConfig_def RentConfig_Validate_def safeAddUint64_def
  safeMulUint64_def MaxAccountDataSize_def rich_def zero_account_def Let_def

lemma sim_account_map:
  "accountMapFromAddressedAccounts (in_accounts (sim_input reg)) = Inr [(5, rich 5000000), (8, rich 1000000)]"
  by (simp add: accountMapFromAddressedAccounts_def sim_input_def put_account_def account_eval)

lemma sim_placeholders:
  "addMissingAccountPlaceholders no_shielded sim_resolved sample_programs
     [(5, rich 5000000), (8, rich 1000000)] = sim_prior"
  by (simp add: addMissingAccountPlaceholders_def addMissingBuiltinProgramPlaceholders_def sim_resolved_def
      sim_instruction_def IsBuiltinProgram_def sample_programs_def addMissing_def put_account_def
      addMissingForInstruction_def addMissingSystemAccountPlaceholder_def sample_transfer_decodes
      addMissingWritableSystemAccount_def sim_prior_def)

lemma sim_loads:
  "loadSimulationAccounts sim_resolved [(5, rich n), (8, rich 1000000), (0, zero_account\<lparr>a_owner := 103\<rparr>)]
     sample_programs = Inr (sim_loaded n)"
  by (simp add: loadSimulationAccounts_def sim_resolved_def loaded_account_def sim_loaded_def
      Resolved_StaticAccountMetas_def static_metas_def static_meta_def IsBuiltinProgram_def sample_programs_def
      rich_def zero_account_def no_addresses_def Let_def upt_rec)

lemma sim_resolved_valid: "ResolvedMessage_Validate sim_resolved = Inr ()"
  by (rule NewResolvedMessage_Inr(1) [OF sim_resolves])

lemma sim_loaded_transaction:
  "NewLoadedTransaction no_shielded sim_transaction sim_resolved (sim_loaded 5000000) sim_fee = Inr (sim_lt 5000000)"
  by (simp add: NewLoadedTransaction_def LoadedTransaction_Validate_def sim_transaction_valid sim_resolved_valid)
    (simp add: sim_resolved_def sim_loaded_def sim_lt_def FeePaymentSourceTransparentAccount_def
      FeePaymentSourceShieldedPool_def account_eval)

lemma sim_load: "load_accounts sim_host (sim_input reg) sim_resolved sim_fee = Inr (sim_prior, sim_lt 5000000)"
proof -
  have "in_programs (sim_input reg) = sample_programs" "in_transaction (sim_input reg) = sim_transaction"
    "hs_decode sim_host = no_shielded"
    by (simp_all add: sim_input_def sim_host_def)
  then show ?thesis
    using sim_loads [of 5000000, folded sim_prior_def]
    by (simp add: load_accounts_def sim_account_map sim_placeholders sim_loaded_transaction Let_def)
qed

definition sim_charged :: ledger where
  "sim_charged = [(5, rich 4995000), (8, rich 1000000), (0, zero_account\<lparr>a_owner := 103\<rparr>)]"

lemma sim_debit: "debitSimulationFee 5 5000 DefaultRentConfig sim_prior = Inr sim_charged"
  by (simp add: debitSimulationFee_def sim_prior_def sim_charged_def put_account_def DebitLamports_def account_eval)

definition sim_result :: TransactionExecutionResult where
  "sim_result = zero_result\<lparr>x_fee := sim_fee, x_pre := [5000000, 1000000, 0], x_loaded := no_addresses\<rparr>"

lemma sim_prepared:
  "prepareSimulation sim_host (sim_input reg) = (Some (sim_lt 4995000), sim_result, Inr ())"
proof -
  have "lt_fee_source (sim_lt 5000000) = FeePaymentSourceTransparentAccount" "lt_fee_payer (sim_lt 5000000) = 5"
    "f_total sim_fee = 5000" "in_rent (sim_input reg) = DefaultRentConfig"
    "in_programs (sim_input reg) = sample_programs" "rm_loaded sim_resolved = no_addresses"
    "balancesFromLoadedAccounts (lt_accounts (sim_lt 5000000)) = [5000000, 1000000, 0]"
    "(sim_lt 5000000)\<lparr>lt_accounts := sim_loaded 4995000\<rparr> = sim_lt 4995000"
    by (simp_all add: sim_lt_def sim_fee_def sim_input_def sim_resolved_def balancesFromLoadedAccounts_def
        sim_loaded_def rich_def zero_account_def)
  then show ?thesis
    using sim_loads [of 4995000, folded sim_charged_def]
    by (simp add: prepareSimulation_def sim_admitted sim_load sim_debit sim_result_def Let_def)
qed

lemma sim_registry: "newSimulationProgramRegistry (sim_input reg) = Inr reg"
  by (simp add: newSimulationProgramRegistry_def sim_input_def)

definition sim_final :: ledger where
  "sim_final = [(5, rich 3995000), (8, rich 2000000), (0, zero_account\<lparr>a_owner := 103\<rparr>)]"

lemma sim_clone: "cloneLoadedAccountsToMap (lt_accounts (sim_lt 4995000)) = sim_charged"
  by (simp add: cloneLoadedAccountsToMap_def sim_lt_def sim_loaded_def sim_charged_def put_account_def)

lemma sim_system_run:
  assumes "ic_instruction c = sim_instruction" and "ic_message c = sim_resolved" and "ic_accounts c = sim_charged"
    and "ic_rent c = DefaultRentConfig"
  shows "System_Execute c = Inr sim_final"
  using assms
  by (simp add: System_Execute_def sim_instruction_def sample_transfer_decodes executeSystemInstruction_def
      sample_transfer_def system_types executeSystemTransfer_def account_key_def key_at_def
      IsSignerContextAddress_def IsSignerAddress_def requireSystemOwnedAccount_def deref_def
      sim_resolved_def sim_charged_def sim_final_def transfer_run)

lemma sim_metas:
  "Resolved_StaticAccountMetas sim_resolved =
     [\<lparr>m_key = 5, m_signer = True, m_writable = True\<rparr>, \<lparr>m_key = 8, m_signer = False, m_writable = True\<rparr>,
      \<lparr>m_key = 0, m_signer = False, m_writable = False\<rparr>]"
  by (simp add: sim_resolved_def Resolved_StaticAccountMetas_def static_metas_def static_meta_def upt_rec)

lemma sim_writable: "5 \<in> writableAccountSet sim_resolved" "8 \<in> writableAccountSet sim_resolved"
proof -
  have keys: "rm_keys sim_resolved = [5, 8, 0]" by (simp add: sim_resolved_def)
  have "IsWritableMessageAccount 0 sim_resolved" "IsWritableMessageAccount 1 sim_resolved"
    by (simp_all add: IsWritableMessageAccount_def sim_metas)
  then show "5 \<in> writableAccountSet sim_resolved" "8 \<in> writableAccountSet sim_resolved"
    using keys unfolding in_writableAccountSet
    by (auto intro: exI [of _ "0 :: nat"] exI [of _ "1 :: nat"])
qed

lemma sim_named: "5 \<in> instructionAccountSet sim_instruction sim_resolved"
    "8 \<in> instructionAccountSet sim_instruction sim_resolved"
  by (simp_all add: in_instructionAccountSet sim_instruction_def sim_resolved_def)

lemma sim_writes_accepted:
  "ValidateInstructionWrites sim_instruction sim_resolved sim_charged sim_final sample_programs = Inr ()"
proof -
  have "instructionProgramID sim_instruction sim_resolved = Inr 0"
    by (simp add: instructionProgramID_def sim_instruction_def sim_resolved_def)
  moreover have "pid_Token sample_programs \<noteq> 0" by (simp add: sample_programs_def)
  ultimately show ?thesis
    using sim_writable sim_named
    by (simp add: ValidateInstructionWrites_def sim_charged_def sim_final_def validateProgramOwnerWrite_def)
qed

lemma sim_sandbox:
  "ExecuteInstructionSandbox 0 sim_instruction sim_resolved sim_charged
     ((sim_input system_registry)\<lparr>in_fee := f, in_fee_source := s,
        in_budget := DefaultComputeBudgetLimits\<lparr>cb_units := 3000\<rparr>\<rparr>) system_registry =
   (3000, empty_trace, Inr sim_final)"
proof -
  define c where "c = \<lparr>ic_index = 0, ic_depth = 0, ic_instruction = sim_instruction, ic_message = sim_resolved,
    ic_accounts = sim_charged, ic_slot = 4, ic_epoch = 0, ic_rent = DefaultRentConfig,
    ic_budget = DefaultComputeBudgetLimits\<lparr>cb_units := 3000\<rparr>, ic_fee = f, ic_fee_source = s,
    ic_programs = sample_programs, ic_overrides = []\<rparr>"
  have "Registry_Execute system_registry c = system_handler c"
    by (simp add: Registry_Execute_def c_def sim_resolved_def sim_instruction_def Registry_lookup_def
        system_registry_def)
  moreover have "System_Execute c = Inr sim_final"
    by (rule sim_system_run) (simp_all add: c_def)
  ultimately have "run_sandbox c system_registry = (3000, empty_trace, Inr sim_final)"
    using sim_writes_accepted
    by (simp add: run_sandbox_def system_handler_def normalizeInstructionComputeUnits_def
        DefaultBuiltinInstructionCU_def) (simp add: c_def)
  then show ?thesis by (simp add: ExecuteInstructionSandbox_def sim_input_def c_def)
qed

definition sim_confirmed :: TransactionExecutionResult where
  "sim_confirmed = (with_accounts [5, 8, 0] sim_final 3000
     (sim_result\<lparr>x_status := TransactionStatusConfirmed\<rparr>))
     \<lparr>x_logs := [SimulationLogInstructionSuccess, SimulationLogTransactionSuccess]\<rparr>"

lemma sim_run:
  "run_instructions (sim_input system_registry) (sim_lt 4995000) system_registry 0 [sim_instruction] sim_charged 0
     sim_result = Finished sim_final 3000 (sim_result\<lparr>x_logs := [SimulationLogInstructionSuccess]\<rparr>)"
proof -
  have "lt_message (sim_lt 4995000) = sim_resolved" by (simp add: sim_lt_def)
  moreover have "(in_budget (sim_input system_registry))\<lparr>cb_units := 3000\<rparr> =
      DefaultComputeBudgetLimits\<lparr>cb_units := 3000\<rparr>" "cb_units (in_budget (sim_input system_registry)) = 3000"
    by (simp_all add: sim_input_def)
  moreover have "add_trace 0 empty_trace sim_result = sim_result"
    by (simp add: add_trace_def empty_trace_def sim_result_def zero_result_def)
  moreover have "x_logs sim_result = []" by (simp add: sim_result_def zero_result_def)
  ultimately show ?thesis
    using sim_sandbox
    by (simp add: accumulateComputeUnits_def remainingComputeUnits_def)
qed

lemma sim_confirms: "\<exists>v. Simulate sim_host (sim_input system_registry) = (sim_confirmed, v)"
proof -
  have "finish (sim_input system_registry) (sim_lt 4995000)
      (Finished sim_final 3000 (sim_result\<lparr>x_logs := [SimulationLogInstructionSuccess]\<rparr>)) = sim_confirmed"
    by (simp add: finish_def sim_lt_def sim_confirmed_def FeePaymentSourceTransparentAccount_def
        FeePaymentSourceShieldedPool_def sim_resolved_def with_accounts_def)
  moreover have "rm_instructions (lt_message (sim_lt 4995000)) = [sim_instruction]"
    by (simp add: sim_lt_def sim_resolved_def)
  ultimately show ?thesis
    by (simp add: Simulate_def sim_normalized sim_prepared sim_registry sim_clone sim_run Let_def
        del: run_instructions.simps)
qed

text \<open>The same transaction where no program is registered.\<close>

lemma sim_rejects:
  "\<exists>res v. Simulate sim_host (sim_input NewProgramHandlerRegistry) = (res, v) \<and>
     x_status res = TransactionStatusFailed \<and>
     x_written res = writtenAccountsFromMessage [5, 8, 0] sim_charged"
proof -
  define reg where "reg = NewProgramHandlerRegistry"
  have "\<exists>out. run_instructions (sim_input reg) (sim_lt 4995000) reg 0 [sim_instruction] sim_charged 0 sim_result =
      Stopped out"
    by (simp add: ExecuteInstructionSandbox_def run_sandbox_def Registry_Execute_def Registry_lookup_def Let_def
        reg_def NewProgramHandlerRegistry_def failing_def split: prod.splits)
  then obtain out where out: "run_instructions (sim_input reg) (sim_lt 4995000) reg 0 [sim_instruction]
      sim_charged 0 sim_result = Stopped out" by blast
  moreover have lt: "lt_message (sim_lt 4995000) = sim_resolved" "rm_instructions sim_resolved = [sim_instruction]"
    "rm_keys sim_resolved = [5, 8, 0]"
    by (simp_all add: sim_lt_def sim_resolved_def)
  ultimately have "\<exists>v. Simulate sim_host (sim_input reg) = (out, v)"
    by (simp add: Simulate_def sim_normalized sim_prepared sim_registry sim_clone Let_def finish_def
        del: run_instructions.simps)
  then show ?thesis
    using run_Stopped [OF out] by (auto simp: lt sim_clone reg_def)
qed

section \<open>Witnesses\<close>

theorem failed_transaction_pays_only_the_fee_witness:
  "at_most_charged sim_resolved sim_fee sim_prior \<lparr>aa_address = 5, aa_account = rich 4995000\<rparr>"
proof -
  obtain res v where s: "Simulate sim_host (sim_input NewProgramHandlerRegistry) = (res, v)"
      "x_status res = TransactionStatusFailed" "x_written res = writtenAccountsFromMessage [5, 8, 0] sim_charged"
    using sim_rejects by blast
  have w: "\<lparr>aa_address = 5, aa_account = rich 4995000\<rparr> \<in> set (x_written res)"
    by (simp add: s(3) writtenAccountsFromMessage_def sim_charged_def get_account_def)
  from failed_transaction_pays_only_the_fee [OF s(1,2) w] show ?thesis
    by (auto simp: sim_normalized sim_admitted sim_load)
qed

theorem confirmed_transaction_was_authorised_witness:
  "HasValidSignatures toy_verify sim_transaction = Inr True \<and> 3000 \<le> cb_units (in_budget (sim_input system_registry))"
proof -
  obtain v where s: "Simulate sim_host (sim_input system_registry) = (sim_confirmed, v)"
    using sim_confirms by blast
  have "x_status sim_confirmed = TransactionStatusConfirmed" "x_units sim_confirmed = 3000"
    by (simp_all add: sim_confirmed_def with_accounts_def)
  with confirmed_transaction_was_authorised [OF s] show ?thesis
    by (auto simp: sim_normalized) (auto simp: sim_input_def sim_host_def)
qed


lemma system_registry_runs:
  assumes "po_result (Registry_Execute system_registry c) = Inr L"
  shows "System_Execute c = Inr L"
  using assms
  by (auto simp: Registry_Execute_def Registry_lookup_def system_registry_def failing_def system_handler_def Let_def
      split: if_splits)

lemma system_registry_keeps: "keeps_accounts system_registry"
  by (simp only: keeps_accounts_def) (blast dest: system_registry_runs system_keeps_keys)

lemma system_registry_conserves: "conserves_on system_registry sim_resolved"
  unfolding conserves_on_def
proof (intro allI impI)
  fix c L
  assume c: "ic_message c = sim_resolved" "ic_instruction c \<in> set (rm_instructions sim_resolved)"
    "well_keyed (ic_accounts c)" "po_result (Registry_Execute system_registry c) = Inr L"
  have "account_key c 0 \<noteq> account_key c 1"
    using c(1,2) by (simp add: account_key_def key_at_def sim_resolved_def sim_instruction_def)
  with system_conserves [OF system_registry_runs [OF c(4)] c(3)]
  show "well_keyed L \<and> total_lamports L = total_lamports (ic_accounts c)" by simp
qed

theorem confirmed_transaction_writes_only_writable_witness:
  "\<exists>w \<in> set (x_written sim_confirmed). aa_address w \<notin> writableAccountSet sim_resolved \<and>
     aa_account w = get_account sim_prior 0"
proof -
  obtain v where s: "Simulate sim_host (sim_input system_registry) = (sim_confirmed, v)"
    using sim_confirms by blast
  have c: "x_status sim_confirmed = TransactionStatusConfirmed"
    by (simp add: sim_confirmed_def with_accounts_def)
  have "\<forall>w \<in> set (x_written sim_confirmed). aa_address w \<notin> writableAccountSet sim_resolved \<longrightarrow>
      aa_account w = get_account sim_prior (aa_address w)"
    using confirmed_transaction_writes_only_writable [OF s c] system_registry_keeps
    by (simp add: sim_normalized sim_admitted sim_load sim_registry)
  moreover have "0 \<notin> writableAccountSet sim_resolved"
  proof -
    have keys: "rm_keys sim_resolved = [5, 8, 0]" by (simp add: sim_resolved_def)
    show ?thesis
      by (auto simp: in_writableAccountSet IsWritableMessageAccount_def sim_metas keys less_Suc_eq)
  qed
  moreover have "\<lparr>aa_address = 0, aa_account = get_account sim_final 0\<rparr> \<in> set (x_written sim_confirmed)"
    by (simp add: sim_confirmed_def with_accounts_def writtenAccountsFromMessage_def)
  ultimately show ?thesis
    by (intro bexI [of _ "\<lparr>aa_address = 0, aa_account = get_account sim_final 0\<rparr>"]) auto
qed

theorem confirmed_transaction_conserves_lamports_witness:
  "sum_list (map unat (x_post sim_confirmed)) + 5000 = 6000000"
proof -
  obtain v where s: "Simulate sim_host (sim_input system_registry) = (sim_confirmed, v)"
    using sim_confirms by blast
  have c: "x_status sim_confirmed = TransactionStatusConfirmed"
    and pre: "x_pre sim_confirmed = [5000000, 1000000, 0]"
    by (simp_all add: sim_confirmed_def with_accounts_def sim_result_def)
  have "sum_list (map unat (x_post sim_confirmed)) + unat (f_total sim_fee) =
      sum_list (map unat (x_pre sim_confirmed))"
    using confirmed_transaction_conserves_lamports [OF s c] system_registry_conserves
    by (simp add: sim_normalized sim_admitted sim_registry)
  then show ?thesis by (simp add: pre sim_fee_def)
qed

end
