(* ===== verification/Vm_Accounts.thy ===== *)
theory Vm_Accounts
  imports Runtime_Accounts Sha256 Go_Strings
begin

text \<open>
  \<open>vm/types.go\<close>, \<open>vm/errors.go\<close>, \<open>vm/meter.go\<close>, \<open>vm/account_set.go\<close>, \<open>vm/account_set_update.go\<close> and
  \<open>vm/pda.go\<close>: the values of the virtual machine, its compute meter, the guarded view of the
  accounts of a call, and the derivation of program addresses.
\<close>

section \<open>Values\<close>

text \<open>
  The sentinels of the package, an error that wraps two of them, an error with a text only, and
  an index out of range, which is a panic in Go.
\<close>

datatype vm_error =
    VInvalidProgram | VInvalidAccount | VPermissionDenied | VComputeExceeded | VExecutionFailed
  | VWrap vm_error vm_error | VPlain string | VPanic

definition DefaultComputeUnitLimit :: u64 where "DefaultComputeUnitLimit = 200000"
definition MaxComputeUnitLimit :: u64 where "MaxComputeUnitLimit = 1400000"
definition DefaultMaxDataIncreasePerCall :: int where "DefaultMaxDataIncreasePerCall = 10 * 1024"
definition MaxProgramDataSize :: nat where "MaxProgramDataSize = 1024 * 1024"
definition MaxReadOnlyDataSize :: nat where "MaxReadOnlyDataSize = 64 * 1024"
definition MaxProgramSyscallCount :: nat where "MaxProgramSyscallCount = 64"
definition VmMaxInstructionDataSize :: nat where "VmMaxInstructionDataSize = 1232"
definition MaxReturnDataSize :: nat where "MaxReturnDataSize = 1024"
definition MaxLogMessageSize :: nat where "MaxLogMessageSize = 1024"
definition MaxSyscallInputSize :: nat where "MaxSyscallInputSize = 4096"
definition MaxPDASeedCount :: nat where "MaxPDASeedCount = 16"
definition MaxPDASeedLength :: nat where "MaxPDASeedLength = 32"
definition RegisterInstructionSize :: nat where "RegisterInstructionSize = 16"
definition RegisterCount :: nat where "RegisterCount = 11"
definition RegisterHeapSize :: nat where "RegisterHeapSize = 64 * 1024"
definition RegisterStackSize :: nat where "RegisterStackSize = 64 * 1024"
definition RegisterMaxMemoryAccessSize :: nat where "RegisterMaxMemoryAccessSize = 4096"

lemmas vm_limits = DefaultComputeUnitLimit_def MaxComputeUnitLimit_def DefaultMaxDataIncreasePerCall_def
  MaxProgramDataSize_def MaxReadOnlyDataSize_def MaxProgramSyscallCount_def VmMaxInstructionDataSize_def
  MaxReturnDataSize_def MaxLogMessageSize_def MaxSyscallInputSize_def MaxPDASeedCount_def
  MaxPDASeedLength_def RegisterInstructionSize_def RegisterCount_def RegisterHeapSize_def
  RegisterStackSize_def RegisterMaxMemoryAccessSize_def

record VmAccount =
  va_address :: pubkey
  va_lamports :: u64
  va_data :: bytes
  va_owner :: pubkey
  va_executable :: bool
  va_rent_epoch :: u64
  va_signer :: bool
  va_writable :: bool

record ProgramAccount =
  pa_address :: pubkey
  pa_owner :: pubkey
  pa_executable :: bool
  pa_data :: bytes

record ClockSysvar =
  clock_slot :: u64
  clock_time :: int

record RentSysvar =
  rent_per_byte_year :: u64
  rent_years :: u64
  rent_overhead :: u64

record Sysvars =
  sv_clock :: ClockSysvar
  sv_rent :: RentSysvar

record ReturnData =
  ret_program :: pubkey
  ret_data :: bytes

record CPIInstruction =
  cpi_program :: pubkey
  cpi_accounts :: "u8 list"
  cpi_data :: bytes
  cpi_signers :: "pubkey list"

record Invocation =
  inv_program :: pubkey
  inv_program_account :: ProgramAccount
  inv_accounts :: "VmAccount list"
  inv_data :: bytes
  inv_slot :: u64
  inv_limit :: u64
  inv_sysvars :: Sysvars

record Result =
  res_accounts :: "VmAccount list"
  res_units :: u64
  res_logs :: "gostring list"
  res_return :: "ReturnData option"
  res_output :: bytes

section \<open>The compute meter\<close>

record ComputeMeter =
  cm_limit :: u64
  cm_consumed :: u64

definition NewComputeMeter :: "u64 \<Rightarrow> ComputeMeter" where
  "NewComputeMeter limit =
     \<lparr>cm_limit = (if limit = 0 then DefaultComputeUnitLimit else limit), cm_consumed = 0\<rparr>"

definition Consume :: "ComputeMeter \<Rightarrow> u64 \<Rightarrow> vm_error + ComputeMeter" where
  "Consume m units =
     (if cm_limit m - cm_consumed m < units then Inl VComputeExceeded
      else Inr (m\<lparr>cm_consumed := cm_consumed m + units\<rparr>))"

definition meter_ok :: "ComputeMeter \<Rightarrow> bool" where
  "meter_ok m \<longleftrightarrow> cm_consumed m \<le> cm_limit m"

lemma NewComputeMeter_ok [simp]: "meter_ok (NewComputeMeter limit)"
  by (simp add: meter_ok_def NewComputeMeter_def)

lemma Consume_Inr:
  assumes "Consume m units = Inr m'" and "meter_ok m"
  shows "meter_ok m'" and "cm_limit m' = cm_limit m"
    and "unat (cm_consumed m') = unat (cm_consumed m) + unat units"
proof -
  have le: "cm_consumed m \<le> cm_limit m" and u: "units \<le> cm_limit m - cm_consumed m"
    and m': "m' = m\<lparr>cm_consumed := cm_consumed m + units\<rparr>"
    using assms by (auto simp: Consume_def meter_ok_def result_simps not_less)
  have room: "unat (cm_consumed m) + unat units \<le> unat (cm_limit m)"
    using le u by (simp add: word_le_nat_alt unat_sub)
  have "unat (cm_limit m) < 2 ^ 64" using unsigned_less [of "cm_limit m"] by simp
  with room have "unat (cm_consumed m) + unat units < 2 ^ 64" by linarith
  then show consumed: "unat (cm_consumed m') = unat (cm_consumed m) + unat units"
    by (simp add: m' unat_word_ariths)
  show "cm_limit m' = cm_limit m" by (simp add: m')
  show "meter_ok m'" using consumed room by (simp add: meter_ok_def word_le_nat_alt m')
qed

section \<open>The account set\<close>

text \<open>
  Account indexes come from octets, so they are natural numbers; offsets are Go \<open>int\<close>s. The nil
  receiver of the methods has no counterpart.
\<close>

record AccountSet =
  as_program :: pubkey
  as_accounts :: "VmAccount list"
  as_originals :: "VmAccount list"
  as_max_increase :: int

definition NewAccountSet :: "pubkey \<Rightarrow> VmAccount list \<Rightarrow> int \<Rightarrow> AccountSet" where
  "NewAccountSet programID accounts maxDataIncrease =
     \<lparr>as_program = programID, as_accounts = accounts, as_originals = accounts,
      as_max_increase = (if maxDataIncrease \<le> 0 then DefaultMaxDataIncreasePerCall else maxDataIncrease)\<rparr>"

definition set_account :: "AccountSet \<Rightarrow> nat \<Rightarrow> vm_error + VmAccount" where
  "set_account s i =
     (if length (as_accounts s) \<le> i then Inl VInvalidAccount else Inr (as_accounts s ! i))"

definition mutableAccount :: "AccountSet \<Rightarrow> nat \<Rightarrow> vm_error + VmAccount" where
  "mutableAccount s i =
     (if length (as_accounts s) \<le> i then Inl VInvalidAccount
      else if \<not> va_writable (as_accounts s ! i) then Inl VPermissionDenied
      else Inr (as_accounts s ! i))"

definition store_account :: "AccountSet \<Rightarrow> nat \<Rightarrow> VmAccount \<Rightarrow> AccountSet" where
  "store_account s i a = s\<lparr>as_accounts := (as_accounts s)[i := a]\<rparr>"

definition RequireSigner :: "AccountSet \<Rightarrow> nat \<Rightarrow> vm_error + unit" where
  "RequireSigner s i =
     rbind (set_account s i) (\<lambda>a. if \<not> va_signer a then Inl VPermissionDenied else Inr ())"

definition ReadData :: "AccountSet \<Rightarrow> nat \<Rightarrow> int \<Rightarrow> int \<Rightarrow> vm_error + bytes" where
  "ReadData s i offset len =
     (if offset < 0 \<or> len < 0 then Inl VInvalidAccount
      else
        rbind (set_account s i) (\<lambda>a.
          if int (length (va_data a)) < offset \<or> int (length (va_data a)) - offset < len
            then Inl VInvalidAccount
          else Inr (take (nat len) (drop (nat offset) (va_data a)))))"

definition write_at :: "bytes \<Rightarrow> nat \<Rightarrow> bytes \<Rightarrow> bytes" where
  "write_at old offset data =
     overwrite (old @ replicate (offset + length data - length old) 0) offset data"

definition WriteData :: "AccountSet \<Rightarrow> nat \<Rightarrow> int \<Rightarrow> bytes \<Rightarrow> vm_error + AccountSet" where
  "WriteData s i offset data =
     (if offset < 0 then Inl VInvalidAccount
      else
        rbind (mutableAccount s i) (\<lambda>a.
          if va_owner a \<noteq> as_program s then Inl VPermissionDenied
          else if va_executable a then Inl VPermissionDenied
          else
            let nextLength = int64_wrap (offset + int (length data)) in
            if nextLength < offset then Inl VInvalidAccount
            else if int (length (va_data a)) + as_max_increase s < nextLength then Inl VInvalidAccount
            else Inr (store_account s i (a\<lparr>va_data := write_at (va_data a) (nat offset) data\<rparr>))))"

definition WriteInstructionData :: "AccountSet \<Rightarrow> nat \<Rightarrow> u32 \<Rightarrow> bytes \<Rightarrow> vm_error + AccountSet" where
  "WriteInstructionData s i offset instructionData = WriteData s i (uint offset) instructionData"

definition Vm_TransferLamports :: "AccountSet \<Rightarrow> nat \<Rightarrow> nat \<Rightarrow> u64 \<Rightarrow> vm_error + AccountSet" where
  "Vm_TransferLamports s sourceIndex destinationIndex lamports =
     rbind (mutableAccount s sourceIndex) (\<lambda>source.
     rbind (mutableAccount s destinationIndex) (\<lambda>destination.
       if va_owner source \<noteq> as_program s then Inl VPermissionDenied
       else if va_lamports source < lamports then Inl VInvalidAccount
       else if - 1 - lamports < va_lamports destination then Inl VInvalidAccount
       else
         Inr (store_account
                (store_account s sourceIndex (source\<lparr>va_lamports := va_lamports source - lamports\<rparr>))
                destinationIndex (destination\<lparr>va_lamports := va_lamports destination + lamports\<rparr>))))"

definition SetAccount :: "AccountSet \<Rightarrow> nat \<Rightarrow> VmAccount \<Rightarrow> vm_error + AccountSet" where
  "SetAccount s i a =
     rbind (set_account s i) (\<lambda>current.
       if va_address current \<noteq> va_address a then Inl VInvalidAccount
       else if va_owner current \<noteq> va_owner a \<or> va_executable current \<noteq> va_executable a
         then Inl VPermissionDenied
       else if \<not> va_writable current \<and>
           (va_lamports current \<noteq> va_lamports a \<or> va_data current \<noteq> va_data a)
         then Inl VPermissionDenied
       else Inr (store_account s i (a\<lparr>va_signer := va_signer current, va_writable := va_writable current\<rparr>)))"

definition SetFixedProgramAccount :: "AccountSet \<Rightarrow> nat \<Rightarrow> VmAccount \<Rightarrow> vm_error + AccountSet" where
  "SetFixedProgramAccount s i a =
     rbind (set_account s i) (\<lambda>current.
       if va_address current \<noteq> va_address a then Inl VInvalidAccount
       else if va_executable current \<noteq> va_executable a then Inl VPermissionDenied
       else if \<not> va_writable current \<and>
           (va_owner current \<noteq> va_owner a \<or> va_lamports current \<noteq> va_lamports a \<or> va_data current \<noteq> va_data a)
         then Inl VPermissionDenied
       else Inr (store_account s i (a\<lparr>va_signer := va_signer current, va_writable := va_writable current\<rparr>)))"

section \<open>What a program may do to an account\<close>

text \<open>
  The accounts before and after an operation of program \<open>pid\<close>: identity, owner and flags stay, a
  read-only account stays as it is, data changes and debits need the ownership of the program.
\<close>

definition vm_permitted :: "pubkey \<Rightarrow> VmAccount \<Rightarrow> VmAccount \<Rightarrow> bool" where
  "vm_permitted pid a b \<longleftrightarrow>
     va_address b = va_address a \<and> va_owner b = va_owner a \<and> va_executable b = va_executable a \<and>
     va_rent_epoch b = va_rent_epoch a \<and> va_signer b = va_signer a \<and> va_writable b = va_writable a \<and>
     (b \<noteq> a \<longrightarrow> va_writable a) \<and>
     (va_data b \<noteq> va_data a \<longrightarrow> va_owner a = pid \<and> \<not> va_executable a) \<and>
     (va_lamports b < va_lamports a \<longrightarrow> va_owner a = pid)"

definition set_permitted :: "AccountSet \<Rightarrow> AccountSet \<Rightarrow> bool" where
  "set_permitted s t \<longleftrightarrow>
     as_program t = as_program s \<and> as_originals t = as_originals s \<and> as_max_increase t = as_max_increase s \<and>
     list_all2 (vm_permitted (as_program s)) (as_accounts s) (as_accounts t)"

lemma vm_permitted_refl [simp]: "vm_permitted pid a a"
  by (simp add: vm_permitted_def)

lemma vm_permitted_trans: "vm_permitted pid a b \<Longrightarrow> vm_permitted pid b c \<Longrightarrow> vm_permitted pid a c"
  unfolding vm_permitted_def by (metis not_less order.strict_trans1)

lemma set_permitted_refl [simp]: "set_permitted s s"
  by (simp add: set_permitted_def list.rel_refl)

lemma set_permitted_trans: "set_permitted s t \<Longrightarrow> set_permitted t u \<Longrightarrow> set_permitted s u"
  unfolding set_permitted_def
  by (auto elim: list_all2_trans [where ?P2.0 = "vm_permitted (as_program s)", rotated 1]
      intro: vm_permitted_trans)

lemma store_account_simps [simp]:
  "as_program (store_account s i a) = as_program s" "as_originals (store_account s i a) = as_originals s"
  "as_max_increase (store_account s i a) = as_max_increase s"
  "as_accounts (store_account s i a) = (as_accounts s)[i := a]"
  by (simp_all add: store_account_def)

lemma store_account_permitted:
  assumes "i < length (as_accounts s) \<Longrightarrow> vm_permitted (as_program s) (as_accounts s ! i) a"
  shows "set_permitted s (store_account s i a)"
  using assms
  by (cases "i < length (as_accounts s)")
    (auto simp: set_permitted_def list_all2_conv_all_nth nth_list_update)

lemma mutableAccount_Inr [result_simps]:
  "mutableAccount s i = Inr a \<longleftrightarrow> i < length (as_accounts s) \<and> va_writable a \<and> as_accounts s ! i = a"
  by (auto simp: mutableAccount_def)

lemma set_account_Inr [result_simps]:
  "set_account s i = Inr a \<longleftrightarrow> i < length (as_accounts s) \<and> as_accounts s ! i = a"
  by (auto simp: set_account_def)

lemma WriteData_Inr:
  assumes "WriteData s i offset data = Inr t"
  obtains a where "i < length (as_accounts s)" and "as_accounts s ! i = a" and "va_writable a"
    and "va_owner a = as_program s" and "\<not> va_executable a" and "0 \<le> offset"
    and "int64_wrap (offset + int (length data)) \<le> int (length (va_data a)) + as_max_increase s"
    and "t = store_account s i (a\<lparr>va_data := write_at (va_data a) (nat offset) data\<rparr>)"
  using assms by (auto simp: WriteData_def result_simps Let_def not_less split: if_splits)

lemma WriteData_permitted: "WriteData s i offset data = Inr t \<Longrightarrow> set_permitted s t"
  by (elim WriteData_Inr) (auto simp: vm_permitted_def intro!: store_account_permitted)

lemma Vm_TransferLamports_Inr:
  assumes "Vm_TransferLamports s i j n = Inr t"
  obtains a b where "i < length (as_accounts s)" and "j < length (as_accounts s)"
    and "as_accounts s ! i = a" and "as_accounts s ! j = b" and "va_writable a" and "va_writable b"
    and "va_owner a = as_program s" and "n \<le> va_lamports a" and "\<not> - 1 - n < va_lamports b"
    and "t = store_account (store_account s i (a\<lparr>va_lamports := va_lamports a - n\<rparr>))
               j (b\<lparr>va_lamports := va_lamports b + n\<rparr>)"
  using assms by (auto simp: Vm_TransferLamports_def result_simps not_less split: if_splits)

lemma credit_not_less:
  assumes "\<not> - 1 - n < (b :: u64)"
  shows "\<not> b + n < b"
  using unat_add_guarded [OF assms] by (simp add: word_less_nat_alt)

lemma Vm_TransferLamports_permitted:
  assumes "Vm_TransferLamports s i j n = Inr t"
  shows "set_permitted s t"
  using assms
proof (rule Vm_TransferLamports_Inr)
  fix a b
  assume facts: "i < length (as_accounts s)" "j < length (as_accounts s)" "as_accounts s ! i = a"
      "as_accounts s ! j = b" "va_writable a" "va_writable b" "va_owner a = as_program s"
    and fits: "\<not> - 1 - n < va_lamports b"
    and t: "t = store_account (store_account s i (a\<lparr>va_lamports := va_lamports a - n\<rparr>))
               j (b\<lparr>va_lamports := va_lamports b + n\<rparr>)"
  show "set_permitted s t"
    using facts credit_not_less [OF fits] unfolding t
    by (auto simp: set_permitted_def list_all2_conv_all_nth nth_list_update vm_permitted_def)
qed

section \<open>Moving lamports\<close>

definition vm_balance :: "AccountSet \<Rightarrow> nat \<Rightarrow> nat" where
  "vm_balance s i = (if i < length (as_accounts s) then unat (va_lamports (as_accounts s ! i)) else 0)"

definition vm_total :: "VmAccount list \<Rightarrow> nat" where
  "vm_total accounts = (\<Sum>a\<leftarrow>accounts. unat (va_lamports a))"

lemma vm_total_sum: "vm_total (as_accounts s) = sum (vm_balance s) {..<length (as_accounts s)}"
  unfolding vm_total_def vm_balance_def
  by (subst sum_list_sum_nth) (simp add: atLeast0LessThan)

interpretation vm_transfer: balance_transfer "\<lambda>i j n s. Vm_TransferLamports s i j n" vm_balance
proof
  fix i j n s s'
  assume run: "Vm_TransferLamports s i j n = Inr s'" and "i \<noteq> j"
  from run show "vm_balance s' i + unat n = vm_balance s i \<and> vm_balance s' j = vm_balance s j + unat n"
    using \<open>i \<noteq> j\<close>
    by (elim Vm_TransferLamports_Inr)
      (auto simp: vm_balance_def unat_sub word_le_nat_alt unat_add_guarded)
next
  fix i j n s s' k
  assume "Vm_TransferLamports s i j n = Inr s'" and "k \<noteq> i" and "k \<noteq> j"
  then show "vm_balance s' k = vm_balance s k"
    by (elim Vm_TransferLamports_Inr) (auto simp: vm_balance_def)
next
  fix i n s s'
  assume "Vm_TransferLamports s i i n = Inr s'"
  then show "vm_balance s' i = vm_balance s i + unat n"
    by (elim Vm_TransferLamports_Inr) (auto simp: vm_balance_def unat_add_guarded)
qed

lemma vm_transfer_length: "Vm_TransferLamports s i j n = Inr t \<Longrightarrow> length (as_accounts t) = length (as_accounts s)"
  by (elim Vm_TransferLamports_Inr) auto

lemma vm_transfer_in_range: "Vm_TransferLamports s i j n = Inr t \<Longrightarrow> {i, j} \<subseteq> {..<length (as_accounts s)}"
  by (elim Vm_TransferLamports_Inr) auto

lemma vm_transfer_total:
  assumes "Vm_TransferLamports s i j n = Inr t"
  shows "vm_total (as_accounts t) = vm_total (as_accounts s) + (if i = j then unat n else 0)"
proof (cases "i = j")
  case True
  then have self: "Vm_TransferLamports s j j n = Inr t" using assms by simp
  show ?thesis
    using vm_transfer.self_creates [OF self, of "{..<length (as_accounts s)}"] True
      vm_transfer_length [OF assms] vm_transfer_in_range [OF assms] by (simp add: vm_total_sum)
next
  case False
  then show ?thesis
    using vm_transfer.conserves [OF assms False, of "{..<length (as_accounts s)}"]
      vm_transfer_length [OF assms] vm_transfer_in_range [OF assms] by (simp add: vm_total_sum)
qed

section \<open>Reading back what was written\<close>

lemma int64_wrap_small: "0 \<le> i \<Longrightarrow> i < 2 ^ 63 \<Longrightarrow> int64_wrap i = i"
  unfolding int64_wrap_def
  by (subst sint_small) (simp_all add: unat_eq_nat_uint uint_word_of_int nat_less_iff)

lemma WriteData_ReadData:
  assumes "WriteData s i offset data = Inr t"
  shows "ReadData t i offset (int (length data)) = Inr data"
  using assms
proof (rule WriteData_Inr)
  fix a
  assume i: "i < length (as_accounts s)" and off: "0 \<le> offset"
    and t: "t = store_account s i (a\<lparr>va_data := write_at (va_data a) (nat offset) data\<rparr>)"
  obtain k where k: "offset = int k" using off by (metis zero_le_imp_eq_int)
  have len: "length (write_at (va_data a) k data) = max (length (va_data a)) (k + length data)"
    by (simp add: write_at_def)
  have "take (length data) (drop k (write_at (va_data a) k data)) = data"
    unfolding write_at_def by (rule overwrite_read_back) simp
  moreover have "\<not> int (length (write_at (va_data a) k data)) < int k"
    and "\<not> int (length (write_at (va_data a) k data)) - int k < int (length data)"
    unfolding len by linarith+
  ultimately show ?thesis
    using i by (simp add: ReadData_def t k set_account_def)
qed

section \<open>Program addresses\<close>

definition pdaDomain :: bytes where
  "pdaDomain = ascii ''GoOVMProgramDerivedAddress''"

fun pda_seeds :: "bytes list \<Rightarrow> vm_error + bytes" where
  "pda_seeds [] = Inr []"
| "pda_seeds (seed # seeds) =
     (if seed = [] \<or> MaxPDASeedLength < length seed then Inl VInvalidAccount
      else rbind (pda_seeds seeds) (\<lambda>r. Inr (of_nat (length seed) # seed @ r)))"

definition pda_text :: "pubkey \<Rightarrow> bytes list \<Rightarrow> vm_error + bytes" where
  "pda_text programID seeds =
     (if programID = 0 then Inl VInvalidAccount
      else if seeds = [] \<or> MaxPDASeedCount < length seeds then Inl VInvalidAccount
      else rbind (pda_seeds seeds) (\<lambda>seedBytes. Inr (pdaDomain @ key_bytes programID @ seedBytes)))"

definition CreateProgramAddress :: "pubkey \<Rightarrow> bytes list \<Rightarrow> vm_error + pubkey" where
  "CreateProgramAddress programID seeds =
     rbind (pda_text programID seeds) (\<lambda>text.
       let address = sha256_hash text in
       if address = 0 then Inl VInvalidAccount else Inr address)"

text \<open>The seeds are length-prefixed, so different seeds are hashed as different texts.\<close>

lemma pda_seeds_append_inj:
  assumes "pda_seeds xs = Inr b" and "pda_seeds ys = Inr c" and "b = c"
  shows "xs = ys"
  using assms
proof (induction xs arbitrary: ys b c)
  case Nil
  then show ?case by (cases ys) (auto simp: result_simps split: if_splits)
next
  case (Cons x xs)
  then obtain r where x: "length x \<le> 32" and r: "pda_seeds xs = Inr r" and b: "b = of_nat (length x) # x @ r"
    by (auto simp: result_simps vm_limits split: if_splits)
  from Cons.prems b obtain y zs where ys: "ys = y # zs" by (cases ys) auto
  with Cons.prems obtain q where y: "length y \<le> 32" and q: "pda_seeds zs = Inr q" and c: "c = of_nat (length y) # y @ q"
    by (auto simp: result_simps vm_limits split: if_splits)
  have "unat (of_nat (length x) :: u8) = unat (of_nat (length y) :: u8)" using b c Cons.prems(3) by simp
  then have "length x = length y" using x y by simp
  moreover have "x @ r = y @ q" using b c Cons.prems(3) by simp
  ultimately have "x = y" and "r = q" by simp_all
  with Cons.IH [OF r q] show ?case by (simp add: ys)
qed

lemma key_bytes_inj: "key_bytes p = key_bytes q \<longleftrightarrow> p = q"
  by (metis get_put_uint(5))

section \<open>Properties\<close>

text \<open>
  Program addresses are hashes of texts that identify the program and the seeds: among all
  programs and seed lists that are accepted, two different ones never have the same text.
\<close>

theorem program_address_text_injective:
  "inj_on (\<lambda>(p, seeds). pda_text p seeds) {(p, seeds). \<exists>text. pda_text p seeds = Inr text}"
proof (rule inj_onI, clarify)
  fix p xs q ys t u
  assume eq: "pda_text p xs = pda_text q ys" and "pda_text p xs = Inr t"
  then obtain b c where b: "pda_seeds xs = Inr b" and c: "pda_seeds ys = Inr c"
    and same: "key_bytes p @ b = key_bytes q @ c"
    by (auto simp: pda_text_def result_simps split: if_splits)
  from same have "key_bytes p = key_bytes q" and "b = c" by simp_all
  then show "p = q \<and> xs = ys"
    using pda_seeds_append_inj [OF b c] by (simp add: key_bytes_inj)
qed

text \<open>
  C39: A write of account data succeeds only on a writable, non-executable account of the calling
  program and grows it by at most the permitted increase; afterwards the same range reads back as
  written and every other account is as before.
\<close>

theorem account_write_guarded:
  assumes "WriteData s i offset data = Inr t" and "offset < 2 ^ 62" and "length data < 2 ^ 62"
    and "0 < as_max_increase s" and "j \<noteq> i"
  shows "va_writable (as_accounts s ! i) \<and> va_owner (as_accounts s ! i) = as_program s \<and>
     \<not> va_executable (as_accounts s ! i) \<and>
     int (length (va_data (as_accounts t ! i))) \<le> int (length (va_data (as_accounts s ! i))) + as_max_increase s \<and>
     ReadData t i offset (int (length data)) = Inr data \<and> as_accounts t ! j = as_accounts s ! j"
proof -
  obtain a where i: "i < length (as_accounts s)" and a: "as_accounts s ! i = a" and w: "va_writable a"
    and own: "va_owner a = as_program s" and x: "\<not> va_executable a" and off: "0 \<le> offset"
    and grow: "int64_wrap (offset + int (length data)) \<le> int (length (va_data a)) + as_max_increase s"
    and t: "t = store_account s i (a\<lparr>va_data := write_at (va_data a) (nat offset) data\<rparr>)"
    using assms(1) by (rule WriteData_Inr)
  have "int (length data) < int (2 ^ 62)" using assms(3) by (simp only: of_nat_less_iff)
  then have "int64_wrap (offset + int (length data)) = offset + int (length data)"
    using off assms(2) by (intro int64_wrap_small) auto
  then have "int (length (write_at (va_data a) (nat offset) data)) \<le> int (length (va_data a)) + as_max_increase s"
    using grow off assms(4) by (simp add: write_at_def)
  then show ?thesis
    using i a w own x WriteData_ReadData [OF assms(1)] assms(5) by (simp add: t)
qed

definition demo_account :: "pubkey \<Rightarrow> pubkey \<Rightarrow> u64 \<Rightarrow> bytes \<Rightarrow> VmAccount" where
  "demo_account address owner lamports data =
     \<lparr>va_address = address, va_lamports = lamports, va_data = data, va_owner = owner, va_executable = False,
      va_rent_epoch = 0, va_signer = False, va_writable = True\<rparr>"

definition demo_set :: AccountSet where
  "demo_set = NewAccountSet 7 [demo_account 1 7 500 [1, 2, 3], demo_account 2 7 10 []] 0"

lemma account_write_guarded_witness:
  "\<exists>t. WriteData demo_set 0 2 [9, 9] = Inr t \<and> ReadData t 0 2 2 = Inr [9, 9] \<and>
     as_accounts t ! 1 = demo_account 2 7 10 []"
proof -
  obtain t where t: "WriteData demo_set 0 2 [9, 9] = Inr t"
    by (simp add: WriteData_def demo_set_def demo_account_def NewAccountSet_def mutableAccount_def
        int64_wrap_small vm_limits)
  from account_write_guarded [OF t, of 1] show ?thesis
    using t by (simp add: demo_set_def NewAccountSet_def vm_limits)
qed

text \<open>
  C38: The lamport transfer of the virtual machine keeps the sum of all balances when source and
  destination differ. With equal indexes it adds the amount to the account without taking it from
  anywhere.
\<close>

theorem vm_transfer_conserves_or_mints:
  assumes "Vm_TransferLamports s i j n = Inr t"
  shows "vm_total (as_accounts t) = vm_total (as_accounts s) + (if i = j then unat n else 0)"
  by (rule vm_transfer_total [OF assms])

lemma vm_transfer_conserves_or_mints_witness:
  "\<exists>t. Vm_TransferLamports demo_set 0 0 100 = Inr t \<and> vm_total (as_accounts demo_set) = 510 \<and>
     vm_total (as_accounts t) = 610"
proof -
  obtain t where t: "Vm_TransferLamports demo_set 0 0 100 = Inr t"
    by (simp add: Vm_TransferLamports_def demo_set_def demo_account_def NewAccountSet_def mutableAccount_def)
  have "vm_total (as_accounts demo_set) = 510"
    by (simp add: vm_total_def demo_set_def NewAccountSet_def demo_account_def)
  with vm_transfer_conserves_or_mints [OF t] t show ?thesis by simp
qed

end
