(* ===== verification/Vm_Programs.thy ===== *)
theory Vm_Programs
  imports Vm_Accounts
begin

text \<open>
  \<open>vm/program.go\<close>: the three envelopes of a program (legacy, register, governed by a manifest),
  their encoders and the loader that tells them apart.
\<close>

section \<open>Values\<close>

type_synonym SyscallID = u32

record ProgramManifest =
  pm_limit :: u64
  pm_authority :: pubkey
  pm_syscalls :: "SyscallID list"

record Program =
  pr_version :: u16
  pr_format :: u16
  pr_code :: bytes
  pr_readonly :: bytes
  pr_manifest :: "ProgramManifest option"

definition BytecodeVersion :: u16 where "BytecodeVersion = 1"
definition bytecodeHeader :: bytes where "bytecodeHeader = ascii ''OVM1''"
definition legacyBytecodeHeader :: bytes where "legacyBytecodeHeader = ascii ''SVM1''"
definition programFormatLegacy :: u16 where "programFormatLegacy = 0"
definition programFormatRegister :: u16 where "programFormatRegister = 1"
definition programFormatManifest :: u16 where "programFormatManifest = 2"
definition registerHeaderSize :: nat where "registerHeaderSize = 16"
definition registerChecksumSize :: nat where "registerChecksumSize = 32"
definition manifestHeaderSize :: nat where "manifestHeaderSize = 62"

lemmas program_constants = BytecodeVersion_def programFormatLegacy_def programFormatRegister_def
  programFormatManifest_def registerHeaderSize_def registerChecksumSize_def manifestHeaderSize_def

lemma length_bytecodeHeader [simp]: "length bytecodeHeader = 4"
  by (simp add: bytecodeHeader_def)

definition isSupportedBytecodeHeader :: "bytes \<Rightarrow> bool" where
  "isSupportedBytecodeHeader header \<longleftrightarrow> header = bytecodeHeader \<or> header = legacyBytecodeHeader"

section \<open>Readers\<close>

text \<open>
  \<open>bytes.Reader.Read\<close> into a zeroed buffer of \<open>n\<close> octets: it fails at the end of the text only,
  and leaves the tail of the buffer zero when the text is shorter than the buffer.
\<close>

definition reader_read :: "nat \<Rightarrow> bytes \<Rightarrow> (bytes \<times> bytes) option" where
  "reader_read n rest =
     (if rest = [] then None else Some (take n rest @ replicate (n - length rest) 0, drop n rest))"

lemma reader_read_exact [simp]:
  "length a = n \<Longrightarrow> a @ rest \<noteq> [] \<Longrightarrow> reader_read n (a @ rest) = Some (a, rest)"
  by (simp add: reader_read_def)

text \<open>\<open>binary.LittleEndian.UintN(data[off:])\<close> where the octets are known to exist.\<close>

definition le_at :: "nat \<Rightarrow> bytes \<Rightarrow> nat \<Rightarrow> 'a::len word" where
  "le_at k data off = get_le (take k (drop off data))"

section \<open>The manifest\<close>

fun unique_syscalls :: "SyscallID list \<Rightarrow> SyscallID list \<Rightarrow> vm_error + SyscallID list" where
  "unique_syscalls seen [] = Inr []"
| "unique_syscalls seen (i # ids) =
     (if i = 0 then Inl VInvalidProgram
      else if i \<in> set seen then unique_syscalls seen ids
      else rbind (unique_syscalls (i # seen) ids) (\<lambda>r. Inr (i # r)))"

definition normalizeProgramManifest :: "ProgramManifest \<Rightarrow> vm_error + ProgramManifest" where
  "normalizeProgramManifest m =
     (if MaxComputeUnitLimit < pm_limit m then Inl VInvalidProgram
      else if MaxProgramSyscallCount < length (pm_syscalls m) then Inl VInvalidProgram
      else
        rbind (unique_syscalls [] (pm_syscalls m)) (\<lambda>ids.
          Inr (m\<lparr>pm_syscalls := sort ids\<rparr>)))"

definition programManifestSyscallsEqual :: "SyscallID list \<Rightarrow> SyscallID list \<Rightarrow> bool" where
  "programManifestSyscallsEqual l r \<longleftrightarrow> length l = length r \<and> list_all (\<lambda>(x, y). x = y) (zip l r)"

section \<open>Encoders\<close>

definition EncodeBytecode :: "bytes \<Rightarrow> vm_error + bytes" where
  "EncodeBytecode code =
     (if code = [] then Inl VInvalidProgram
      else if MaxProgramDataSize < length code then Inl VInvalidProgram
      else Inr (bytecodeHeader @ put_le 2 BytecodeVersion @ put_le 4 (of_nat (length code) :: u32) @ code))"

definition EncodeRegisterBytecode :: "bytes \<Rightarrow> bytes \<Rightarrow> vm_error + bytes" where
  "EncodeRegisterBytecode code readOnlyData =
     (if code = [] then Inl VInvalidProgram
      else if length code mod RegisterInstructionSize \<noteq> 0 then Inl VInvalidProgram
      else if MaxProgramDataSize < length code + length readOnlyData then Inl VInvalidProgram
      else if MaxReadOnlyDataSize < length readOnlyData then Inl VInvalidProgram
      else
        let buffer = bytecodeHeader @ put_le 2 BytecodeVersion @ put_le 2 programFormatRegister @
              put_le 4 (of_nat (length code) :: u32) @ put_le 4 (of_nat (length readOnlyData) :: u32) @
              code @ readOnlyData
        in Inr (buffer @ sha256 buffer))"

definition encodeManifestBytecode ::
    "u16 \<Rightarrow> bytes \<Rightarrow> bytes \<Rightarrow> ProgramManifest \<Rightarrow> vm_error + bytes" where
  "encodeManifestBytecode executableFormat code readOnlyData manifest =
     rbind (normalizeProgramManifest manifest) (\<lambda>m.
       if executableFormat \<noteq> programFormatLegacy \<and> executableFormat \<noteq> programFormatRegister
         then Inl VInvalidProgram
       else if MaxProgramDataSize < length code + length readOnlyData then Inl VInvalidProgram
       else if MaxReadOnlyDataSize < length readOnlyData then Inl VInvalidProgram
       else
         let buffer = bytecodeHeader @ put_le 2 BytecodeVersion @ put_le 2 programFormatManifest @
               put_le 2 executableFormat @ put_le 2 (0 :: u16) @ put_le 8 (pm_limit m) @
               key_bytes (pm_authority m) @ put_le 2 (of_nat (length (pm_syscalls m)) :: u16) @
               put_le 4 (of_nat (length code) :: u32) @ put_le 4 (of_nat (length readOnlyData) :: u32) @
               concat (map (put_le 4) (pm_syscalls m)) @ code @ readOnlyData
         in Inr (buffer @ sha256 buffer))"

definition EncodeGovernedBytecode :: "bytes \<Rightarrow> ProgramManifest \<Rightarrow> vm_error + bytes" where
  "EncodeGovernedBytecode code manifest =
     (if code = [] then Inl VInvalidProgram
      else if MaxProgramDataSize < length code then Inl VInvalidProgram
      else encodeManifestBytecode programFormatLegacy code [] manifest)"

definition EncodeGovernedRegisterBytecode ::
    "bytes \<Rightarrow> bytes \<Rightarrow> ProgramManifest \<Rightarrow> vm_error + bytes" where
  "EncodeGovernedRegisterBytecode code readOnlyData manifest =
     (if code = [] then Inl VInvalidProgram
      else if length code mod RegisterInstructionSize \<noteq> 0 then Inl VInvalidProgram
      else if MaxProgramDataSize < length code + length readOnlyData then Inl VInvalidProgram
      else if MaxReadOnlyDataSize < length readOnlyData then Inl VInvalidProgram
      else encodeManifestBytecode programFormatRegister code readOnlyData manifest)"

section \<open>The loader\<close>

text \<open>
  A partial loader answers with nothing when the text is of another format: \<open>ok\<close> is false and the
  error nil in the source.
\<close>

definition loadLegacyProgram :: "u16 \<Rightarrow> bytes \<Rightarrow> vm_error + Program option" where
  "loadLegacyProgram version data =
     (if length data < 10 then Inr None
      else
        let codeLength = le_at 4 data 6 :: u32 in
        if codeLength = 0 \<or> unat codeLength \<noteq> length data - 10 then Inr None
        else Inr (Some \<lparr>pr_version = version, pr_format = programFormatLegacy, pr_code = drop 10 data,
                        pr_readonly = [], pr_manifest = None\<rparr>))"

definition loadManifestProgram :: "u16 \<Rightarrow> bytes \<Rightarrow> vm_error + Program option" where
  "loadManifestProgram version data =
     (if length data < manifestHeaderSize + registerChecksumSize then Inr None
      else if (le_at 2 data 6 :: u16) \<noteq> programFormatManifest then Inr None
      else
        let checksumOffset = length data - registerChecksumSize in
        if sha256 (take checksumOffset data) \<noteq> drop checksumOffset data then Inl VInvalidProgram
        else
          let executableFormat = le_at 2 data 8 :: u16 in
          if executableFormat \<noteq> programFormatLegacy \<and> executableFormat \<noteq> programFormatRegister
            then Inl VInvalidProgram
          else if (le_at 2 data 10 :: u16) \<noteq> 0 then Inl VInvalidProgram
          else
            let syscallCount = le_at 2 data 52 :: u16;
                codeLength = le_at 4 data 54 :: u32;
                readOnlyLength = le_at 4 data 58 :: u32
            in
            if MaxProgramSyscallCount < unat syscallCount then Inl VInvalidProgram
            else if codeLength = 0 then Inl VInvalidProgram
            else if executableFormat = programFormatRegister \<and> unat codeLength mod RegisterInstructionSize \<noteq> 0
              then Inl VInvalidProgram
            else if MaxReadOnlyDataSize < unat readOnlyLength then Inl VInvalidProgram
            else
              let sectionStart = manifestHeaderSize + unat syscallCount * 4 in
              if int (unat codeLength) + int (unat readOnlyLength) \<noteq> int checksumOffset - int sectionStart
                then Inl VInvalidProgram
              else
                let manifest = \<lparr>pm_limit = le_at 8 data 12, pm_authority = le_at 32 data 20,
                      pm_syscalls = map (\<lambda>index. le_at 4 data (manifestHeaderSize + index * 4)) [0..<unat syscallCount]\<rparr>
                in
                rbind (normalizeProgramManifest manifest) (\<lambda>normalizedManifest.
                  if \<not> programManifestSyscallsEqual (pm_syscalls manifest) (pm_syscalls normalizedManifest)
                    then Inl VInvalidProgram
                  else
                    let codeEnd = sectionStart + unat codeLength in
                    Inr (Some \<lparr>pr_version = version, pr_format = executableFormat,
                      pr_code = take (unat codeLength) (drop sectionStart data),
                      pr_readonly = take (unat readOnlyLength) (drop codeEnd data),
                      pr_manifest = Some normalizedManifest\<rparr>)))"

definition loadRegisterProgram :: "u16 \<Rightarrow> bytes \<Rightarrow> vm_error + Program" where
  "loadRegisterProgram version data =
     (if length data < registerHeaderSize + registerChecksumSize then Inl VInvalidProgram
      else
        let checksumOffset = length data - registerChecksumSize in
        if sha256 (take checksumOffset data) \<noteq> drop checksumOffset data then Inl VInvalidProgram
        else
          let format = le_at 2 data 6 :: u16;
              codeLength = le_at 4 data 8 :: u32;
              readOnlyLength = le_at 4 data 12 :: u32
          in
          if format \<noteq> programFormatRegister then Inl VInvalidProgram
          else if codeLength = 0 \<or> unat codeLength mod RegisterInstructionSize \<noteq> 0 then Inl VInvalidProgram
          else if MaxReadOnlyDataSize < unat readOnlyLength then Inl VInvalidProgram
          else if int (unat codeLength) + int (unat readOnlyLength) \<noteq> int checksumOffset - int registerHeaderSize
            then Inl VInvalidProgram
          else
            let codeEnd = registerHeaderSize + unat codeLength in
            Inr \<lparr>pr_version = version, pr_format = format,
              pr_code = take (unat codeLength) (drop registerHeaderSize data),
              pr_readonly = take (unat readOnlyLength) (drop codeEnd data), pr_manifest = None\<rparr>)"

definition Load :: "ProgramAccount \<Rightarrow> pubkey \<Rightarrow> vm_error + Program" where
  "Load programAccount loaderID =
     (if \<not> pa_executable programAccount then Inl VInvalidProgram
      else if pa_owner programAccount \<noteq> loaderID then Inl VInvalidProgram
      else if MaxProgramDataSize < length (pa_data programAccount) then Inl VInvalidProgram
      else
        let data = pa_data programAccount in
        case reader_read 4 data of None \<Rightarrow> Inl VInvalidProgram
        | Some (header, rest) \<Rightarrow>
            if \<not> isSupportedBytecodeHeader header then Inl VInvalidProgram
            else
              (case reader_read 2 rest of None \<Rightarrow> Inl VInvalidProgram
               | Some (v, _) \<Rightarrow>
                   let version = get_le v in
                   if version \<noteq> BytecodeVersion then Inl VInvalidProgram
                   else
                     rbind (loadLegacyProgram version data) (\<lambda>legacy.
                       case legacy of Some p \<Rightarrow> Inr p
                       | None \<Rightarrow>
                           rbind (loadManifestProgram version data) (\<lambda>governed.
                             case governed of Some p \<Rightarrow> Inr p | None \<Rightarrow> loadRegisterProgram version data))))"

definition DecodeProgramManifest :: "bytes \<Rightarrow> vm_error + ProgramManifest option" where
  "DecodeProgramManifest data =
     (if MaxProgramDataSize < length data then Inl VInvalidProgram
      else if length data < 6 then Inl VInvalidProgram
      else if \<not> isSupportedBytecodeHeader (take 4 data) then Inl VInvalidProgram
      else if (le_at 2 data 4 :: u16) \<noteq> BytecodeVersion then Inl VInvalidProgram
      else
        rbind (loadLegacyProgram BytecodeVersion data) (\<lambda>legacy.
          case legacy of Some _ \<Rightarrow> Inr None
          | None \<Rightarrow>
              rbind (loadManifestProgram BytecodeVersion data) (\<lambda>governed.
                case governed of None \<Rightarrow> Inr None | Some p \<Rightarrow> Inr (pr_manifest p))))"

definition BytecodeProgramsEqual :: "bytes \<Rightarrow> bytes \<Rightarrow> bool" where
  "BytecodeProgramsEqual l r =
     (let load = \<lambda>data. Load \<lparr>pa_address = 0, pa_owner = 0, pa_executable = True, pa_data = data\<rparr> 0 in
      case (load l, load r) of
        (Inr p, Inr q) \<Rightarrow>
          if pr_version p \<noteq> pr_version q \<or> pr_format p \<noteq> pr_format q \<or> pr_code p \<noteq> pr_code q \<or>
             pr_readonly p \<noteq> pr_readonly q
            then False
          else
            (case (pr_manifest p, pr_manifest q) of
               (Some m, Some n) \<Rightarrow>
                 pm_limit m = pm_limit n \<and> pm_authority m = pm_authority n \<and>
                 programManifestSyscallsEqual (pm_syscalls m) (pm_syscalls n)
             | (x, y) \<Rightarrow> x = None \<and> y = None)
      | _ \<Rightarrow> False)"

section \<open>Fields of an encoded program\<close>

lemma le_nat_append: "le_nat (a @ b) = le_nat a + 256 ^ length a * le_nat b"
  by (induction a) (simp_all add: algebra_simps)

lemma take_nat_le: "j \<le> k \<Longrightarrow> take j (nat_le k n) = nat_le j n"
proof (induction k arbitrary: j n)
  case (Suc k)
  then show ?case by (cases j) simp_all
qed simp

lemma le_at_split [simp]:
  assumes "length pre = off" and "length field = k"
  shows "le_at k (pre @ field @ rest) off = get_le field"
  using assms by (simp add: le_at_def)

lemma unat_le_at_4:
  assumes "length pre = off" and "length (lo :: bytes) = 2" and "2 \<le> length hi"
  shows "unat (le_at 4 (pre @ lo @ hi @ rest) off :: u32) = le_nat lo + 65536 * le_nat (take 2 hi)"
proof -
  have split: "take 4 (drop off (pre @ lo @ hi @ rest)) = lo @ take 2 hi"
    using assms by simp
  have len: "length (lo @ take 2 hi) = 4" using assms by simp
  have "le_nat (lo @ take 2 hi) < 2 ^ 32"
    using le_nat_less [of "lo @ take 2 hi"] by (simp only: len) simp
  then have "unat (of_nat (le_nat (lo @ take 2 hi)) :: u32) = le_nat (lo @ take 2 hi)"
    by (simp only: unat_of_nat) simp
  moreover have "le_nat (lo @ take 2 hi) = le_nat lo + 65536 * le_nat (take 2 hi)"
    using assms by (simp add: le_nat_append)
  ultimately show ?thesis by (simp only: le_at_def get_le_def split)
qed

lemma unat_of_nat_u32: "n < 2 ^ 32 \<Longrightarrow> unat (of_nat n :: u32) = n"
  by (simp add: unat_of_nat)

lemma of_nat_u32_eq_0:
  assumes "n < 2 ^ 32"
  shows "(of_nat n :: u32) = 0 \<longleftrightarrow> n = 0"
  using unat_of_nat_u32 [OF assms] by auto

lemma checksum_split [simp]: "take (length b) (b @ sha256 b) = b" "drop (length b) (b @ sha256 b) = sha256 b"
  by simp_all

text \<open>The account the loader is asked to load, and the part of the loader before the formats.\<close>

definition program_account :: "pubkey \<Rightarrow> bytes \<Rightarrow> ProgramAccount" where
  "program_account loaderID data =
     \<lparr>pa_address = 0, pa_owner = loaderID, pa_executable = True, pa_data = data\<rparr>"

definition load_formats :: "bytes \<Rightarrow> vm_error + Program" where
  "load_formats data =
     rbind (loadLegacyProgram 1 data) (\<lambda>legacy.
       case legacy of Some p \<Rightarrow> Inr p
       | None \<Rightarrow>
           rbind (loadManifestProgram 1 data) (\<lambda>governed.
             case governed of Some p \<Rightarrow> Inr p | None \<Rightarrow> loadRegisterProgram 1 data))"

lemma Load_envelope:
  assumes "length (bytecodeHeader @ put_le 2 BytecodeVersion @ rest) \<le> MaxProgramDataSize"
  shows "Load (program_account l (bytecodeHeader @ put_le 2 BytecodeVersion @ rest)) l =
           load_formats (bytecodeHeader @ put_le 2 BytecodeVersion @ rest)"
proof -
  have "reader_read 4 (bytecodeHeader @ put_le 2 BytecodeVersion @ rest) = Some (bytecodeHeader, put_le 2 BytecodeVersion @ rest)"
    by (intro reader_read_exact) (simp_all flip: length_0_conv)
  moreover have "reader_read 2 (put_le 2 BytecodeVersion @ rest) = Some (put_le 2 BytecodeVersion, rest)"
    by (intro reader_read_exact) (simp_all flip: length_0_conv)
  ultimately show ?thesis
    using assms
    by (simp add: Load_def program_account_def isSupportedBytecodeHeader_def load_formats_def BytecodeVersion_def Let_def)
qed

section \<open>Loading what was encoded\<close>

lemma legacy_loads:
  assumes "EncodeBytecode code = Inr data"
  shows "loadLegacyProgram v data = Inr (Some \<lparr>pr_version = v, pr_format = programFormatLegacy,
           pr_code = code, pr_readonly = [], pr_manifest = None\<rparr>)"
proof -
  have ne: "code \<noteq> []" and len: "length code < 2 ^ 32"
    and data: "data = (bytecodeHeader @ put_le 2 BytecodeVersion) @ put_le 4 (of_nat (length code) :: u32) @ code"
    using assms by (auto simp: EncodeBytecode_def vm_limits split: if_splits)
  have "le_at 4 data 6 = (of_nat (length code) :: u32)"
    unfolding data by (subst le_at_split) simp_all
  then show ?thesis
    using ne of_nat_u32_eq_0 [OF len] unat_of_nat_u32 [OF len]
    by (simp add: loadLegacyProgram_def data)
qed

text \<open>
  The length field of a legacy program lies over the format tag and half of the code length of a
  register program. The two readings never agree within the size limit of a program.
\<close>

lemma register_length_no_clash:
  fixes c r :: nat
  assumes "c mod 16 = 0" and "r \<le> 65536" and "c + r + 48 \<le> 1048576"
  shows "c + r + 38 \<noteq> 1 + 65536 * (c mod 65536)"
proof
  assume eq: "c + r + 38 = 1 + 65536 * (c mod 65536)"
  define q k where "q = c div 65536" and "k = c mod 65536"
  have c: "c = 65536 * q + k" by (simp add: q_def k_def)
  have "k mod 16 = c mod 16" unfolding k_def by (simp add: mod_mod_cancel)
  with assms(1) obtain j where k: "k = 16 * j" by (auto simp: mod_eq_0_iff_dvd elim: dvdE)
  have q: "q \<le> 15" using assms(3) c by linarith
  have eq': "65536 * q + 16 * j + r + 38 = 1 + 65536 * (16 * j)" using eq c k k_def by simp
  consider "j = 0" | "j = 1" | "2 \<le> j" by linarith
  then show False
    using eq' q assms(2,3) c k by cases linarith+
qed

lemma register_loads:
  assumes "EncodeRegisterBytecode code ro = Inr data"
  shows "loadRegisterProgram v data = Inr \<lparr>pr_version = v, pr_format = programFormatRegister,
           pr_code = code, pr_readonly = ro, pr_manifest = None\<rparr>"
    and "loadManifestProgram v data = Inr None"
    and "length data \<le> MaxProgramDataSize \<Longrightarrow> loadLegacyProgram v data = Inr None"
    and "length data = 48 + length code + length ro"
    and "\<exists>rest. data = bytecodeHeader @ put_le 2 BytecodeVersion @ rest"
proof -
  define body where "body = bytecodeHeader @ put_le 2 BytecodeVersion @ put_le 2 programFormatRegister @
      put_le 4 (of_nat (length code) :: u32) @ put_le 4 (of_nat (length ro) :: u32) @ code @ ro"
  have ne: "code \<noteq> []" and al: "length code mod 16 = 0" and ro: "length ro \<le> 65536"
    and clen: "length code < 2 ^ 32" and rlen: "length ro < 2 ^ 32" and data: "data = body @ sha256 body"
    using assms by (auto simp: EncodeRegisterBytecode_def vm_limits body_def Let_def split: if_splits)
  have blen: "length body = 16 + length code + length ro" by (simp add: body_def)
  show len: "length data = 48 + length code + length ro" by (simp add: data blen)
  show "\<exists>rest. data = bytecodeHeader @ put_le 2 BytecodeVersion @ rest" by (simp add: data body_def)
  have f6: "le_at 2 data 6 = programFormatRegister"
    and f8: "le_at 4 data 8 = (of_nat (length code) :: u32)"
    and f12: "le_at 4 data 12 = (of_nat (length ro) :: u32)"
    by (simp_all add: le_at_def data body_def)
  note nums = unat_of_nat_u32 [OF clen] unat_of_nat_u32 [OF rlen] of_nat_u32_eq_0 [OF clen]
  have sum: "sha256 (take (length data - 32) data) = drop (length data - 32) data"
    by (simp add: data)
  have code: "take (length code) (drop 16 data) = code"
    and rod: "take (length ro) (drop (16 + length code) data) = ro"
    by (simp_all add: data body_def)
  show "loadRegisterProgram v data = Inr \<lparr>pr_version = v, pr_format = programFormatRegister,
           pr_code = code, pr_readonly = ro, pr_manifest = None\<rparr>"
    using ne al ro sum code rod
    by (simp add: loadRegisterProgram_def program_constants(4-) vm_limits len f6 f8 f12 nums Let_def)
  show "loadManifestProgram v data = Inr None"
    by (simp add: loadManifestProgram_def f6 program_constants)
  show "loadLegacyProgram v data = Inr None" if "length data \<le> MaxProgramDataSize"
  proof -
    have "unat (le_at 4 data 6 :: u32) = 1 + 65536 * (length code mod 65536)"
    proof -
      have "data = (bytecodeHeader @ put_le 2 BytecodeVersion) @ put_le 2 programFormatRegister @
          put_le 4 (of_nat (length code) :: u32) @
          put_le 4 (of_nat (length ro) :: u32) @ code @ ro @ sha256 body"
        unfolding data by (simp add: body_def)
      then have "unat (le_at 4 data 6 :: u32) =
          le_nat (put_le 2 programFormatRegister) + 65536 * le_nat (take 2 (put_le 4 (of_nat (length code) :: u32)))"
        by (simp only: unat_le_at_4 length_append length_bytecodeHeader length_put_le)
      also have "\<dots> = 1 + 65536 * (length code mod 65536)"
        by (simp add: put_le_def take_nat_le le_nat_nat_le nums programFormatRegister_def del: nat_le_numeral)
      finally show ?thesis .
    qed
    moreover have "length code + length ro + 38 \<noteq> 1 + 65536 * (length code mod 65536)"
      using al ro that by (intro register_length_no_clash) (simp_all add: len vm_limits)
    ultimately show ?thesis by (simp add: loadLegacyProgram_def Let_def len)
  qed
qed

section \<open>Manifests\<close>

definition manifest_ok :: "ProgramManifest \<Rightarrow> bool" where
  "manifest_ok m \<longleftrightarrow> pm_limit m \<le> MaxComputeUnitLimit \<and> length (pm_syscalls m) \<le> MaxProgramSyscallCount \<and>
     sorted (pm_syscalls m) \<and> distinct (pm_syscalls m) \<and> 0 \<notin> set (pm_syscalls m)"

lemma unique_syscalls_Inr:
  "unique_syscalls seen ids = Inr r \<Longrightarrow>
     distinct r \<and> set r = set ids - set seen \<and> 0 \<notin> set ids \<and> length r \<le> length ids"
proof (induction ids arbitrary: seen r)
  case (Cons i ids)
  have i: "i \<noteq> 0" using Cons.prems by (cases "i = 0") simp_all
  show ?case
  proof (cases "i \<in> set seen")
    case True
    with Cons.prems i have "unique_syscalls seen ids = Inr r" by simp
    from Cons.IH [OF this] i True show ?thesis by (simp add: insert_Diff_if)
  next
    case False
    with Cons.prems i obtain q where q: "unique_syscalls (i # seen) ids = Inr q" and r: "r = i # q"
      by (auto simp: result_simps)
    from Cons.IH [OF q] i False show ?thesis unfolding r by auto
  qed
qed simp

lemma unique_syscalls_distinct:
  "distinct ids \<Longrightarrow> 0 \<notin> set ids \<Longrightarrow> set ids \<inter> set seen = {} \<Longrightarrow> unique_syscalls seen ids = Inr ids"
proof (induction ids arbitrary: seen)
  case (Cons i ids)
  then have "unique_syscalls (i # seen) ids = Inr ids" by (intro Cons.IH) simp_all
  then show ?case using Cons.prems by simp
qed simp

lemma normalize_ok:
  assumes "normalizeProgramManifest m = Inr n"
  shows "manifest_ok n" and "set (pm_syscalls n) = set (pm_syscalls m)" and "pm_limit n = pm_limit m"
    and "pm_authority n = pm_authority m"
  using assms unique_syscalls_Inr [of "[]" "pm_syscalls m"]
  by (fastforce simp: normalizeProgramManifest_def manifest_ok_def result_simps split: if_splits)+

lemma normalize_idem: "manifest_ok m \<Longrightarrow> normalizeProgramManifest m = Inr m"
  by (simp add: normalizeProgramManifest_def manifest_ok_def unique_syscalls_distinct not_less
      sorted_sort_id)

lemma programManifestSyscallsEqual_iff [simp]: "programManifestSyscallsEqual l r \<longleftrightarrow> l = r"
  by (auto simp: programManifestSyscallsEqual_def list_all_iff list_eq_iff_zip_eq)

lemma le_at_nth:
  "i < length ids \<Longrightarrow> length pre = off \<Longrightarrow>
     le_at 4 (pre @ concat (map (put_le 4) ids) @ rest) (off + i * 4) = (ids ! i :: u32)"
proof (induction ids arbitrary: i pre off)
  case (Cons x xs)
  show ?case
  proof (cases i)
    case 0
    then show ?thesis using Cons.prems by simp
  next
    case (Suc j)
    then show ?thesis
      using Cons.IH [of j "pre @ put_le 4 x" "off + 4"] Cons.prems by (simp add: add.assoc)
  qed
qed simp

lemma le_at_map:
  "length pre = off \<Longrightarrow>
     map (\<lambda>i. le_at 4 (pre @ concat (map (put_le 4) ids) @ rest) (off + i * 4)) [0..<length ids] = (ids :: u32 list)"
  by (rule nth_equalityI) (simp_all add: le_at_nth)

lemma length_concat_put [simp]: "length (concat (map (put_le k) ids)) = k * length ids"
  by (induction ids) simp_all

text \<open>The fixed part of a governed program, and its fields wherever it is the front of a text.\<close>

definition manifest_front :: "u16 \<Rightarrow> ProgramManifest \<Rightarrow> bytes \<Rightarrow> bytes \<Rightarrow> bytes" where
  "manifest_front format n code ro =
     bytecodeHeader @ put_le 2 BytecodeVersion @ put_le 2 programFormatManifest @
     put_le 2 format @ put_le 2 (0 :: u16) @ put_le 8 (pm_limit n) @ key_bytes (pm_authority n) @
     put_le 2 (of_nat (length (pm_syscalls n)) :: u16) @ put_le 4 (of_nat (length code) :: u32) @
     put_le 4 (of_nat (length ro) :: u32)"

lemma length_manifest_front [simp]: "length (manifest_front format n code ro) = 62"
  by (simp add: manifest_front_def)

lemma manifest_front_envelope:
  "\<exists>r. manifest_front format n code ro @ rest = bytecodeHeader @ put_le 2 BytecodeVersion @ r"
  by (simp add: manifest_front_def)

lemma manifest_front_fields:
  defines "data \<equiv> \<lambda>format n code ro rest. manifest_front format n code ro @ rest"
  shows "le_at 2 (data format n code ro rest) 6 = programFormatManifest"
    and "le_at 2 (data format n code ro rest) 8 = format"
    and "le_at 2 (data format n code ro rest) 10 = (0 :: u16)"
    and "le_at 8 (data format n code ro rest) 12 = pm_limit n"
    and "le_at 32 (data format n code ro rest) 20 = pm_authority n"
    and "le_at 2 (data format n code ro rest) 52 = (of_nat (length (pm_syscalls n)) :: u16)"
    and "le_at 4 (data format n code ro rest) 54 = (of_nat (length code) :: u32)"
    and "le_at 4 (data format n code ro rest) 58 = (of_nat (length ro) :: u32)"
  by (simp_all add: le_at_def data_def manifest_front_def)

lemma manifest_front_as_legacy:
  "unat (le_at 4 (manifest_front format n code ro @ rest) 6 :: u32) = 2 + 65536 * unat format"
proof -
  have "\<exists>r. manifest_front format n code ro @ rest =
      (bytecodeHeader @ put_le 2 BytecodeVersion) @ put_le 2 programFormatManifest @ put_le 2 format @ r"
    by (simp add: manifest_front_def)
  then have "unat (le_at 4 (manifest_front format n code ro @ rest) 6 :: u32) =
      le_nat (put_le 2 programFormatManifest) + 65536 * le_nat (take 2 (put_le 2 format))"
    by (elim exE) (simp only: unat_le_at_4 length_append length_bytecodeHeader length_put_le)
  moreover have "unat format < 65536" using unsigned_less [of format, where 'a = nat] by simp
  then have "le_nat (put_le 2 programFormatManifest) + 65536 * le_nat (take 2 (put_le 2 format)) = 2 + 65536 * unat format"
    by (simp add: put_le_def le_nat_nat_le programFormatManifest_def del: nat_le_numeral)
  ultimately show ?thesis by simp
qed

lemma governed_encoding:
  assumes "encodeManifestBytecode format code ro m = Inr data"
  obtains n body where "normalizeProgramManifest m = Inr n" and "format = 0 \<or> format = 1"
    and "length code + length ro \<le> 1048576" and "length ro \<le> 65536"
    and "body = manifest_front format n code ro @ concat (map (put_le 4) (pm_syscalls n)) @ code @ ro"
    and "data = body @ sha256 body"
  using assms
  by (auto simp: encodeManifestBytecode_def manifest_front_def result_simps vm_limits Let_def
      program_constants(2,3) split: if_splits)

lemma governed_loads:
  assumes enc: "encodeManifestBytecode format code ro m = Inr data" and ne: "code \<noteq> []"
    and al: "format = programFormatRegister \<longrightarrow> length code mod 16 = 0"
  obtains n where "normalizeProgramManifest m = Inr n"
    and "loadManifestProgram v data = Inr (Some \<lparr>pr_version = v, pr_format = format,
           pr_code = code, pr_readonly = ro, pr_manifest = Some n\<rparr>)"
    and "unat (le_at 4 data 6 :: u32) = 2 + 65536 * unat format"
    and "94 < length data" and "format = 0 \<or> format = 1"
    and "\<exists>rest. data = bytecodeHeader @ put_le 2 BytecodeVersion @ rest"
proof -
  obtain n body where n: "normalizeProgramManifest m = Inr n" and fmt: "format = 0 \<or> format = 1"
    and size: "length code + length ro \<le> 1048576" and ro: "length ro \<le> 65536"
    and body: "body = manifest_front format n code ro @ concat (map (put_le 4) (pm_syscalls n)) @ code @ ro"
    and sum: "data = body @ sha256 body"
    using enc by (rule governed_encoding)
  have data: "data = manifest_front format n code ro @ concat (map (put_le 4) (pm_syscalls n)) @ code @ ro @ sha256 body"
    by (simp add: sum body)
  have len: "length data = 94 + 4 * length (pm_syscalls n) + length code + length ro"
    by (simp add: data)
  have clen: "length code < 2 ^ 32" and rlen: "length ro < 2 ^ 32" using size ro by simp_all
  have ok: "manifest_ok n" by (rule normalize_ok [OF n])
  then have few: "length (pm_syscalls n) \<le> 64" by (simp add: manifest_ok_def vm_limits)
  then have count: "unat (of_nat (length (pm_syscalls n)) :: u16) = length (pm_syscalls n)"
    by (simp add: unat_of_nat)
  note nums = unat_of_nat_u32 [OF clen] unat_of_nat_u32 [OF rlen] of_nat_u32_eq_0 [OF clen] count
  note fields = manifest_front_fields [of format n code ro
      "concat (map (put_le 4) (pm_syscalls n)) @ code @ ro @ sha256 body", folded data]
  have ids: "map (\<lambda>i. le_at 4 data (62 + i * 4)) [0..<length (pm_syscalls n)] = pm_syscalls n"
    unfolding data by (rule le_at_map) simp
  have check: "sha256 (take (length data - 32) data) = drop (length data - 32) data"
    by (simp add: sum)
  have code: "take (length code) (drop (62 + length (pm_syscalls n) * 4) data) = code"
    and rod: "take (length ro) (drop (62 + length (pm_syscalls n) * 4 + length code) data) = ro"
    by (simp_all add: data)
  have same: "\<lparr>pm_limit = pm_limit n, pm_authority = pm_authority n, pm_syscalls = pm_syscalls n\<rparr> = n"
    by simp
  have "loadManifestProgram v data = Inr (Some \<lparr>pr_version = v, pr_format = format,
           pr_code = code, pr_readonly = ro, pr_manifest = Some n\<rparr>)"
    using fmt ne al ro few check code rod
    by (simp add: loadManifestProgram_def Let_def vm_limits program_constants(2-) fields nums ids len
        same normalize_idem [OF ok])
  moreover have "unat (le_at 4 data 6 :: u32) = 2 + 65536 * unat format"
    unfolding data by (rule manifest_front_as_legacy)
  moreover have "94 < length data" using len ne by (cases code) simp_all
  ultimately show thesis
    using that [OF n] fmt manifest_front_envelope [of format n code ro, folded data] data
    by (metis manifest_front_envelope)
qed

section \<open>Properties\<close>

lemma DecodeProgramManifest_envelope:
  assumes "length (bytecodeHeader @ put_le 2 BytecodeVersion @ rest) \<le> MaxProgramDataSize"
  shows "DecodeProgramManifest (bytecodeHeader @ put_le 2 BytecodeVersion @ rest) =
     rbind (loadLegacyProgram 1 (bytecodeHeader @ put_le 2 BytecodeVersion @ rest)) (\<lambda>legacy.
       case legacy of Some _ \<Rightarrow> Inr None
       | None \<Rightarrow>
           rbind (loadManifestProgram 1 (bytecodeHeader @ put_le 2 BytecodeVersion @ rest)) (\<lambda>governed.
             case governed of None \<Rightarrow> Inr None | Some p \<Rightarrow> Inr (pr_manifest p)))"
proof -
  have "le_at 2 (bytecodeHeader @ put_le 2 BytecodeVersion @ rest) 4 = BytecodeVersion"
    by (subst le_at_split) simp_all
  then show ?thesis
    using assms by (simp add: DecodeProgramManifest_def isSupportedBytecodeHeader_def BytecodeVersion_def)
qed

text \<open>
  The loader inverts the encoders of ungoverned programs: what \<open>EncodeBytecode\<close> and
  \<open>EncodeRegisterBytecode\<close> produce is loaded back, with its format, code and read-only data,
  whenever it respects the size limit of the loader. In particular no register program is ever
  mistaken for a legacy one.
\<close>

theorem encoded_program_loads:
  assumes "EncodeBytecode code = Inr legacy" and "length legacy \<le> MaxProgramDataSize"
    and "EncodeRegisterBytecode rcode ro = Inr register" and "length register \<le> MaxProgramDataSize"
  shows "Load (program_account l legacy) l = Inr \<lparr>pr_version = 1, pr_format = programFormatLegacy,
       pr_code = code, pr_readonly = [], pr_manifest = None\<rparr> \<and>
     Load (program_account l register) l = Inr \<lparr>pr_version = 1, pr_format = programFormatRegister,
       pr_code = rcode, pr_readonly = ro, pr_manifest = None\<rparr>"
proof -
  obtain r where r: "legacy = bytecodeHeader @ put_le 2 BytecodeVersion @ r"
    using assms(1) by (auto simp: EncodeBytecode_def split: if_splits)
  obtain q where q: "register = bytecodeHeader @ put_le 2 BytecodeVersion @ q"
    using register_loads(5) [OF assms(3)] by blast
  have "Load (program_account l legacy) l = load_formats legacy"
    using Load_envelope assms(2) unfolding r by blast
  moreover have "Load (program_account l register) l = load_formats register"
    using Load_envelope assms(4) unfolding q by blast
  ultimately show ?thesis
    by (simp add: load_formats_def legacy_loads [OF assms(1)] register_loads(1,2) [OF assms(3)]
        register_loads(3) [OF assms(3,4)])
qed

lemma encoded_program_loads_witness:
  "\<exists>a b. EncodeBytecode [0] = Inr a \<and> EncodeRegisterBytecode (replicate 16 0) [7] = Inr b \<and>
     Load (program_account 3 a) 3 = Inr \<lparr>pr_version = 1, pr_format = programFormatLegacy,
       pr_code = [0], pr_readonly = [], pr_manifest = None\<rparr> \<and>
     Load (program_account 3 b) 3 = Inr \<lparr>pr_version = 1, pr_format = programFormatRegister,
       pr_code = replicate 16 0, pr_readonly = [7], pr_manifest = None\<rparr>"
proof -
  obtain a where a: "EncodeBytecode [0] = Inr a" "length a = 11"
    by (simp add: EncodeBytecode_def vm_limits)
  obtain b where b: "EncodeRegisterBytecode (replicate 16 0) [7] = Inr b"
    by (simp add: EncodeRegisterBytecode_def vm_limits Let_def)
  have "length b = 65" using register_loads(4) [OF b] by simp
  with encoded_program_loads [OF a(1) _ b] a b show ?thesis by (simp add: vm_limits)
qed

text \<open>
  C16: The manifest of an encoded governed register program is recovered, normalised, from its
  octets, with one exception: a program of exactly 65548 octets is taken for a legacy program,
  because its format tags read as that length, and is reported to have no manifest.
\<close>

theorem governed_manifest_recovered:
  assumes "EncodeGovernedRegisterBytecode code ro m = Inr data" and "length data \<le> MaxProgramDataSize"
  shows "\<exists>n. normalizeProgramManifest m = Inr n \<and>
     DecodeProgramManifest data = Inr (if length data = 65548 then None else Some n)"
proof -
  have enc: "encodeManifestBytecode programFormatRegister code ro m = Inr data" and ne: "code \<noteq> []"
    and al: "length code mod 16 = 0"
    using assms(1) by (auto simp: EncodeGovernedRegisterBytecode_def vm_limits split: if_splits)
  from al have al': "programFormatRegister = programFormatRegister \<longrightarrow> length code mod 16 = 0" ..
  obtain n where n: "normalizeProgramManifest m = Inr n"
    and load: "loadManifestProgram 1 data = Inr (Some \<lparr>pr_version = 1, pr_format = programFormatRegister,
           pr_code = code, pr_readonly = ro, pr_manifest = Some n\<rparr>)"
    and "unat (le_at 4 data 6 :: u32) = 2 + 65536 * unat programFormatRegister" and big: "94 < length data"
    and "\<exists>rest. data = bytecodeHeader @ put_le 2 BytecodeVersion @ rest"
    by (rule governed_loads [OF enc ne al', of 1])
  then obtain rest where legacy: "unat (le_at 4 data 6 :: u32) = 65538"
    and data: "data = bytecodeHeader @ put_le 2 BytecodeVersion @ rest"
    by (auto simp: programFormatRegister_def)
  note decode = DecodeProgramManifest_envelope [of rest, folded data, OF assms(2)]
  show ?thesis
  proof (cases "length data = 65548")
    case True
    with legacy have "\<exists>p. loadLegacyProgram 1 data = Inr (Some p)"
      by (auto simp: loadLegacyProgram_def Let_def)
    with True n show ?thesis by (auto simp: decode)
  next
    case False
    with legacy big have "loadLegacyProgram 1 data = Inr None"
      by (auto simp: loadLegacyProgram_def Let_def)
    with False n load show ?thesis by (simp add: decode)
  qed
qed

definition demo_manifest :: ProgramManifest where
  "demo_manifest = \<lparr>pm_limit = 1000, pm_authority = 5, pm_syscalls = [2, 1, 2]\<rparr>"

lemma demo_manifest_normal:
  "normalizeProgramManifest demo_manifest = Inr \<lparr>pm_limit = 1000, pm_authority = 5, pm_syscalls = [1, 2]\<rparr>"
  by (simp add: normalizeProgramManifest_def demo_manifest_def vm_limits word_le_nat_alt)

lemma governed_manifest_recovered_witness:
  "\<exists>data. EncodeGovernedRegisterBytecode (replicate 16 0) (replicate 65430 0) demo_manifest = Inr data \<and>
     length data = 65548 \<and> DecodeProgramManifest data = Inr None"
proof -
  obtain data where d: "EncodeGovernedRegisterBytecode (replicate 16 0) (replicate 65430 0) demo_manifest = Inr data"
    and len: "length data = 65548"
    by (simp add: EncodeGovernedRegisterBytecode_def encodeManifestBytecode_def demo_manifest_normal
        vm_limits program_constants Let_def)
  from governed_manifest_recovered [OF d] len d show ?thesis by (simp add: vm_limits)
qed

end
