(* ===== verification/Vm_Syscalls.thy ===== *)
theory Vm_Syscalls
  imports Vm_Programs
begin

text \<open>
  \<open>vm/context.go\<close> and \<open>vm/syscall.go\<close>: the context of a call, the registry of system calls, their
  handlers, and the binary form of their inputs.
\<close>

section \<open>The context\<close>

text \<open>
  The registry and the CPI runtime (\<open>None\<close> is nil) are fields of the context in the source; they
  never change during a call and are arguments here. \<open>cx_world\<close> is whatever state the CPI runtime and the
  handlers of other packages reach through pointers of their own.
\<close>

record 'w Context =
  cx_invocation :: Invocation
  cx_accounts :: AccountSet
  cx_meter :: ComputeMeter
  cx_logs :: "gostring list"
  cx_return :: "ReturnData option"
  cx_last :: bytes
  cx_world :: 'w

type_synonym 'w cpi_runtime = "'w Context \<Rightarrow> CPIInstruction \<Rightarrow> vm_error + 'w Context"
type_synonym 'w syscall_func =
  "'w cpi_runtime option \<Rightarrow> 'w Context \<Rightarrow> bytes \<Rightarrow> vm_error + bytes \<times> 'w Context"
type_synonym schnorr_verifier = "bytes \<Rightarrow> bytes \<Rightarrow> bytes \<Rightarrow> bool"

definition Context_Log :: "'w Context \<Rightarrow> gostring \<Rightarrow> vm_error + 'w Context" where
  "Context_Log c message =
     (if \<not> utf8_valid message then Inl VExecutionFailed
      else if MaxLogMessageSize < length message then Inl VExecutionFailed
      else Inr (c\<lparr>cx_logs := cx_logs c @ [message]\<rparr>))"

definition SetReturnData :: "'w Context \<Rightarrow> bytes \<Rightarrow> vm_error + 'w Context" where
  "SetReturnData c data =
     (if MaxReturnDataSize < length data then Inl VExecutionFailed
      else Inr (c\<lparr>cx_return := Some \<lparr>ret_program = inv_program (cx_invocation c), ret_data = data\<rparr>\<rparr>))"

definition SetLastSyscallOutput :: "'w Context \<Rightarrow> bytes \<Rightarrow> 'w Context" where
  "SetLastSyscallOutput c output = c\<lparr>cx_last := output\<rparr>"

section \<open>Readers of system call inputs\<close>

definition EOF :: vm_error where "EOF = VPlain ''EOF''"

definition read_byte :: "bytes \<Rightarrow> vm_error + u8 \<times> bytes" where
  "read_byte r = (case r of [] \<Rightarrow> Inl EOF | b # r \<Rightarrow> Inr (b, r))"

definition readSyscallUint32Value :: "bytes \<Rightarrow> vm_error + u32 \<times> bytes" where
  "readSyscallUint32Value r =
     (case reader_read 4 r of None \<Rightarrow> Inl EOF | Some (encoded, r) \<Rightarrow> Inr (get_le encoded, r))"

definition readSyscallFixedBytes :: "bytes \<Rightarrow> nat \<Rightarrow> vm_error + bytes \<times> bytes" where
  "readSyscallFixedBytes r len =
     (if length r < len then Inl (VPlain ''need bytes'')
      else case reader_read len r of None \<Rightarrow> Inl EOF | Some p \<Rightarrow> Inr p)"

definition readSyscallBytes :: "bytes \<Rightarrow> vm_error + bytes \<times> bytes" where
  "readSyscallBytes r =
     (case reader_read 4 r of
        None \<Rightarrow> Inl EOF
      | Some (lengthBytes, r) \<Rightarrow>
          let len = get_le lengthBytes :: u32 in
          if MaxSyscallInputSize < unat len \<or> (of_nat (length r) :: u32) < len
            then Inl (VPlain ''invalid syscall bytes length'')
          else readSyscallFixedBytes r (unat len))"

section \<open>Inputs\<close>

fun encode_seeds :: "bytes list \<Rightarrow> vm_error + bytes" where
  "encode_seeds [] = Inr []"
| "encode_seeds (seed # seeds) =
     (if seed = [] \<or> MaxPDASeedLength < length seed then Inl VInvalidAccount
      else rbind (encode_seeds seeds) (\<lambda>r. Inr (of_nat (length seed) # seed @ r)))"

definition EncodeProgramAddressInput :: "pubkey \<Rightarrow> bytes list \<Rightarrow> vm_error + bytes" where
  "EncodeProgramAddressInput programID seeds =
     (if seeds = [] \<or> MaxPDASeedCount < length seeds then Inl VInvalidAccount
      else
        rbind (encode_seeds seeds) (\<lambda>r.
          Inr (key_bytes programID @ of_nat (length seeds) # r)))"

definition EncodeCPIInstruction :: "CPIInstruction \<Rightarrow> vm_error + bytes" where
  "EncodeCPIInstruction i =
     (if VmMaxInstructionDataSize < length (cpi_accounts i) then Inl VInvalidAccount
      else if VmMaxInstructionDataSize < length (cpi_data i) then Inl VExecutionFailed
      else
        Inr (key_bytes (cpi_program i) @ of_nat (length (cpi_accounts i)) # cpi_accounts i @
             put_le 4 (of_nat (length (cpi_data i)) :: u32) @ cpi_data i))"

fun encode_seed_groups :: "pubkey \<Rightarrow> bytes list list \<Rightarrow> vm_error + bytes" where
  "encode_seed_groups signerProgramID [] = Inr []"
| "encode_seed_groups signerProgramID (g # gs) =
     rbind (EncodeProgramAddressInput signerProgramID g) (\<lambda>seedInput.
     rbind (encode_seed_groups signerProgramID gs) (\<lambda>r. Inr (drop 32 seedInput @ r)))"

definition EncodeSignedCPIInstruction ::
    "CPIInstruction \<Rightarrow> pubkey \<Rightarrow> bytes list list \<Rightarrow> vm_error + bytes" where
  "EncodeSignedCPIInstruction i signerProgramID signerSeeds =
     rbind (EncodeCPIInstruction i) (\<lambda>encoded.
       if MaxPDASeedCount < length signerSeeds then Inl VInvalidAccount
       else
         rbind (encode_seed_groups signerProgramID signerSeeds) (\<lambda>r.
           Inr (encoded @ of_nat (length signerSeeds) # r)))"

definition EncodeSchnorrVerifyInput :: "bytes \<Rightarrow> bytes \<Rightarrow> bytes \<Rightarrow> bytes" where
  "EncodeSchnorrVerifyInput publicKeyDigest message prf =
     publicKeyDigest @ put_le 4 (of_nat (length message) :: u32) @ message @
     put_le 4 (of_nat (length prf) :: u32) @ prf"

definition EncodeAccountDataReadInput :: "u8 \<Rightarrow> u32 \<Rightarrow> u32 \<Rightarrow> bytes" where
  "EncodeAccountDataReadInput accountIndex offset len = accountIndex # put_le 4 offset @ put_le 4 len"

definition EncodeAccountDataWriteInput :: "u8 \<Rightarrow> u32 \<Rightarrow> bytes \<Rightarrow> bytes" where
  "EncodeAccountDataWriteInput accountIndex offset data =
     accountIndex # put_le 4 offset @ put_le 4 (of_nat (length data) :: u32) @ data"

fun decode_seeds :: "nat \<Rightarrow> bytes \<Rightarrow> vm_error + bytes list \<times> bytes" where
  "decode_seeds 0 r = Inr ([], r)"
| "decode_seeds (Suc n) r =
     rbind (read_byte r) (\<lambda>(len, r).
       if len = 0 \<or> MaxPDASeedLength < unat len then Inl (VPlain ''invalid seed length'')
       else
         rbind (readSyscallFixedBytes r (unat len)) (\<lambda>(seed, r).
         rbind (decode_seeds n r) (\<lambda>(seeds, r). Inr (seed # seeds, r))))"

definition decodeProgramAddressInput :: "bytes \<Rightarrow> vm_error + pubkey \<times> bytes list" where
  "decodeProgramAddressInput input =
     rbind (readSyscallFixedBytes input 32) (\<lambda>(programID, r).
     rbind (read_byte r) (\<lambda>(seedCount, r).
       if seedCount = 0 \<or> MaxPDASeedCount < unat seedCount then Inl (VPlain ''invalid seed count'')
       else
         rbind (decode_seeds (unat seedCount) r) (\<lambda>(seeds, r).
           if r \<noteq> [] then Inl (VPlain ''trailing pda input bytes'')
           else Inr (get_le programID, seeds))))"

definition decodeAccountDataRange :: "bytes \<Rightarrow> vm_error + u8 \<times> u32 \<times> u32" where
  "decodeAccountDataRange input =
     rbind (read_byte input) (\<lambda>(accountIndex, r).
     rbind (readSyscallUint32Value r) (\<lambda>(offset, r).
     rbind (readSyscallUint32Value r) (\<lambda>(len, r).
       if r \<noteq> [] then Inl (VPlain ''trailing account read input bytes'')
       else Inr (accountIndex, offset, len))))"

definition decodeAccountDataWrite :: "bytes \<Rightarrow> vm_error + u8 \<times> u32 \<times> bytes" where
  "decodeAccountDataWrite input =
     rbind (read_byte input) (\<lambda>(accountIndex, r).
     rbind (readSyscallUint32Value r) (\<lambda>(offset, r).
     rbind (readSyscallBytes r) (\<lambda>(data, r).
       if r \<noteq> [] then Inl (VPlain ''trailing account write input bytes'')
       else Inr (accountIndex, offset, data))))"

definition decode_cpi :: "bytes \<Rightarrow> vm_error + CPIInstruction \<times> bytes" where
  "decode_cpi input =
     rbind (readSyscallFixedBytes input 32) (\<lambda>(programID, r).
     rbind (read_byte r) (\<lambda>(accountCount, r).
     rbind (readSyscallFixedBytes r (unat accountCount)) (\<lambda>(accountIndexes, r).
     rbind (readSyscallBytes r) (\<lambda>(instructionData, r).
       Inr (\<lparr>cpi_program = get_le programID, cpi_accounts = accountIndexes,
             cpi_data = instructionData, cpi_signers = []\<rparr>, r)))))"

definition decodeCPIInstruction :: "bytes \<Rightarrow> vm_error + CPIInstruction" where
  "decodeCPIInstruction input =
     rbind (decode_cpi input) (\<lambda>(instruction, r).
       if r \<noteq> [] then Inl (VPlain ''trailing cpi input bytes'') else Inr instruction)"

definition decodeCPIInstructionPrefix :: "bytes \<Rightarrow> vm_error + CPIInstruction" where
  "decodeCPIInstructionPrefix input = rbind (decode_cpi input) (\<lambda>(instruction, _). Inr instruction)"

fun decode_signer_seeds :: "nat \<Rightarrow> bytes \<Rightarrow> vm_error + bytes list \<times> bytes" where
  "decode_signer_seeds 0 r = Inr ([], r)"
| "decode_signer_seeds (Suc n) r =
     rbind (read_byte r) (\<lambda>(len, r).
     rbind (readSyscallFixedBytes r (unat len)) (\<lambda>(seed, r).
     rbind (decode_signer_seeds n r) (\<lambda>(seeds, r). Inr (seed # seeds, r))))"

fun decode_signers :: "pubkey \<Rightarrow> nat \<Rightarrow> bytes \<Rightarrow> vm_error + pubkey list \<times> bytes" where
  "decode_signers programID 0 r = Inr ([], r)"
| "decode_signers programID (Suc n) r =
     rbind (read_byte r) (\<lambda>(seedCount, r).
     rbind (decode_signer_seeds (unat seedCount) r) (\<lambda>(seeds, r).
     rbind (CreateProgramAddress programID seeds) (\<lambda>signer.
     rbind (decode_signers programID n r) (\<lambda>(signers, r). Inr (signer # signers, r)))))"

definition decodeSignedCPIInstruction :: "pubkey \<Rightarrow> bytes \<Rightarrow> vm_error + CPIInstruction" where
  "decodeSignedCPIInstruction programID input =
     rbind (decodeCPIInstructionPrefix input) (\<lambda>instruction.
       let offset = 32 + 1 + length (cpi_accounts instruction) + 4 + length (cpi_data instruction) in
       if length input < offset then Inl VPanic
       else
         rbind (read_byte (drop offset input)) (\<lambda>(groupCount, r).
         rbind (decode_signers programID (unat groupCount) r) (\<lambda>(signers, r).
           if r \<noteq> [] then Inl (VPlain ''trailing signed cpi input bytes'')
           else Inr (instruction\<lparr>cpi_signers := signers\<rparr>))))"

section \<open>Handlers\<close>

definition syscallLog :: "'w syscall_func" where
  "syscallLog cpi c input = rbind (Context_Log c input) (\<lambda>c. Inr ([], c))"

definition syscallSHA256 :: "'w syscall_func" where
  "syscallSHA256 cpi c input = Inr (sha256 input, c)"

definition syscallSetReturnData :: "'w syscall_func" where
  "syscallSetReturnData cpi c input = rbind (SetReturnData c input) (\<lambda>c. Inr ([], c))"

definition syscallGetReturnData :: "'w syscall_func" where
  "syscallGetReturnData cpi c input =
     (case cx_return c of
        None \<Rightarrow> Inr ([], c)
      | Some r \<Rightarrow>
          Inr (key_bytes (ret_program r) @ put_le 4 (of_nat (length (ret_data r)) :: u32) @ ret_data r, c))"

definition syscallGetClock :: "'w syscall_func" where
  "syscallGetClock cpi c input =
     (let clock = sv_clock (inv_sysvars (cx_invocation c)) in
      Inr (put_le 8 (clock_slot clock) @ put_le 8 (word_of_int (clock_time clock) :: u64), c))"

definition syscallGetRent :: "'w syscall_func" where
  "syscallGetRent cpi c input =
     (let rent = sv_rent (inv_sysvars (cx_invocation c)) in
      Inr (put_le 8 (rent_per_byte_year rent) @ put_le 8 (rent_years rent) @ put_le 8 (rent_overhead rent), c))"

definition syscallGetAccountData :: "'w syscall_func" where
  "syscallGetAccountData cpi c input =
     rbind (decodeAccountDataRange input) (\<lambda>(accountIndex, offset, len).
     rbind (ReadData (cx_accounts c) (unat accountIndex) (uint offset) (uint len)) (\<lambda>value. Inr (value, c)))"

definition syscallSetAccountData :: "'w syscall_func" where
  "syscallSetAccountData cpi c input =
     rbind (decodeAccountDataWrite input) (\<lambda>(accountIndex, offset, data).
     rbind (WriteData (cx_accounts c) (unat accountIndex) (uint offset) data) (\<lambda>s.
       Inr ([], c\<lparr>cx_accounts := s\<rparr>)))"

definition syscallCreateProgramAddress :: "'w syscall_func" where
  "syscallCreateProgramAddress cpi c input =
     rbind (decodeProgramAddressInput input) (\<lambda>(programID, seeds).
     rbind (CreateProgramAddress programID seeds) (\<lambda>address. Inr (key_bytes address, c)))"

definition call_cpi :: "'w cpi_runtime option \<Rightarrow> 'w Context \<Rightarrow> CPIInstruction \<Rightarrow> vm_error + bytes \<times> 'w Context" where
  "call_cpi cpi c instruction =
     (case cpi of
        None \<Rightarrow> Inl VExecutionFailed
      | Some invoke \<Rightarrow> rbind (invoke c instruction) (\<lambda>c. Inr ([], c)))"

definition syscallInvoke :: "'w syscall_func" where
  "syscallInvoke cpi c input = rbind (decodeCPIInstruction input) (call_cpi cpi c)"

definition syscallInvokeSigned :: "'w syscall_func" where
  "syscallInvokeSigned cpi c input =
     rbind (decodeSignedCPIInstruction (inv_program (cx_invocation c)) input) (call_cpi cpi c)"

definition syscallVerifySchnorr :: "schnorr_verifier \<Rightarrow> 'w syscall_func" where
  "syscallVerifySchnorr verify cpi c input =
     rbind (readSyscallFixedBytes input 32) (\<lambda>(digest, r).
     rbind (readSyscallBytes r) (\<lambda>(message, r).
     rbind (readSyscallBytes r) (\<lambda>(prf, r).
       if r \<noteq> [] then Inl (VPlain ''trailing schnorr input bytes'')
       else if \<not> verify prf message digest then Inl (VPlain ''zk: verification failed'')
       else Inr ([1], c))))"

section \<open>The registry\<close>

record 'w Syscall =
  sc_id :: SyscallID
  sc_name :: gostring
  sc_cost :: u64
  sc_handler :: "'w syscall_func option"

type_synonym 'w SyscallRegistry = "(SyscallID \<times> 'w Syscall) list"

fun add_syscalls :: "'w SyscallRegistry \<Rightarrow> 'w Syscall list \<Rightarrow> vm_error + 'w SyscallRegistry" where
  "add_syscalls registry [] = Inr registry"
| "add_syscalls registry (s # ss) =
     (if sc_id s = 0 \<or> sc_name s = [] \<or> sc_handler s = None then Inl VExecutionFailed
      else if map_of registry (sc_id s) \<noteq> None then Inl VExecutionFailed
      else add_syscalls (registry @ [(sc_id s, s)]) ss)"

definition NewSyscallRegistry :: "'w Syscall list \<Rightarrow> vm_error + 'w SyscallRegistry" where
  "NewSyscallRegistry syscalls = add_syscalls [] syscalls"

definition Registry_With :: "'w SyscallRegistry \<Rightarrow> 'w Syscall list \<Rightarrow> vm_error + 'w SyscallRegistry" where
  "Registry_With registry syscalls = add_syscalls registry syscalls"

definition default_syscalls :: "schnorr_verifier \<Rightarrow> 'w Syscall list" where
  "default_syscalls verify =
    [\<lparr>sc_id = 1, sc_name = ascii ''ovm_log'', sc_cost = 50, sc_handler = Some syscallLog\<rparr>,
     \<lparr>sc_id = 2, sc_name = ascii ''ovm_sha256'', sc_cost = 90, sc_handler = Some syscallSHA256\<rparr>,
     \<lparr>sc_id = 3, sc_name = ascii ''ovm_set_return_data'', sc_cost = 50, sc_handler = Some syscallSetReturnData\<rparr>,
     \<lparr>sc_id = 4, sc_name = ascii ''ovm_get_return_data'', sc_cost = 25, sc_handler = Some syscallGetReturnData\<rparr>,
     \<lparr>sc_id = 5, sc_name = ascii ''ovm_get_clock'', sc_cost = 20, sc_handler = Some syscallGetClock\<rparr>,
     \<lparr>sc_id = 6, sc_name = ascii ''ovm_get_rent'', sc_cost = 20, sc_handler = Some syscallGetRent\<rparr>,
     \<lparr>sc_id = 7, sc_name = ascii ''ovm_create_program_address'', sc_cost = 150, sc_handler = Some syscallCreateProgramAddress\<rparr>,
     \<lparr>sc_id = 8, sc_name = ascii ''ovm_invoke'', sc_cost = 500, sc_handler = Some syscallInvoke\<rparr>,
     \<lparr>sc_id = 9, sc_name = ascii ''ovm_invoke_signed'', sc_cost = 700, sc_handler = Some syscallInvokeSigned\<rparr>,
     \<lparr>sc_id = 10, sc_name = ascii ''zk_verify_schnorr'', sc_cost = 2000, sc_handler = Some (syscallVerifySchnorr verify)\<rparr>,
     \<lparr>sc_id = 11, sc_name = ascii ''ovm_get_account_data'', sc_cost = 80, sc_handler = Some syscallGetAccountData\<rparr>,
     \<lparr>sc_id = 12, sc_name = ascii ''ovm_set_account_data'', sc_cost = 120, sc_handler = Some syscallSetAccountData\<rparr>]"

definition DefaultSyscallRegistry :: "schnorr_verifier \<Rightarrow> 'w SyscallRegistry" where
  "DefaultSyscallRegistry verify =
     (case NewSyscallRegistry (default_syscalls verify) of Inl _ \<Rightarrow> [] | Inr registry \<Rightarrow> registry)"

definition Registry_IsZero :: "'w SyscallRegistry \<Rightarrow> bool" where
  "Registry_IsZero registry \<longleftrightarrow> registry = []"

definition Registry_Exists :: "'w SyscallRegistry \<Rightarrow> SyscallID \<Rightarrow> bool" where
  "Registry_Exists registry i \<longleftrightarrow> map_of registry i \<noteq> None"

definition Registry_Invoke ::
    "'w SyscallRegistry \<Rightarrow> 'w cpi_runtime option \<Rightarrow> 'w Context \<Rightarrow> SyscallID \<Rightarrow> bytes \<Rightarrow> vm_error + bytes \<times> 'w Context" where
  "Registry_Invoke registry cpi c syscallID input =
     (if MaxSyscallInputSize < length input then Inl VExecutionFailed
      else
        case map_of registry syscallID of
          None \<Rightarrow> Inl VExecutionFailed
        | Some s \<Rightarrow>
            rbind (Consume (cx_meter c) (sc_cost s)) (\<lambda>m.
              case sc_handler s of
                None \<Rightarrow> Inl VPanic
              | Some handler \<Rightarrow>
                  rbind (wrap_err (VWrap VExecutionFailed) (handler cpi (c\<lparr>cx_meter := m\<rparr>) input)) (\<lambda>(output, c).
                    Inr (output, SetLastSyscallOutput c output))))"

section \<open>Reading back encoded inputs\<close>

lemma read_byte_Cons [simp]: "read_byte (b # r) = Inr (b, r)"
  by (simp add: read_byte_def)

lemma readSyscallUint32Value_put [simp]: "readSyscallUint32Value (put_le 4 v @ r) = Inr (v, r)"
proof -
  have "reader_read 4 (put_le 4 v @ r) = Some (put_le 4 v, r)"
    by (rule reader_read_exact) (simp_all flip: length_0_conv)
  then show ?thesis by (simp add: readSyscallUint32Value_def)
qed

lemma readSyscallUint32Value_last [simp]: "readSyscallUint32Value (put_le 4 v) = Inr (v, [])"
  using readSyscallUint32Value_put [of v "[]"] by simp

lemma readSyscallFixedBytes_append:
  "length a = n \<Longrightarrow> readSyscallFixedBytes (a @ r) n = (if a @ r = [] then Inl EOF else Inr (a, r))"
  by (auto simp: readSyscallFixedBytes_def reader_read_def)

lemma readSyscallFixedBytes_key [simp]: "readSyscallFixedBytes (key_bytes k @ r) 32 = Inr (key_bytes k, r)"
  using readSyscallFixedBytes_append [of "key_bytes k" 32 r] by (simp flip: length_0_conv)

lemma readSyscallBytes_put:
  assumes "length a \<le> MaxSyscallInputSize" and "length (a @ r) < 2 ^ 32"
  shows "readSyscallBytes (put_le 4 (of_nat (length a) :: u32) @ a @ r) =
     (if a @ r = [] then Inl EOF else Inr (a, r))"
proof -
  have "reader_read 4 (put_le 4 (of_nat (length a) :: u32) @ a @ r) =
      Some (put_le 4 (of_nat (length a) :: u32), a @ r)"
    by (rule reader_read_exact) (simp_all flip: length_0_conv)
  moreover have "length a < 2 ^ 32" using assms(2) by simp
  then have n: "unat (of_nat (length a) :: u32) = length a" by (rule unat_of_nat_u32)
  moreover have "\<not> (of_nat (length (a @ r)) :: u32) < of_nat (length a)"
    unfolding word_less_nat_alt n unat_of_nat_u32 [OF assms(2)] by simp
  ultimately show ?thesis
    using assms(1) readSyscallFixedBytes_append [of a "length a" r]
    by (simp add: readSyscallBytes_def)
qed

lemma readSyscallBytes_last:
  assumes "length a \<le> MaxSyscallInputSize"
  shows "readSyscallBytes (put_le 4 (of_nat (length a) :: u32) @ a) = (if a = [] then Inl EOF else Inr (a, []))"
  using readSyscallBytes_put [of a "[]"] assms by (simp add: vm_limits)

lemma decode_encode_seeds:
  "encode_seeds seeds = Inr r \<Longrightarrow> decode_seeds (length seeds) (r @ q) = Inr (seeds, q)"
proof (induction seeds arbitrary: r)
  case (Cons seed seeds)
  then obtain t where seed: "seed \<noteq> []" "length seed \<le> 32" and t: "encode_seeds seeds = Inr t"
    and r: "r = of_nat (length seed) # seed @ t"
    by (auto simp: result_simps vm_limits split: if_splits)
  have n: "unat (of_nat (length seed) :: u8) = length seed" using seed(2) by simp
  then have "(of_nat (length seed) :: u8) \<noteq> 0" using seed(1) by (metis length_0_conv unat_0)
  then show ?case
    using Cons.IH [OF t] seed readSyscallFixedBytes_append [of seed "length seed" "t @ q"]
    by (simp add: r n vm_limits)
qed simp

lemma decode_encode_program_address:
  assumes "EncodeProgramAddressInput p seeds = Inr input"
  shows "decodeProgramAddressInput input = Inr (p, seeds)"
proof -
  obtain r where seeds: "seeds \<noteq> []" "length seeds \<le> 16" and r: "encode_seeds seeds = Inr r"
    and input: "input = key_bytes p @ of_nat (length seeds) # r"
    using assms by (auto simp: EncodeProgramAddressInput_def result_simps vm_limits split: if_splits)
  have n: "unat (of_nat (length seeds) :: u8) = length seeds" using seeds(2) by simp
  then have "(of_nat (length seeds) :: u8) \<noteq> 0" using seeds(1) by (metis length_0_conv unat_0)
  then show ?thesis
    using decode_encode_seeds [OF r, of "[]"] seeds
    by (simp add: decodeProgramAddressInput_def input n vm_limits)
qed

lemma decode_encode_write:
  assumes "length data \<le> MaxSyscallInputSize"
  shows "decodeAccountDataWrite (EncodeAccountDataWriteInput i offset data) =
     (if data = [] then Inl EOF else Inr (i, offset, data))"
  by (simp add: decodeAccountDataWrite_def EncodeAccountDataWriteInput_def readSyscallBytes_last [OF assms])

lemma decode_encode_read:
  "decodeAccountDataRange (EncodeAccountDataReadInput i offset len) = Inr (i, offset, len)"
  by (simp add: decodeAccountDataRange_def EncodeAccountDataReadInput_def)

lemma decode_encode_cpi:
  assumes "EncodeCPIInstruction i = Inr input" and "length (cpi_accounts i) < 256"
  shows "decodeCPIInstruction input =
     (if cpi_data i = [] then Inl EOF else Inr (i\<lparr>cpi_signers := []\<rparr>))"
proof -
  have input: "input = key_bytes (cpi_program i) @ of_nat (length (cpi_accounts i)) # cpi_accounts i @
      put_le 4 (of_nat (length (cpi_data i)) :: u32) @ cpi_data i" and "length (cpi_data i) \<le> MaxSyscallInputSize"
    using assms by (auto simp: EncodeCPIInstruction_def vm_limits split: if_splits)
  moreover have "unat (of_nat (length (cpi_accounts i)) :: u8) = length (cpi_accounts i)"
    using assms(2) by simp
  moreover have "readSyscallFixedBytes (cpi_accounts i @ put_le 4 (of_nat (length (cpi_data i)) :: u32) @ cpi_data i)
      (length (cpi_accounts i)) = Inr (cpi_accounts i, put_le 4 (of_nat (length (cpi_data i)) :: u32) @ cpi_data i)"
    using readSyscallFixedBytes_append [of "cpi_accounts i" "length (cpi_accounts i)"
        "put_le 4 (of_nat (length (cpi_data i)) :: u32) @ cpi_data i"] by (simp flip: length_0_conv)
  ultimately show ?thesis
    by (simp add: decodeCPIInstruction_def decode_cpi_def readSyscallBytes_last)
qed

section \<open>The default registry\<close>

lemma default_registry:
  "DefaultSyscallRegistry verify = map (\<lambda>s. (sc_id s, s)) (default_syscalls verify)"
  by (simp add: DefaultSyscallRegistry_def NewSyscallRegistry_def default_syscalls_def ascii_def)

section \<open>Relations between contexts\<close>

text \<open>
  Whatever a program does to its context it does through a few operations. A reflexive and
  transitive relation that contains them relates the contexts before and after every call of the
  registry, if the handlers respect it.
\<close>

locale context_relation =
  fixes R :: "'w Context \<Rightarrow> 'w Context \<Rightarrow> bool"
  assumes refl: "R c c"
    and trans: "R a b \<Longrightarrow> R b c \<Longrightarrow> R a c"
    and consumes: "Consume (cx_meter c) units = Inr m \<Longrightarrow> R c (c\<lparr>cx_meter := m\<rparr>)"
    and writes: "WriteData (cx_accounts c) i offset data = Inr s \<Longrightarrow> R c (c\<lparr>cx_accounts := s\<rparr>)"
    and moves: "Vm_TransferLamports (cx_accounts c) i j n = Inr s \<Longrightarrow> R c (c\<lparr>cx_accounts := s\<rparr>)"
    and logs: "R c (c\<lparr>cx_logs := l\<rparr>)"
    and returns: "R c (c\<lparr>cx_return := r\<rparr>)"
    and lasts: "R c (c\<lparr>cx_last := out\<rparr>)"
begin

definition keeps :: "'w cpi_runtime option \<Rightarrow> 'w syscall_func \<Rightarrow> bool" where
  "keeps cpi h \<longleftrightarrow> (\<forall>c input output d. h cpi c input = Inr (output, d) \<longrightarrow> R c d)"

definition registry_keeps :: "'w cpi_runtime option \<Rightarrow> 'w SyscallRegistry \<Rightarrow> bool" where
  "registry_keeps cpi registry \<longleftrightarrow> (\<forall>(i, s) \<in> set registry. \<forall>h. sc_handler s = Some h \<longrightarrow> keeps cpi h)"

lemma invoke_related:
  assumes "Registry_Invoke registry cpi c i input = Inr (output, d)" and "registry_keeps cpi registry"
  shows "R c d"
proof -
  obtain s m h e where s: "map_of registry i = Some s" and m: "Consume (cx_meter c) (sc_cost s) = Inr m"
    and h: "sc_handler s = Some h" and run: "h cpi (c\<lparr>cx_meter := m\<rparr>) input = Inr (output, e)"
    and d: "d = e\<lparr>cx_last := output\<rparr>"
    using assms(1)
    by (auto simp: Registry_Invoke_def result_simps SetLastSyscallOutput_def split: if_splits option.splits)
  have "keeps cpi h" using assms(2) map_of_SomeD [OF s] h by (auto simp: registry_keeps_def)
  with run have "R (c\<lparr>cx_meter := m\<rparr>) e" by (auto simp: keeps_def)
  then show ?thesis unfolding d using consumes [OF m] lasts trans by blast
qed

lemma default_keeps:
  assumes "\<forall>invoke c i d. cpi = Some invoke \<longrightarrow> invoke c i = Inr d \<longrightarrow> R c d"
  shows "registry_keeps cpi (DefaultSyscallRegistry verify)"
proof -
  have cpi: "call_cpi cpi c i = Inr (out, d) \<Longrightarrow> R c d" for c i out d
    using assms by (auto simp: call_cpi_def result_simps split: option.splits)
  have "keeps cpi syscallLog" "keeps cpi syscallSHA256" "keeps cpi syscallSetReturnData"
    "keeps cpi syscallGetReturnData" "keeps cpi syscallGetClock" "keeps cpi syscallGetRent"
    "keeps cpi syscallCreateProgramAddress" "keeps cpi (syscallVerifySchnorr verify)"
    "keeps cpi syscallGetAccountData" "keeps cpi syscallSetAccountData"
    by (auto simp: keeps_def syscallLog_def Context_Log_def syscallSHA256_def syscallSetReturnData_def
        SetReturnData_def syscallGetReturnData_def syscallGetClock_def syscallGetRent_def Let_def
        syscallCreateProgramAddress_def syscallVerifySchnorr_def syscallGetAccountData_def
        syscallSetAccountData_def result_simps refl logs returns writes split: if_splits option.splits)
  moreover have "keeps cpi syscallInvoke" "keeps cpi syscallInvokeSigned"
    using cpi by (auto simp: keeps_def syscallInvoke_def syscallInvokeSigned_def result_simps)
  ultimately show ?thesis
    unfolding registry_keeps_def default_registry default_syscalls_def by simp
qed

end

text \<open>Two such relations: what is done to the accounts is permitted, and the meter only grows.\<close>

definition accounts_rel :: "'w Context \<Rightarrow> 'w Context \<Rightarrow> bool" where
  "accounts_rel c d \<longleftrightarrow> set_permitted (cx_accounts c) (cx_accounts d)"

definition meter_rel :: "'w Context \<Rightarrow> 'w Context \<Rightarrow> bool" where
  "meter_rel c d \<longleftrightarrow> (meter_ok (cx_meter c) \<longrightarrow>
     meter_ok (cx_meter d) \<and> cm_limit (cx_meter d) = cm_limit (cx_meter c) \<and>
     cm_consumed (cx_meter c) \<le> cm_consumed (cx_meter d))"

lemma Consume_meter_rel: "Consume (cx_meter c) units = Inr m \<Longrightarrow> meter_rel c (c\<lparr>cx_meter := m\<rparr>)"
  using Consume_Inr [of "cx_meter c" units m] by (auto simp: meter_rel_def word_le_nat_alt)

interpretation accounts_kept: context_relation accounts_rel
  by unfold_locales
    (auto simp: accounts_rel_def WriteData_permitted Vm_TransferLamports_permitted intro: set_permitted_trans)

interpretation meter_kept: context_relation meter_rel
proof
  fix c :: "'a Context" and units m
  assume "Consume (cx_meter c) units = Inr m"
  then show "meter_rel c (c\<lparr>cx_meter := m\<rparr>)" by (rule Consume_meter_rel)
qed (auto simp: meter_rel_def)

section \<open>Properties\<close>

text \<open>
  The inputs of the system calls decode to what was encoded: reads of account data, program
  addresses and, when they carry data, writes and cross-program calls. An encoded write or
  cross-program call without data is refused by the decoder.
\<close>

theorem syscall_inputs_round_trip:
  assumes "length data \<le> MaxSyscallInputSize" and "EncodeProgramAddressInput p seeds = Inr pda"
    and "EncodeCPIInstruction i = Inr call" and "length (cpi_accounts i) < 256"
  shows "decodeAccountDataRange (EncodeAccountDataReadInput k offset len) = Inr (k, offset, len) \<and>
     decodeProgramAddressInput pda = Inr (p, seeds) \<and>
     decodeAccountDataWrite (EncodeAccountDataWriteInput k offset data) =
       (if data = [] then Inl EOF else Inr (k, offset, data)) \<and>
     decodeCPIInstruction call = (if cpi_data i = [] then Inl EOF else Inr (i\<lparr>cpi_signers := []\<rparr>))"
  using assms
  by (simp add: decode_encode_read decode_encode_write decode_encode_program_address decode_encode_cpi)

definition demo_cpi :: "bytes \<Rightarrow> CPIInstruction" where
  "demo_cpi data = \<lparr>cpi_program = 9, cpi_accounts = [0, 1], cpi_data = data, cpi_signers = []\<rparr>"

lemma syscall_inputs_round_trip_witness:
  "\<exists>pda call. EncodeProgramAddressInput 7 [[1, 2]] = Inr pda \<and> EncodeCPIInstruction (demo_cpi []) = Inr call \<and>
     decodeProgramAddressInput pda = Inr (7, [[1, 2]]) \<and> decodeCPIInstruction call = Inl EOF \<and>
     decodeAccountDataWrite (EncodeAccountDataWriteInput 1 4 [5]) = Inr (1, 4, [5])"
proof -
  obtain pda where p: "EncodeProgramAddressInput 7 [[1, 2]] = Inr pda"
    by (simp add: EncodeProgramAddressInput_def vm_limits)
  obtain call where q: "EncodeCPIInstruction (demo_cpi []) = Inr call"
    by (simp add: EncodeCPIInstruction_def demo_cpi_def vm_limits)
  show ?thesis
    using syscall_inputs_round_trip [of "[5]" 7 "[[1, 2]]" pda "demo_cpi []" call 1 4 0] p q
    by (simp add: vm_limits demo_cpi_def)
qed

end
