(* ===== verification/Vm_Machine.thy ===== *)
theory Vm_Machine
  imports Vm_Syscalls
begin

text \<open>
  \<open>vm/bytecode.go\<close>, \<open>vm/register_vm.go\<close>, \<open>vm/register_encode.go\<close>, \<open>vm/verifier.go\<close> and
  \<open>vm/runtime.go\<close>: the two instruction sets, their static verifier, their executors, and the
  execution of one call.
\<close>

section \<open>Legacy code\<close>

definition OpReturn :: u8 where "OpReturn = 0"
definition OpRequireSigner :: u8 where "OpRequireSigner = 1"
definition OpWriteInstructionData :: u8 where "OpWriteInstructionData = 2"
definition OpTransferLamports :: u8 where "OpTransferLamports = 3"
definition OpSyscall :: u8 where "OpSyscall = 4"

lemmas op_codes = OpReturn_def OpRequireSigner_def OpWriteInstructionData_def OpTransferLamports_def
  OpSyscall_def

definition baseInstructionCost :: u64 where "baseInstructionCost = 10"
definition writeByteCost :: u64 where "writeByteCost = 1"
definition transferCost :: u64 where "transferCost = 25"

text \<open>A program counter of the source is the rest of the code here.\<close>

definition readCodeUint8 :: "bytes \<Rightarrow> vm_error + u8 \<times> bytes" where
  "readCodeUint8 code = (case code of [] \<Rightarrow> Inl VExecutionFailed | b # r \<Rightarrow> Inr (b, r))"

definition readCodeFixedBytes :: "nat \<Rightarrow> bytes \<Rightarrow> vm_error + bytes \<times> bytes" where
  "readCodeFixedBytes len code =
     (if length code < len then Inl VExecutionFailed else Inr (take len code, drop len code))"

definition readCodeUint32 :: "bytes \<Rightarrow> vm_error + u32 \<times> bytes" where
  "readCodeUint32 code =
     (if length code < 4 then Inl VExecutionFailed else Inr (get_le (take 4 code), drop 4 code))"

definition readCodeUint64 :: "bytes \<Rightarrow> vm_error + u64 \<times> bytes" where
  "readCodeUint64 code =
     (if length code < 8 then Inl VExecutionFailed else Inr (get_le (take 8 code), drop 8 code))"

definition consume :: "'w Context \<Rightarrow> u64 \<Rightarrow> vm_error + 'w Context" where
  "consume c units = rbind (Consume (cx_meter c) units) (\<lambda>m. Inr (c\<lparr>cx_meter := m\<rparr>))"

definition executeRequireSigner :: "bytes \<Rightarrow> 'w Context \<Rightarrow> vm_error + bytes \<times> 'w Context" where
  "executeRequireSigner code c =
     rbind (readCodeUint8 code) (\<lambda>(accountIndex, code).
     rbind (RequireSigner (cx_accounts c) (unat accountIndex)) (\<lambda>_. Inr (code, c)))"

definition executeWriteInstructionData :: "bytes \<Rightarrow> 'w Context \<Rightarrow> vm_error + bytes \<times> 'w Context" where
  "executeWriteInstructionData code c =
     rbind (readCodeUint8 code) (\<lambda>(accountIndex, code).
     rbind (readCodeUint32 code) (\<lambda>(offset, code).
     rbind (consume c (of_nat (length (inv_data (cx_invocation c))) * writeByteCost)) (\<lambda>c.
     rbind (WriteInstructionData (cx_accounts c) (unat accountIndex) offset (inv_data (cx_invocation c))) (\<lambda>s.
       Inr (code, c\<lparr>cx_accounts := s\<rparr>)))))"

definition executeTransferLamports :: "bytes \<Rightarrow> 'w Context \<Rightarrow> vm_error + bytes \<times> 'w Context" where
  "executeTransferLamports code c =
     rbind (readCodeUint8 code) (\<lambda>(sourceIndex, code).
     rbind (readCodeUint8 code) (\<lambda>(destinationIndex, code).
     rbind (readCodeUint64 code) (\<lambda>(lamports, code).
     rbind (consume c transferCost) (\<lambda>c.
     rbind (Vm_TransferLamports (cx_accounts c) (unat sourceIndex) (unat destinationIndex) lamports) (\<lambda>s.
       Inr (code, c\<lparr>cx_accounts := s\<rparr>))))))"

definition executeSyscall ::
    "'w SyscallRegistry \<Rightarrow> 'w cpi_runtime option \<Rightarrow> bytes \<Rightarrow> 'w Context \<Rightarrow> vm_error + bytes \<times> 'w Context" where
  "executeSyscall registry cpi code c =
     rbind (readCodeUint32 code) (\<lambda>(syscallID, code).
     rbind (readCodeUint32 code) (\<lambda>(inputLength, code).
       if MaxSyscallInputSize < unat inputLength then Inl VExecutionFailed
       else
         rbind (readCodeFixedBytes (unat inputLength) code) (\<lambda>(input, code).
         rbind (Registry_Invoke registry cpi c syscallID input) (\<lambda>(_, c). Inr (code, c)))))"

definition legacy_step ::
    "'w SyscallRegistry \<Rightarrow> 'w cpi_runtime option \<Rightarrow> u8 \<Rightarrow> bytes \<Rightarrow> 'w Context \<Rightarrow> vm_error + bytes \<times> 'w Context" where
  "legacy_step registry cpi opcode code c =
     (if opcode = OpRequireSigner then executeRequireSigner code c
      else if opcode = OpWriteInstructionData then executeWriteInstructionData code c
      else if opcode = OpTransferLamports then executeTransferLamports code c
      else if opcode = OpSyscall then executeSyscall registry cpi code c
      else Inl VExecutionFailed)"

lemma legacy_step_shorter:
  "legacy_step registry cpi opcode code c = Inr (rest, d) \<Longrightarrow> length rest \<le> length code"
  by (auto simp: legacy_step_def executeRequireSigner_def executeWriteInstructionData_def
      executeTransferLamports_def executeSyscall_def readCodeUint8_def readCodeUint32_def
      readCodeUint64_def readCodeFixedBytes_def result_simps split: if_splits list.splits)

function execute_legacy ::
    "'w SyscallRegistry \<Rightarrow> 'w cpi_runtime option \<Rightarrow> bytes \<Rightarrow> 'w Context \<Rightarrow> vm_error + 'w Context" where
  "execute_legacy registry cpi [] c = Inl VExecutionFailed"
| "execute_legacy registry cpi (opcode # code) c =
     rbind (consume c baseInstructionCost) (\<lambda>c.
       if opcode = OpReturn then Inr c
       else
         (case legacy_step registry cpi opcode code c of
            Inl e \<Rightarrow> Inl e
          | Inr (rest, c) \<Rightarrow> execute_legacy registry cpi rest c))"
  by pat_completeness auto
termination
  by (relation "measure (\<lambda>(registry, cpi, code, c). length code)")
    (auto dest: legacy_step_shorter simp: less_Suc_eq_le)

definition BuildProgramCode :: "bytes list \<Rightarrow> bytes" where
  "BuildProgramCode operations = concat operations @ [OpReturn]"

definition BuildRequireSignerOp :: "u8 \<Rightarrow> bytes" where
  "BuildRequireSignerOp accountIndex = [OpRequireSigner, accountIndex]"

definition BuildWriteInstructionDataOp :: "u8 \<Rightarrow> u32 \<Rightarrow> bytes" where
  "BuildWriteInstructionDataOp accountIndex offset = [OpWriteInstructionData, accountIndex] @ put_le 4 offset"

definition BuildTransferLamportsOp :: "u8 \<Rightarrow> u8 \<Rightarrow> u64 \<Rightarrow> bytes" where
  "BuildTransferLamportsOp sourceIndex destinationIndex lamports =
     [OpTransferLamports, sourceIndex, destinationIndex] @ put_le 8 lamports"

definition BuildSyscallOp :: "SyscallID \<Rightarrow> bytes \<Rightarrow> bytes" where
  "BuildSyscallOp syscallID input =
     [OpSyscall] @ put_le 4 syscallID @ put_le 4 (of_nat (length input) :: u32) @ input"

section \<open>Verification of legacy code\<close>

definition verifyLegacyBytesAvailable :: "bytes \<Rightarrow> nat \<Rightarrow> vm_error + unit" where
  "verifyLegacyBytesAvailable code len = (if length code < len then Inl VInvalidProgram else Inr ())"

definition verifyProgramAllowsSyscall :: "Program \<Rightarrow> SyscallID \<Rightarrow> vm_error + unit" where
  "verifyProgramAllowsSyscall program syscallID =
     (case pr_manifest program of
        None \<Rightarrow> Inr ()
      | Some m \<Rightarrow> if syscallID \<in> set (pm_syscalls m) then Inr () else Inl VInvalidProgram)"

definition verifyLegacySyscall ::
    "'w SyscallRegistry \<Rightarrow> bytes \<Rightarrow> vm_error + SyscallID \<times> bytes" where
  "verifyLegacySyscall registry code =
     rbind (verifyLegacyBytesAvailable code 8) (\<lambda>_.
     rbind (readCodeUint32 code) (\<lambda>(syscallID, code).
     rbind (readCodeUint32 code) (\<lambda>(inputLength, code).
       if MaxSyscallInputSize < unat inputLength then Inl VInvalidProgram
       else
         rbind (verifyLegacyBytesAvailable code (unat inputLength)) (\<lambda>_.
           if \<not> Registry_Exists registry syscallID then Inl VInvalidProgram
           else Inr (syscallID, drop (unat inputLength) code)))))"

definition verify_legacy_step :: "Program \<Rightarrow> 'w SyscallRegistry \<Rightarrow> u8 \<Rightarrow> bytes \<Rightarrow> vm_error + bytes" where
  "verify_legacy_step program registry opcode code =
     (if opcode = OpRequireSigner then
        rbind (verifyLegacyBytesAvailable code 1) (\<lambda>_. Inr (drop 1 code))
      else if opcode = OpWriteInstructionData then
        rbind (verifyLegacyBytesAvailable code 5) (\<lambda>_. Inr (drop 5 code))
      else if opcode = OpTransferLamports then
        rbind (verifyLegacyBytesAvailable code 10) (\<lambda>_. Inr (drop 10 code))
      else if opcode = OpSyscall then
        rbind (verifyLegacySyscall registry code) (\<lambda>(syscallID, code).
        rbind (verifyProgramAllowsSyscall program syscallID) (\<lambda>_. Inr code))
      else Inl VInvalidProgram)"

lemma verify_legacy_step_shorter:
  "verify_legacy_step program registry opcode code = Inr rest \<Longrightarrow> length rest \<le> length code"
  by (auto simp: verify_legacy_step_def verifyLegacySyscall_def readCodeUint32_def result_simps
      split: if_splits)

function verify_legacy :: "Program \<Rightarrow> 'w SyscallRegistry \<Rightarrow> bytes \<Rightarrow> vm_error + unit" where
  "verify_legacy program registry [] = Inl VInvalidProgram"
| "verify_legacy program registry (opcode # code) =
     (if opcode = OpReturn then if code \<noteq> [] then Inl VInvalidProgram else Inr ()
      else
        (case verify_legacy_step program registry opcode code of
           Inl e \<Rightarrow> Inl e
         | Inr rest \<Rightarrow> verify_legacy program registry rest))"
  by pat_completeness auto
termination
  by (relation "measure (\<lambda>(program, registry, code). length code)")
    (auto dest: verify_legacy_step_shorter simp: less_Suc_eq_le)

definition verifyLegacyProgram :: "Program \<Rightarrow> 'w SyscallRegistry \<Rightarrow> vm_error + unit" where
  "verifyLegacyProgram program registry =
     (if pr_code program = [] then Inl VInvalidProgram
      else verify_legacy program registry (pr_code program))"

section \<open>Register code\<close>

definition RegOpExit :: u8 where "RegOpExit = 0"
definition RegOpMovReg :: u8 where "RegOpMovReg = 1"
definition RegOpMovImm :: u8 where "RegOpMovImm = 2"
definition RegOpAddReg :: u8 where "RegOpAddReg = 3"
definition RegOpAddImm :: u8 where "RegOpAddImm = 4"
definition RegOpSubReg :: u8 where "RegOpSubReg = 5"
definition RegOpSubImm :: u8 where "RegOpSubImm = 6"
definition RegOpMulReg :: u8 where "RegOpMulReg = 7"
definition RegOpDivReg :: u8 where "RegOpDivReg = 8"
definition RegOpLoad :: u8 where "RegOpLoad = 9"
definition RegOpStore :: u8 where "RegOpStore = 10"
definition RegOpJmp :: u8 where "RegOpJmp = 11"
definition RegOpJz :: u8 where "RegOpJz = 12"
definition RegOpJnz :: u8 where "RegOpJnz = 13"
definition RegOpSyscall :: u8 where "RegOpSyscall = 14"

lemmas reg_codes = RegOpExit_def RegOpMovReg_def RegOpMovImm_def RegOpAddReg_def RegOpAddImm_def
  RegOpSubReg_def RegOpSubImm_def RegOpMulReg_def RegOpDivReg_def RegOpLoad_def RegOpStore_def
  RegOpJmp_def RegOpJz_def RegOpJnz_def RegOpSyscall_def

definition RegisterMemoryBaseReadOnly :: u64 where "RegisterMemoryBaseReadOnly = 0x10000000"
definition RegisterMemoryBaseInput :: u64 where "RegisterMemoryBaseInput = 0x20000000"
definition RegisterMemoryBaseHeap :: u64 where "RegisterMemoryBaseHeap = 0x30000000"
definition RegisterMemoryBaseStack :: u64 where "RegisterMemoryBaseStack = 0x40000000"

text \<open>The offset is a Go \<open>int32\<close>, kept as its 32 bits.\<close>

record registerInstruction =
  ri_opcode :: u8
  ri_dst :: u8
  ri_src :: u8
  ri_offset :: u32
  ri_imm :: u64

record registerMemory =
  rm_readOnly :: bytes
  rm_input :: bytes
  rm_heap :: bytes
  rm_stack :: bytes

type_synonym registers = "u64 list"

definition decode_instruction :: "bytes \<Rightarrow> registerInstruction" where
  "decode_instruction code =
     \<lparr>ri_opcode = code ! 0, ri_dst = code ! 1, ri_src = code ! 2, ri_offset = le_at 4 code 4,
      ri_imm = le_at 8 code 8\<rparr>"

definition decodeRegisterInstructions :: "bytes \<Rightarrow> vm_error + registerInstruction list" where
  "decodeRegisterInstructions code =
     (if code = [] \<or> length code mod RegisterInstructionSize \<noteq> 0 then Inl VInvalidProgram
      else
        Inr (map (\<lambda>index. decode_instruction (drop (index * RegisterInstructionSize) code))
               [0..<length code div RegisterInstructionSize]))"

definition BuildRegisterInstruction :: "u8 \<Rightarrow> u8 \<Rightarrow> u8 \<Rightarrow> u32 \<Rightarrow> u64 \<Rightarrow> vm_error + bytes" where
  "BuildRegisterInstruction opcode dst src offset immediate =
     (if RegOpSyscall < opcode then Inl VInvalidProgram
      else if RegisterCount \<le> unat dst then Inl VInvalidProgram
      else if RegisterCount \<le> unat src then Inl VInvalidProgram
      else Inr ([opcode, dst, src, 0] @ put_le 4 offset @ put_le 8 immediate))"

definition BuildRegisterProgramCode :: "bytes list \<Rightarrow> vm_error + bytes" where
  "BuildRegisterProgramCode instructions =
     (if \<exists>i \<in> set instructions. length i \<noteq> RegisterInstructionSize then Inl VInvalidProgram
      else
        rbind (BuildRegisterInstruction RegOpExit 0 0 0 0) (\<lambda>exitInstruction.
          Inr (concat instructions @ exitInstruction)))"

definition isJumpOpcode :: "u8 \<Rightarrow> bool" where
  "isJumpOpcode opcode \<longleftrightarrow> opcode = RegOpJmp \<or> opcode = RegOpJz \<or> opcode = RegOpJnz"

definition verifyRegisterIndexes :: "registerInstruction \<Rightarrow> vm_error + unit" where
  "verifyRegisterIndexes i =
     (if RegisterCount \<le> unat (ri_dst i) then Inl VExecutionFailed
      else if RegisterCount \<le> unat (ri_src i) then Inl VExecutionFailed
      else if ri_dst i = 10 \<and> ri_opcode i \<noteq> RegOpLoad \<and> ri_opcode i \<noteq> RegOpStore \<and> ri_opcode i \<noteq> RegOpSyscall
        then Inl VExecutionFailed
      else Inr ())"

definition verifyRegisterInstruction ::
    "registerInstruction \<Rightarrow> nat \<Rightarrow> 'w SyscallRegistry \<Rightarrow> vm_error + unit" where
  "verifyRegisterInstruction i instructionCount registry =
     (if RegOpSyscall < ri_opcode i then Inl VExecutionFailed
      else
        rbind (verifyRegisterIndexes i) (\<lambda>_.
          if isJumpOpcode (ri_opcode i) \<and> instructionCount \<le> unat (ri_imm i) then Inl VExecutionFailed
          else if ri_opcode i = RegOpSyscall \<and> \<not> Registry_Exists registry (ucast (ri_imm i))
            then Inl VExecutionFailed
          else Inr ()))"

definition verifyRegisterProgram :: "Program \<Rightarrow> 'w SyscallRegistry \<Rightarrow> vm_error + unit" where
  "verifyRegisterProgram program registry =
     (if pr_format program \<noteq> programFormatRegister then Inl VInvalidProgram
      else
        rbind (decodeRegisterInstructions (pr_code program)) (\<lambda>instructions.
          rforall (\<lambda>i. wrap_err (VWrap VInvalidProgram)
                     (verifyRegisterInstruction i (length instructions) registry)) instructions))"

definition verifyRegisterInstructionWithManifest ::
    "Program \<Rightarrow> registerInstruction \<Rightarrow> nat \<Rightarrow> 'w SyscallRegistry \<Rightarrow> vm_error + unit" where
  "verifyRegisterInstructionWithManifest program i instructionCount registry =
     rbind (verifyRegisterInstruction i instructionCount registry) (\<lambda>_.
       if ri_opcode i \<noteq> RegOpSyscall then Inr ()
       else verifyProgramAllowsSyscall program (ucast (ri_imm i)))"

definition verifyRegisterProgramWithManifest :: "Program \<Rightarrow> 'w SyscallRegistry \<Rightarrow> vm_error + unit" where
  "verifyRegisterProgramWithManifest program registry =
     (if pr_format program \<noteq> programFormatRegister then Inl VInvalidProgram
      else
        rbind (decodeRegisterInstructions (pr_code program)) (\<lambda>instructions.
          rforall (\<lambda>i. wrap_err (VWrap VInvalidProgram)
                     (verifyRegisterInstructionWithManifest program i (length instructions) registry)) instructions))"

definition VerifyProgram :: "Program \<Rightarrow> 'w SyscallRegistry \<Rightarrow> vm_error + unit" where
  "VerifyProgram program registry =
     (if pr_format program = programFormatLegacy then verifyLegacyProgram program registry
      else if pr_format program = programFormatRegister then verifyRegisterProgramWithManifest program registry
      else Inl VInvalidProgram)"

section \<open>Memory\<close>

definition newRegisterMemory :: "bytes \<Rightarrow> bytes \<Rightarrow> registerMemory" where
  "newRegisterMemory readOnlyData input =
     \<lparr>rm_readOnly = readOnlyData, rm_input = input, rm_heap = replicate RegisterHeapSize 0,
      rm_stack = replicate RegisterStackSize 0\<rparr>"

definition resolveMemoryRegion :: "u64 \<Rightarrow> nat \<Rightarrow> u64 \<Rightarrow> bytes \<Rightarrow> nat option" where
  "resolveMemoryRegion address len base region =
     (if address < base then None
      else
        let offset = unat (address - base) in
        if length region < offset then None
        else if length region - offset < len then None
        else Some offset)"

definition memory_region :: "registerMemory \<Rightarrow> u64 \<Rightarrow> nat \<Rightarrow> vm_error + bytes \<times> nat" where
  "memory_region mem address len =
     (case resolveMemoryRegion address len RegisterMemoryBaseReadOnly (rm_readOnly mem) of
        Some offset \<Rightarrow> Inr (rm_readOnly mem, offset)
      | None \<Rightarrow>
     (case resolveMemoryRegion address len RegisterMemoryBaseInput (rm_input mem) of
        Some offset \<Rightarrow> Inr (rm_input mem, offset)
      | None \<Rightarrow>
     (case resolveMemoryRegion address len RegisterMemoryBaseHeap (rm_heap mem) of
        Some offset \<Rightarrow> Inr (rm_heap mem, offset)
      | None \<Rightarrow>
     (case resolveMemoryRegion address len RegisterMemoryBaseStack (rm_stack mem) of
        Some offset \<Rightarrow> Inr (rm_stack mem, offset)
      | None \<Rightarrow> Inl VExecutionFailed))))"

definition Memory_Read :: "registerMemory \<Rightarrow> u64 \<Rightarrow> nat \<Rightarrow> vm_error + bytes" where
  "Memory_Read mem address len =
     (if RegisterMaxMemoryAccessSize < len then Inl VExecutionFailed
      else if len = 0 then Inr []
      else
        rbind (memory_region mem address len) (\<lambda>(region, offset). Inr (take len (drop offset region))))"

text \<open>The slice that \<open>mutableRegion\<close> returns shares its array with the memory: the write goes there.\<close>

definition Memory_Write :: "registerMemory \<Rightarrow> u64 \<Rightarrow> bytes \<Rightarrow> vm_error + registerMemory" where
  "Memory_Write mem address data =
     (if RegisterMaxMemoryAccessSize < length data then Inl VExecutionFailed
      else
        (case resolveMemoryRegion address (length data) RegisterMemoryBaseHeap (rm_heap mem) of
           Some offset \<Rightarrow> Inr (mem\<lparr>rm_heap := overwrite (rm_heap mem) offset data\<rparr>)
         | None \<Rightarrow>
        (case resolveMemoryRegion address (length data) RegisterMemoryBaseStack (rm_stack mem) of
           Some offset \<Rightarrow> Inr (mem\<lparr>rm_stack := overwrite (rm_stack mem) offset data\<rparr>)
         | None \<Rightarrow> Inl VExecutionFailed)))"

definition applySignedOffset :: "u64 \<Rightarrow> u32 \<Rightarrow> u64" where
  "applySignedOffset base offset =
     (if 0 \<le> sint offset then base + scast offset else base - scast (- offset))"

definition Memory_ReadUint64 :: "registerMemory \<Rightarrow> u64 \<Rightarrow> u32 \<Rightarrow> vm_error + u64" where
  "Memory_ReadUint64 mem base offset =
     rbind (Memory_Read mem (applySignedOffset base offset) 8) (\<lambda>data. Inr (get_le data))"

definition Memory_WriteUint64 :: "registerMemory \<Rightarrow> u64 \<Rightarrow> u32 \<Rightarrow> u64 \<Rightarrow> vm_error + registerMemory" where
  "Memory_WriteUint64 mem base offset value =
     Memory_Write mem (applySignedOffset base offset) (put_le 8 value)"

section \<open>Execution of register code\<close>

text \<open>The registers are an array of 11 words; an index beyond them is a panic.\<close>

definition reg_get :: "registers \<Rightarrow> u8 \<Rightarrow> vm_error + u64" where
  "reg_get regs i = (if length regs \<le> unat i then Inl VPanic else Inr (regs ! unat i))"

definition reg_set :: "registers \<Rightarrow> u8 \<Rightarrow> u64 \<Rightarrow> vm_error + registers" where
  "reg_set regs i v = (if length regs \<le> unat i then Inl VPanic else Inr (regs[unat i := v]))"

definition reg_binary :: "registers \<Rightarrow> registerInstruction \<Rightarrow> (u64 \<Rightarrow> u64 \<Rightarrow> u64) \<Rightarrow> vm_error + registers" where
  "reg_binary regs i f =
     rbind (reg_get regs (ri_dst i)) (\<lambda>x. rbind (reg_get regs (ri_src i)) (\<lambda>y. reg_set regs (ri_dst i) (f x y)))"

definition reg_immediate :: "registers \<Rightarrow> registerInstruction \<Rightarrow> (u64 \<Rightarrow> u64 \<Rightarrow> u64) \<Rightarrow> vm_error + registers" where
  "reg_immediate regs i f =
     rbind (reg_get regs (ri_dst i)) (\<lambda>x. reg_set regs (ri_dst i) (f x (ri_imm i)))"

definition executeRegisterSyscall ::
    "'w SyscallRegistry \<Rightarrow> 'w cpi_runtime option \<Rightarrow> registerMemory \<Rightarrow> registers \<Rightarrow> SyscallID \<Rightarrow> 'w Context \<Rightarrow>
     vm_error + registerMemory \<times> registers \<times> 'w Context" where
  "executeRegisterSyscall registry cpi mem regs syscallID c =
     rbind (reg_get regs 2) (\<lambda>inputLength.
       if MaxSyscallInputSize < unat inputLength then Inl VExecutionFailed
       else
         rbind (reg_get regs 1) (\<lambda>address.
         rbind (Memory_Read mem address (unat inputLength)) (\<lambda>input.
         rbind (Registry_Invoke registry cpi c syscallID input) (\<lambda>(output, c).
         rbind (reg_get regs 3) (\<lambda>outputAddress.
         rbind (reg_get regs 4) (\<lambda>outputCapacity.
         rbind (if output \<noteq> [] \<and> outputAddress \<noteq> 0 then
                  if unat outputCapacity < length output then Inl VExecutionFailed
                  else wrap_err (VWrap VExecutionFailed) (Memory_Write mem outputAddress output)
                else Inr mem) (\<lambda>mem.
         rbind (reg_set regs 0 (of_nat (length output))) (\<lambda>regs. Inr (mem, regs, c)))))))))"

definition register_cost :: "u8 \<Rightarrow> u64" where
  "register_cost opcode =
     (if opcode = RegOpMulReg \<or> opcode = RegOpDivReg then 3
      else if opcode = RegOpLoad then 2
      else if opcode = RegOpStore then 4
      else if opcode = RegOpSyscall then 20
      else 1)"

definition chargeRegisterInstruction :: "'w Context \<Rightarrow> u8 \<Rightarrow> vm_error + 'w Context" where
  "chargeRegisterInstruction c opcode = consume c (register_cost opcode)"

definition executeRegisterInstruction ::
    "'w SyscallRegistry \<Rightarrow> 'w cpi_runtime option \<Rightarrow> registerMemory \<Rightarrow> registers \<Rightarrow> registerInstruction \<Rightarrow> u64 \<Rightarrow>
     'w Context \<Rightarrow> vm_error + u64 \<times> bool \<times> registerMemory \<times> registers \<times> 'w Context" where
  "executeRegisterInstruction registry cpi mem regs i pc c =
     (let next = pc + 1;
          updated = \<lambda>r. rbind r (\<lambda>regs. Inr (next, False, mem, regs, c))
      in
      if ri_opcode i = RegOpExit then Inr (next, True, mem, regs, c)
      else if ri_opcode i = RegOpMovReg then
        updated (rbind (reg_get regs (ri_src i)) (\<lambda>v. reg_set regs (ri_dst i) v))
      else if ri_opcode i = RegOpMovImm then updated (reg_set regs (ri_dst i) (ri_imm i))
      else if ri_opcode i = RegOpAddReg then updated (reg_binary regs i (+))
      else if ri_opcode i = RegOpAddImm then updated (reg_immediate regs i (+))
      else if ri_opcode i = RegOpSubReg then updated (reg_binary regs i (-))
      else if ri_opcode i = RegOpSubImm then updated (reg_immediate regs i (-))
      else if ri_opcode i = RegOpMulReg then updated (reg_binary regs i (*))
      else if ri_opcode i = RegOpDivReg then
        rbind (reg_get regs (ri_src i)) (\<lambda>v.
          if v = 0 then Inl VExecutionFailed else updated (reg_binary regs i (div)))
      else if ri_opcode i = RegOpLoad then
        rbind (reg_get regs (ri_src i)) (\<lambda>base.
        rbind (Memory_ReadUint64 mem base (ri_offset i)) (\<lambda>v. updated (reg_set regs (ri_dst i) v)))
      else if ri_opcode i = RegOpStore then
        rbind (reg_get regs (ri_dst i)) (\<lambda>base.
        rbind (reg_get regs (ri_src i)) (\<lambda>v.
        rbind (Memory_WriteUint64 mem base (ri_offset i) v) (\<lambda>mem. Inr (next, False, mem, regs, c))))
      else if ri_opcode i = RegOpJmp then Inr (ri_imm i, False, mem, regs, c)
      else if ri_opcode i = RegOpJz then
        rbind (reg_get regs (ri_dst i)) (\<lambda>v. Inr (if v = 0 then ri_imm i else next, False, mem, regs, c))
      else if ri_opcode i = RegOpJnz then
        rbind (reg_get regs (ri_dst i)) (\<lambda>v. Inr (if v \<noteq> 0 then ri_imm i else next, False, mem, regs, c))
      else if ri_opcode i = RegOpSyscall then
        rbind (executeRegisterSyscall registry cpi mem regs (ucast (ri_imm i)) c) (\<lambda>(mem, regs, c).
          Inr (next, False, mem, regs, c))
      else Inl VExecutionFailed)"

definition register_step ::
    "'w SyscallRegistry \<Rightarrow> 'w cpi_runtime option \<Rightarrow> registerMemory \<Rightarrow> registers \<Rightarrow> registerInstruction \<Rightarrow> u64 \<Rightarrow>
     'w Context \<Rightarrow> vm_error + u64 \<times> bool \<times> registerMemory \<times> registers \<times> 'w Context" where
  "register_step registry cpi mem regs i pc c =
     rbind (chargeRegisterInstruction c (ri_opcode i)) (\<lambda>c.
       executeRegisterInstruction registry cpi mem regs i pc c)"

text \<open>The loop of \<open>registerExecutor.Execute\<close>. No value means that it never returns.\<close>

partial_function (option) run_register ::
    "'w SyscallRegistry \<Rightarrow> 'w cpi_runtime option \<Rightarrow> registerInstruction list \<Rightarrow> u64 \<Rightarrow> registerMemory \<Rightarrow> registers \<Rightarrow>
     'w Context \<Rightarrow> (vm_error + 'w Context) option" where
  "run_register registry cpi instructions pc mem regs c =
     (if unat pc < length instructions then
        (case register_step registry cpi mem regs (instructions ! unat pc) pc c of
           Inl e \<Rightarrow> Some (Inl e)
         | Inr (next, shouldExit, mem, regs, c) \<Rightarrow>
             if shouldExit then Some (Inr c)
             else run_register registry cpi instructions next mem regs c)
      else Some (Inl VExecutionFailed))"

definition initial_registers :: registers where
  "initial_registers = replicate 10 0 @ [RegisterMemoryBaseStack + of_nat RegisterStackSize]"

definition registerExecutor_Execute ::
    "'w SyscallRegistry \<Rightarrow> 'w cpi_runtime option \<Rightarrow> Program \<Rightarrow> 'w Context \<Rightarrow> (vm_error + 'w Context) option" where
  "registerExecutor_Execute registry cpi program c =
     (case decodeRegisterInstructions (pr_code program) of
        Inl e \<Rightarrow> Some (Inl e)
      | Inr instructions \<Rightarrow>
          run_register registry cpi instructions 0
            (newRegisterMemory (pr_readonly program) (inv_data (cx_invocation c))) initial_registers c)"

definition executeRegisterProgram ::
    "'w SyscallRegistry \<Rightarrow> 'w cpi_runtime option \<Rightarrow> Program \<Rightarrow> 'w Context \<Rightarrow> (vm_error + 'w Context) option" where
  "executeRegisterProgram registry cpi program c =
     (case verifyRegisterProgramWithManifest program registry of
        Inl e \<Rightarrow> Some (Inl e)
      | Inr _ \<Rightarrow> registerExecutor_Execute registry cpi program c)"

definition BytecodeExecutor_Execute ::
    "'w SyscallRegistry \<Rightarrow> 'w cpi_runtime option \<Rightarrow> Program \<Rightarrow> 'w Context \<Rightarrow> (vm_error + 'w Context) option" where
  "BytecodeExecutor_Execute registry cpi program c =
     (if pr_format program = programFormatRegister then executeRegisterProgram registry cpi program c
      else if pr_code program = [] then Some (Inl VInvalidProgram)
      else Some (execute_legacy registry cpi (pr_code program) c))"

section \<open>The runtime\<close>

text \<open>
  Loader and executor are interfaces with one implementation each, which is used here; the
  verifier of Schnorr proofs is the parameter of the default registry.
\<close>

record 'w Runtime =
  rt_syscalls :: "'w SyscallRegistry"
  rt_cpi :: "'w cpi_runtime option"
  rt_loader_id :: pubkey
  rt_limit :: u64
  rt_max_increase :: int

definition NewRuntime :: "schnorr_verifier \<Rightarrow> pubkey \<Rightarrow> 'w Runtime" where
  "NewRuntime verify loaderID =
     \<lparr>rt_syscalls = DefaultSyscallRegistry verify, rt_cpi = None, rt_loader_id = loaderID,
      rt_limit = DefaultComputeUnitLimit, rt_max_increase = DefaultMaxDataIncreasePerCall\<rparr>"

definition Runtime_normalize :: "schnorr_verifier \<Rightarrow> 'w Runtime \<Rightarrow> 'w Runtime" where
  "Runtime_normalize verify rt =
     rt\<lparr>rt_syscalls := (if Registry_IsZero (rt_syscalls rt) then DefaultSyscallRegistry verify else rt_syscalls rt),
        rt_limit := (if rt_limit rt = 0 then DefaultComputeUnitLimit else rt_limit rt),
        rt_max_increase := (if rt_max_increase rt \<le> 0 then DefaultMaxDataIncreasePerCall else rt_max_increase rt)\<rparr>"

definition normalizeSysvars :: "Sysvars \<Rightarrow> u64 \<Rightarrow> Sysvars" where
  "normalizeSysvars sysvars currentSlot =
     (if clock_slot (sv_clock sysvars) = 0
      then sysvars\<lparr>sv_clock := (sv_clock sysvars)\<lparr>clock_slot := currentSlot\<rparr>\<rparr> else sysvars)"

fun firstNonZero :: "u64 list \<Rightarrow> u64" where
  "firstNonZero [] = 0"
| "firstNonZero (v # vs) = (if v \<noteq> 0 then v else firstNonZero vs)"

definition effectiveComputeLimit :: "u64 \<Rightarrow> u64 \<Rightarrow> Program \<Rightarrow> u64" where
  "effectiveComputeLimit invocationLimit runtimeLimit program =
     (let limit = firstNonZero [invocationLimit, runtimeLimit, DefaultComputeUnitLimit] in
      case pr_manifest program of
        None \<Rightarrow> limit
      | Some m \<Rightarrow> if pm_limit m = 0 then limit else if pm_limit m < limit then pm_limit m else limit)"

definition new_context :: "'w Runtime \<Rightarrow> Invocation \<Rightarrow> Program \<Rightarrow> 'w \<Rightarrow> 'w Context" where
  "new_context rt invocation program world =
     \<lparr>cx_invocation = invocation\<lparr>inv_sysvars := normalizeSysvars (inv_sysvars invocation) (inv_slot invocation)\<rparr>,
      cx_accounts = NewAccountSet (inv_program invocation) (inv_accounts invocation) (rt_max_increase rt),
      cx_meter = NewComputeMeter (effectiveComputeLimit (inv_limit invocation) (rt_limit rt) program),
      cx_logs = [], cx_return = None, cx_last = [], cx_world = world\<rparr>"

definition context_result :: "'w Context \<Rightarrow> Result \<times> 'w" where
  "context_result c =
     (\<lparr>res_accounts = as_accounts (cx_accounts c), res_units = cm_consumed (cx_meter c),
       res_logs = cx_logs c, res_return = cx_return c, res_output = cx_last c\<rparr>, cx_world c)"

definition Runtime_Execute ::
    "schnorr_verifier \<Rightarrow> 'w Runtime \<Rightarrow> Invocation \<Rightarrow> 'w \<Rightarrow> (vm_error + Result \<times> 'w) option" where
  "Runtime_Execute verify rt invocation world =
     (let rt = Runtime_normalize verify rt in
      if inv_program invocation = 0 then Some (Inl VInvalidProgram)
      else if VmMaxInstructionDataSize < length (inv_data invocation) then Some (Inl VExecutionFailed)
      else
        (case Load (inv_program_account invocation) (rt_loader_id rt) of
           Inl e \<Rightarrow> Some (Inl e)
         | Inr program \<Rightarrow>
             (case VerifyProgram program (rt_syscalls rt) of
                Inl e \<Rightarrow> Some (Inl e)
              | Inr _ \<Rightarrow>
                  map_option (\<lambda>r. rbind r (\<lambda>c. Inr (context_result c)))
                    (BytecodeExecutor_Execute (rt_syscalls rt) (rt_cpi rt) program
                       (new_context rt invocation program world)))))"

end
