(* ===== verification/Vm_Safety.thy ===== *)
theory Vm_Safety
  imports Vm_Machine
begin

text \<open>
  What the virtual machine guarantees: programs touch accounts only as permitted, never exceed
  their compute limit, always return, and verified programs never index beyond registers or code.
\<close>

section \<open>Executions respect the relations between contexts\<close>

lemma consume_Inr [result_simps]:
  "consume c units = Inr d \<longleftrightarrow> (\<exists>m. Consume (cx_meter c) units = Inr m \<and> d = c\<lparr>cx_meter := m\<rparr>)"
  by (auto simp: consume_def result_simps)

text \<open>How a run of register code ends, when every state it goes through has a property.\<close>

definition run_end ::
    "'w SyscallRegistry \<Rightarrow> 'w cpi_runtime option \<Rightarrow> registerInstruction list \<Rightarrow>
     (u64 \<Rightarrow> registerMemory \<Rightarrow> registers \<Rightarrow> 'w Context \<Rightarrow> bool) \<Rightarrow> vm_error + 'w Context \<Rightarrow> bool" where
  "run_end registry cpi ins I r \<longleftrightarrow> (\<exists>pc mem regs c. I pc mem regs c \<and>
     (unat pc < length ins \<and>
        ((\<exists>e. register_step registry cpi mem regs (ins ! unat pc) pc c = Inl e \<and> r = Inl e) \<or>
         (\<exists>n m g d. register_step registry cpi mem regs (ins ! unat pc) pc c = Inr (n, True, m, g, d) \<and> r = Inr d)) \<or>
      length ins \<le> unat pc \<and> r = Inl VExecutionFailed))"

lemma run_register_invariant:
  assumes run: "run_register registry cpi ins pc mem regs c = Some r" and init: "I pc mem regs c"
    and step: "\<And>pc mem regs c n m g d. I pc mem regs c \<Longrightarrow> unat pc < length ins \<Longrightarrow>
      register_step registry cpi mem regs (ins ! unat pc) pc c = Inr (n, False, m, g, d) \<Longrightarrow> I n m g d"
  shows "run_end registry cpi ins I r"
proof -
  define P where "P = (\<lambda>registry' cpi' ins' pc mem regs c r.
      registry' = registry \<longrightarrow> cpi' = cpi \<longrightarrow> ins' = ins \<longrightarrow> I pc mem regs c \<longrightarrow> run_end registry cpi ins I r)"
  have "P registry cpi ins pc mem regs c r"
  proof (rule run_register.raw_induct [OF _ run])
    fix rec registry' cpi' ins' pc mem regs c r
    assume IH: "\<And>registry' cpi' ins' pc mem regs c r.
        rec registry' cpi' ins' pc mem regs c = Some r \<Longrightarrow> P registry' cpi' ins' pc mem regs c r"
      and now: "(if unat pc < length ins'
        then case register_step registry' cpi' mem regs (ins' ! unat pc) pc c of Inl e \<Rightarrow> Some (Inl e)
             | Inr (n, stop, m, g, d) \<Rightarrow> if stop then Some (Inr d) else rec registry' cpi' ins' n m g d
        else Some (Inl VExecutionFailed)) = Some r"
    show "P registry' cpi' ins' pc mem regs c r"
      unfolding P_def
    proof (intro impI)
      assume eqs: "registry' = registry" "cpi' = cpi" "ins' = ins" and I: "I pc mem regs c"
      let ?step = "register_step registry cpi mem regs (ins ! unat pc) pc c"
      show "run_end registry cpi ins I r"
      proof (cases "unat pc < length ins")
        case False
        with now eqs have "length ins \<le> unat pc \<and> r = Inl VExecutionFailed" by simp
        with I show ?thesis unfolding run_end_def by blast
      next
        case True
        show ?thesis
        proof (cases ?step)
          case (Inl e)
          with now eqs True have "r = Inl e" by simp
          with I True Inl show ?thesis unfolding run_end_def by blast
        next
          case (Inr x)
          obtain n stop m g d where x: "x = (n, stop, m, g, d)" by (cases x)
          show ?thesis
          proof (cases stop)
            case True
            with now eqs \<open>unat pc < length ins\<close> Inr x have "r = Inr d" "?step = Inr (n, True, m, g, d)" by simp_all
            with I \<open>unat pc < length ins\<close> show ?thesis unfolding run_end_def by blast
          next
            case False
            with now eqs \<open>unat pc < length ins\<close> Inr x have rec: "rec registry cpi ins n m g d = Some r"
              and st: "?step = Inr (n, False, m, g, d)" by simp_all
            have "I n m g d" by (rule step [OF I \<open>unat pc < length ins\<close> st])
            with IH [OF rec] show ?thesis by (simp add: P_def)
          qed
        qed
      qed
    qed
  qed
  with init show ?thesis by (simp add: P_def)
qed

context context_relation
begin

lemma consume_related: "consume c units = Inr d \<Longrightarrow> R c d"
  by (auto simp: result_simps consumes)

lemma legacy_step_related:
  assumes "legacy_step registry cpi opcode code c = Inr (rest, d)" and "registry_keeps cpi registry"
  shows "R c d"
proof -
  have wr: "executeWriteInstructionData code c = Inr (rest, d) \<Longrightarrow> R c d"
    and move: "executeTransferLamports code c = Inr (rest, d) \<Longrightarrow> R c d"
    by (auto simp: executeWriteInstructionData_def executeTransferLamports_def WriteInstructionData_def
        result_simps intro: trans [OF consumes writes] trans [OF consumes moves])
  have call: "executeSyscall registry cpi code c = Inr (rest, d) \<Longrightarrow> R c d"
    using invoke_related [OF _ assms(2)] by (auto simp: executeSyscall_def result_simps split: if_splits)
  have sign: "executeRequireSigner code c = Inr (rest, d) \<Longrightarrow> R c d"
    by (auto simp: executeRequireSigner_def result_simps refl)
  show ?thesis
    using assms(1) wr move call sign by (auto simp: legacy_step_def split: if_splits)
qed

lemma execute_legacy_related:
  assumes "registry_keeps cpi registry"
  shows "execute_legacy registry cpi code c = Inr d \<Longrightarrow> R c d"
  using assms
proof (induction registry cpi code c rule: execute_legacy.induct)
  case (2 registry cpi opcode code c)
  from "2.prems"(1) obtain e where e: "consume c baseInstructionCost = Inr e"
    and rest: "(if opcode = OpReturn then Inr e
         else case legacy_step registry cpi opcode code e of
            Inl x \<Rightarrow> Inl x | Inr (rest, f) \<Rightarrow> execute_legacy registry cpi rest f) = Inr d"
    by (auto simp: rbind_eq_Inr simp del: consume_Inr)
  show ?case
  proof (cases "opcode = OpReturn")
    case True
    with e rest show ?thesis by (simp add: consume_related)
  next
    case False
    with rest obtain r f where step: "legacy_step registry cpi opcode code e = Inr (r, f)"
      and run: "execute_legacy registry cpi r f = Inr d"
      by (auto split: sum.splits)
    have "R f d" using "2.IH" [OF e False step HOL.refl run "2.prems"(2)] .
    then show ?thesis
      using consume_related [OF e] legacy_step_related [OF step "2.prems"(2)] trans by blast
  qed
qed simp

lemma syscall_related:
  assumes "executeRegisterSyscall registry cpi mem regs i c = Inr (mem', regs', d)"
    and "registry_keeps cpi registry"
  shows "R c d"
  using assms(1) invoke_related [OF _ assms(2)]
  by (auto simp: executeRegisterSyscall_def result_simps split: if_splits)

lemma instruction_related:
  assumes "executeRegisterInstruction registry cpi mem regs i pc c = Inr (next, done, mem', regs', d)"
    and "registry_keeps cpi registry"
  shows "R c d"
proof -
  have "c = d \<or> (\<exists>m r. executeRegisterSyscall registry cpi mem regs (ucast (ri_imm i)) c = Inr (m, r, d))"
    using assms(1)
    unfolding executeRegisterInstruction_def Let_def
    by (auto simp: result_simps split: if_splits)
  then show ?thesis using syscall_related [OF _ assms(2)] refl by blast
qed

lemma register_step_related:
  assumes "register_step registry cpi mem regs i pc c = Inr (next, done, mem', regs', d)"
    and "registry_keeps cpi registry"
  shows "R c d"
  using assms(1) instruction_related [OF _ assms(2)] consume_related trans
  unfolding register_step_def chargeRegisterInstruction_def rbind_eq_Inr by blast

lemma run_register_related:
  assumes "run_register registry cpi ins pc mem regs c = Some (Inr d)" and "registry_keeps cpi registry"
  shows "R c d"
proof -
  have "run_end registry cpi ins (\<lambda>_ _ _ e. R c e) (Inr d)"
    by (rule run_register_invariant [OF assms(1)])
      (blast intro: refl trans register_step_related [OF _ assms(2)])+
  then show ?thesis
    using register_step_related [OF _ assms(2)] trans by (auto simp: run_end_def)
qed

lemma execute_related:
  assumes "BytecodeExecutor_Execute registry cpi program c = Some (Inr d)" and "registry_keeps cpi registry"
  shows "R c d"
  using assms(1) run_register_related [OF _ assms(2)] execute_legacy_related [OF assms(2)]
  by (auto simp: BytecodeExecutor_Execute_def executeRegisterProgram_def registerExecutor_Execute_def
      split: if_splits sum.splits)

end

section \<open>Termination\<close>

definition fuel :: "'w Context \<Rightarrow> nat" where
  "fuel c = unat (cm_limit (cx_meter c)) - unat (cm_consumed (cx_meter c))"

lemma register_cost_pos: "0 < unat (register_cost opcode)"
  by (simp add: register_cost_def)

lemma register_step_burns:
  assumes step: "register_step registry cpi mem regs i pc c = Inr (n, stop, m, g, d)"
    and keeps: "meter_kept.registry_keeps cpi registry" and ok: "meter_ok (cx_meter c)"
  shows "meter_ok (cx_meter d) \<and> fuel d < fuel c"
proof -
  obtain e where e: "consume c (register_cost (ri_opcode i)) = Inr e"
    and run: "executeRegisterInstruction registry cpi mem regs i pc e = Inr (n, stop, m, g, d)"
    using step unfolding register_step_def chargeRegisterInstruction_def rbind_eq_Inr by blast
  obtain k where k: "Consume (cx_meter c) (register_cost (ri_opcode i)) = Inr k" and ek: "cx_meter e = k"
    using e by (auto simp: result_simps)
  note burn = Consume_Inr [OF k ok, folded ek]
  have "meter_rel e d" by (rule meter_kept.instruction_related [OF run keeps])
  with burn(1,2) have d: "meter_ok (cx_meter d)" "cm_limit (cx_meter d) = cm_limit (cx_meter c)"
      "unat (cm_consumed (cx_meter e)) \<le> unat (cm_consumed (cx_meter d))"
    by (auto simp: meter_rel_def word_le_nat_alt)
  moreover have "unat (cm_consumed (cx_meter d)) \<le> unat (cm_limit (cx_meter d))"
    using d(1) by (simp add: meter_ok_def word_le_nat_alt)
  ultimately show ?thesis
    using burn(3) register_cost_pos [of "ri_opcode i"] by (simp add: fuel_def)
qed

lemma run_register_terminates:
  assumes "meter_kept.registry_keeps cpi registry" and "meter_ok (cx_meter c)"
  shows "\<exists>r. run_register registry cpi ins pc mem regs c = Some r"
  using assms(2)
proof (induction "fuel c" arbitrary: pc mem regs c rule: less_induct)
  case less
  show ?case
  proof (cases "unat pc < length ins")
    case False
    then show ?thesis by (simp add: run_register.simps)
  next
    case True
    show ?thesis
    proof (cases "register_step registry cpi mem regs (ins ! unat pc) pc c")
      case (Inl e)
      with True show ?thesis by (simp add: run_register.simps)
    next
      case (Inr x)
      obtain n stop m g d where x: "x = (n, stop, m, g, d)" by (cases x)
      from register_step_burns [OF Inr [unfolded x] assms(1) less.prems]
      obtain r where "run_register registry cpi ins n m g d = Some r" using less.hyps by blast
      with True Inr x show ?thesis by (cases stop) (simp_all add: run_register.simps)
    qed
  qed
qed

lemma executor_terminates:
  assumes "meter_kept.registry_keeps cpi registry" and "meter_ok (cx_meter c)"
  shows "\<exists>r. BytecodeExecutor_Execute registry cpi program c = Some r"
  using run_register_terminates [OF assms]
  by (auto simp: BytecodeExecutor_Execute_def executeRegisterProgram_def registerExecutor_Execute_def
      split: sum.splits)

section \<open>Panics\<close>

fun panics :: "vm_error \<Rightarrow> bool" where
  "panics VPanic = True"
| "panics (VWrap a b) = (panics a \<or> panics b)"
| "panics _ = False"

definition calm :: "vm_error + 'a \<Rightarrow> bool" where
  "calm r \<longleftrightarrow> (\<forall>e. r = Inl e \<longrightarrow> \<not> panics e)"

lemma calm_simps [simp]: "calm (Inr x)" "calm (Inl e) \<longleftrightarrow> \<not> panics e"
  by (auto simp: calm_def)

lemma calm_if [simp]: "calm (if b then r else q) \<longleftrightarrow> (if b then calm r else calm q)"
  by simp

lemma calm_rbind: "calm r \<Longrightarrow> (\<And>x. r = Inr x \<Longrightarrow> calm (f x)) \<Longrightarrow> calm (rbind r f)"
  by (cases r) auto

lemma calm_rbind_iff: "calm (rbind r f) \<longleftrightarrow> calm r \<and> (\<forall>x. r = Inr x \<longrightarrow> calm (f x))"
  by (cases r) auto

lemma calm_wrap: "calm r \<Longrightarrow> \<not> panics w \<Longrightarrow> calm (wrap_err (VWrap w) r)"
  by (cases r) auto

subsection \<open>System calls\<close>

lemma calm_readers:
  "calm (read_byte r)" "calm (readSyscallUint32Value r)" "calm (readSyscallFixedBytes r n)" "calm (readSyscallBytes r)"
  by (auto simp: read_byte_def readSyscallUint32Value_def readSyscallFixedBytes_def readSyscallBytes_def
      EOF_def Let_def split: list.splits option.splits)

lemma calm_account_set:
  "calm (set_account s i)" "calm (mutableAccount s i)" "calm (RequireSigner s i)" "calm (ReadData s i offset len)"
  "calm (WriteData s i offset data)" "calm (Vm_TransferLamports s i j n)" "calm (Consume m units)"
  by (auto simp: set_account_def mutableAccount_def RequireSigner_def ReadData_def WriteData_def
      Vm_TransferLamports_def Consume_def Let_def intro!: calm_rbind)

lemma calm_consume: "calm (consume c units)"
  by (auto simp: consume_def calm_account_set intro!: calm_rbind)

lemma calm_pda: "calm (pda_seeds seeds)" "calm (CreateProgramAddress p seeds)"
proof -
  show seeds: "calm (pda_seeds seeds)" for seeds by (induction seeds) (auto intro!: calm_rbind)
  show "calm (CreateProgramAddress p seeds)"
    by (auto simp: CreateProgramAddress_def pda_text_def Let_def seeds intro!: calm_rbind)
qed

lemma calm_decoders:
  "calm (decode_seeds n r)" "calm (decodeProgramAddressInput input)" "calm (decodeAccountDataRange input)"
  "calm (decodeAccountDataWrite input)" "calm (decode_cpi input)" "calm (decodeCPIInstruction input)"
  "calm (decode_signer_seeds n r)" "calm (decode_signers p n r)"
proof -
  show seeds: "calm (decode_seeds n r)" for n r
    by (induction n arbitrary: r) (auto simp: calm_readers intro!: calm_rbind)
  show signer: "calm (decode_signer_seeds n r)" for n r
    by (induction n arbitrary: r) (auto simp: calm_readers intro!: calm_rbind)
  show "calm (decode_signers p n r)"
    by (induction n arbitrary: r) (auto simp: calm_readers calm_pda signer intro!: calm_rbind)
  show cpi: "calm (decode_cpi input)" for input
    by (auto simp: decode_cpi_def calm_readers intro!: calm_rbind)
  show "calm (decodeProgramAddressInput input)" "calm (decodeAccountDataRange input)"
    "calm (decodeAccountDataWrite input)" "calm (decodeCPIInstruction input)"
    by (auto simp: decodeProgramAddressInput_def decodeAccountDataRange_def decodeAccountDataWrite_def
        decodeCPIInstruction_def calm_readers seeds cpi intro!: calm_rbind)
qed

lemma readSyscallFixedBytes_Inr: "readSyscallFixedBytes r n = Inr (d, q) \<Longrightarrow> length r = length d + length q"
  by (auto simp: readSyscallFixedBytes_def reader_read_def split: if_splits)

lemma readSyscallBytes_Inr:
  assumes "readSyscallBytes r = Inr (d, q)"
  shows "length r = 4 + length d + length q"
proof -
  obtain n where n: "readSyscallFixedBytes (drop 4 r) n = Inr (d, q)"
    using assms by (auto simp: readSyscallBytes_def reader_read_def Let_def split: if_splits)
  then have "drop 4 r \<noteq> []" by (auto simp: readSyscallFixedBytes_def reader_read_def split: if_splits)
  with readSyscallFixedBytes_Inr [OF n] show ?thesis by simp
qed

lemma decode_cpi_Inr:
  assumes "decode_cpi input = Inr (i, q)"
  shows "length input = 37 + length (cpi_accounts i) + length (cpi_data i) + length q"
proof -
  obtain p r n r' a r'' d where "readSyscallFixedBytes input 32 = Inr (p, r)" and "length p = 32"
    and "read_byte r = Inr (n, r')" and "readSyscallFixedBytes r' (unat n) = Inr (a, r'')"
    and "readSyscallBytes r'' = Inr (d, q)" and "cpi_accounts i = a" and "cpi_data i = d"
    using assms
    by (auto simp: decode_cpi_def result_simps readSyscallFixedBytes_def reader_read_def split: if_splits)
  then show ?thesis
    by (auto dest!: readSyscallFixedBytes_Inr readSyscallBytes_Inr simp: read_byte_def split: list.splits)
qed

lemma calm_signed_cpi: "calm (decodeSignedCPIInstruction p input)"
proof -
  have "calm (decodeCPIInstructionPrefix input)"
    by (auto simp: decodeCPIInstructionPrefix_def calm_decoders intro!: calm_rbind)
  moreover have "37 + length (cpi_accounts i) + length (cpi_data i) \<le> length input"
    if "decodeCPIInstructionPrefix input = Inr i" for i
    using that decode_cpi_Inr by (fastforce simp: decodeCPIInstructionPrefix_def result_simps)
  ultimately show ?thesis
    by (auto simp: decodeSignedCPIInstruction_def Let_def calm_readers calm_decoders not_less
        intro!: calm_rbind)
qed

definition cpi_calm :: "'w cpi_runtime option \<Rightarrow> bool" where
  "cpi_calm cpi \<longleftrightarrow> (\<forall>invoke c i. cpi = Some invoke \<longrightarrow> calm (invoke c i))"

definition registry_calm :: "'w cpi_runtime option \<Rightarrow> 'w SyscallRegistry \<Rightarrow> bool" where
  "registry_calm cpi registry \<longleftrightarrow>
     (\<forall>(i, s) \<in> set registry. \<exists>h. sc_handler s = Some h \<and> (\<forall>c input. calm (h cpi c input)))"

lemma default_registry_calm:
  assumes "cpi_calm cpi"
  shows "registry_calm cpi (DefaultSyscallRegistry verify)"
proof -
  have call: "calm (call_cpi cpi c i)" for c i
    using assms by (auto simp: call_cpi_def cpi_calm_def split: option.splits intro!: calm_rbind)
  show ?thesis
    unfolding registry_calm_def default_registry default_syscalls_def
    by (auto simp: syscallLog_def Context_Log_def syscallSHA256_def syscallSetReturnData_def
        SetReturnData_def syscallGetReturnData_def syscallGetClock_def syscallGetRent_def Let_def
        syscallCreateProgramAddress_def syscallVerifySchnorr_def syscallGetAccountData_def
        syscallSetAccountData_def syscallInvoke_def syscallInvokeSigned_def call calm_signed_cpi
        calm_decoders calm_pda calm_readers calm_account_set split: option.splits intro!: calm_rbind)
qed

lemma calm_invoke:
  assumes "registry_calm cpi registry"
  shows "calm (Registry_Invoke registry cpi c i input)"
proof -
  have "\<exists>h. sc_handler s = Some h \<and> (\<forall>c input. calm (h cpi c input))" if "map_of registry i = Some s" for s
    using assms map_of_SomeD [OF that] by (auto simp: registry_calm_def)
  then show ?thesis
    by (fastforce simp: Registry_Invoke_def calm_account_set split: option.splits intro!: calm_rbind calm_wrap)
qed

subsection \<open>Legacy code\<close>

lemma calm_legacy_step:
  assumes "registry_calm cpi registry"
  shows "calm (legacy_step registry cpi opcode code c)"
  using calm_invoke [OF assms]
  by (simp add: legacy_step_def executeRequireSigner_def executeWriteInstructionData_def
      executeTransferLamports_def executeSyscall_def readCodeUint8_def readCodeUint32_def
      readCodeUint64_def readCodeFixedBytes_def WriteInstructionData_def calm_consume calm_account_set
      calm_rbind_iff split_def split: list.split)

lemma calm_execute_legacy:
  assumes "registry_calm cpi registry"
  shows "calm (execute_legacy registry cpi code c)"
  using assms
proof (induction registry cpi code c rule: execute_legacy.induct)
  case (2 registry cpi opcode code c)
  show ?case
    unfolding execute_legacy.simps
  proof (rule calm_rbind [OF calm_consume])
    fix d
    assume d: "consume c baseInstructionCost = Inr d"
    show "calm (if opcode = OpReturn then Inr d
      else case legacy_step registry cpi opcode code d of Inl e \<Rightarrow> Inl e
           | Inr (rest, c) \<Rightarrow> execute_legacy registry cpi rest c)"
      using calm_legacy_step [OF "2.prems", of opcode code d] "2.IH" [OF d] "2.prems"
      by (auto split: sum.splits)
  qed
qed simp

subsection \<open>Register code\<close>

definition in_range :: "registerInstruction \<Rightarrow> bool" where
  "in_range i \<longleftrightarrow> unat (ri_dst i) < 11 \<and> unat (ri_src i) < 11"

lemma verified_in_range:
  assumes "verifyRegisterProgramWithManifest program registry = Inr u"
    and "decodeRegisterInstructions (pr_code program) = Inr ins" and "i \<in> set ins"
  shows "in_range i"
proof -
  have "verifyRegisterInstructionWithManifest program i (length ins) registry = Inr ()"
    using assms by (auto simp: verifyRegisterProgramWithManifest_def rforall_Inr result_simps split: if_splits)
  then have "verifyRegisterIndexes i = Inr ()"
    unfolding verifyRegisterInstructionWithManifest_def verifyRegisterInstruction_def rbind_eq_Inr
    by (auto simp: rbind_eq_Inr split: if_splits)
  then show ?thesis
    by (simp add: verifyRegisterIndexes_def in_range_def vm_limits split: if_splits)
qed

lemma reg_simps [simp]:
  assumes "length regs = 11"
  shows "unat k < 11 \<Longrightarrow> reg_get regs k = Inr (regs ! unat k)"
    and "unat k < 11 \<Longrightarrow> reg_set regs k v = Inr (regs[unat k := v])"
    and "in_range i \<Longrightarrow> reg_binary regs i f = Inr (regs[unat (ri_dst i) := f (regs ! unat (ri_dst i)) (regs ! unat (ri_src i))])"
    and "in_range i \<Longrightarrow> reg_immediate regs i f = Inr (regs[unat (ri_dst i) := f (regs ! unat (ri_dst i)) (ri_imm i)])"
  using assms by (simp_all add: reg_get_def reg_set_def reg_binary_def reg_immediate_def in_range_def)

lemma calm_memory: "calm (Memory_Read mem a n)" "calm (Memory_Write mem a data)"
  "calm (Memory_ReadUint64 mem a off)" "calm (Memory_WriteUint64 mem a off v)"
  by (auto simp: Memory_Read_def memory_region_def Memory_Write_def Memory_ReadUint64_def
      Memory_WriteUint64_def split: option.splits intro!: calm_rbind)

lemma register_syscall_safe:
  assumes "registry_calm cpi registry" and "length regs = 11"
  shows "calm (executeRegisterSyscall registry cpi mem regs i c)"
    and "executeRegisterSyscall registry cpi mem regs i c = Inr (m, g, d) \<Longrightarrow> length g = 11"
proof -
  show "calm (executeRegisterSyscall registry cpi mem regs i c)"
    using assms
    by (auto simp: executeRegisterSyscall_def calm_memory calm_invoke intro!: calm_rbind calm_wrap)
  show "executeRegisterSyscall registry cpi mem regs i c = Inr (m, g, d) \<Longrightarrow> length g = 11"
    using assms(2) by (auto simp: executeRegisterSyscall_def result_simps split: if_splits)
qed

lemma register_step_safe:
  assumes "registry_calm cpi registry" and "length regs = 11" and "in_range i"
  shows "calm (register_step registry cpi mem regs i pc c)"
    and "register_step registry cpi mem regs i pc c = Inr (n, stop, m, g, d) \<Longrightarrow> length g = 11"
proof -
  have idx: "unat (ri_dst i) < 11" "unat (ri_src i) < 11" using assms(3) by (simp_all add: in_range_def)
  have "calm (executeRegisterInstruction registry cpi mem regs i pc c)" for c
    unfolding executeRegisterInstruction_def Let_def
    using assms idx
    by (simp add: calm_rbind_iff calm_memory register_syscall_safe(1) [OF assms(1,2)] split_def)
  then show "calm (register_step registry cpi mem regs i pc c)"
    by (auto simp: register_step_def chargeRegisterInstruction_def calm_consume intro!: calm_rbind)
  have "executeRegisterInstruction registry cpi mem regs i pc c = Inr (n, stop, m, g, d) \<Longrightarrow> length g = 11" for c
    unfolding executeRegisterInstruction_def Let_def
    using assms idx
    by (simp add: rbind_eq_Inr split_def split: if_split_asm) (auto dest: register_syscall_safe(2) [OF assms(1,2)])
  then show "register_step registry cpi mem regs i pc c = Inr (n, stop, m, g, d) \<Longrightarrow> length g = 11"
    by (auto simp: register_step_def chargeRegisterInstruction_def rbind_eq_Inr)
qed

lemma run_register_calm:
  assumes calm: "registry_calm cpi registry" and ins: "\<forall>i \<in> set ins. in_range i"
    and len: "length regs = 11" and run: "run_register registry cpi ins pc mem regs c = Some r"
  shows "calm r"
proof -
  have "run_end registry cpi ins (\<lambda>_ _ regs _. length regs = 11) r"
  proof (rule run_register_invariant [OF run])
    show "length g = 11" if "length regs = 11" "unat pc < length ins"
      "register_step registry cpi mem regs (ins ! unat pc) pc c = Inr (n, False, m, g, d)"
      for pc mem regs c n m g d
      using register_step_safe(2) [OF calm that(1) _ that(3)] ins that(2) by simp
  qed (rule len)
  then show ?thesis
    using register_step_safe(1) [OF calm] ins by (fastforce simp: run_end_def calm_def)
qed

lemma executor_calm:
  assumes calm: "registry_calm cpi registry" and run: "BytecodeExecutor_Execute registry cpi program c = Some r"
    and verified: "VerifyProgram program registry = Inr u"
  shows "calm r"
proof (cases "pr_format program = programFormatRegister")
  case True
  then have ok: "verifyRegisterProgramWithManifest program registry = Inr u"
    using verified by (simp add: VerifyProgram_def programFormatLegacy_def programFormatRegister_def)
  then obtain ins where ins: "decodeRegisterInstructions (pr_code program) = Inr ins"
    by (auto simp: verifyRegisterProgramWithManifest_def result_simps)
  have "\<forall>i \<in> set ins. in_range i" using verified_in_range [OF ok ins] by blast
  moreover have "length initial_registers = 11" by (simp add: initial_registers_def)
  moreover have "run_register registry cpi ins 0
      (newRegisterMemory (pr_readonly program) (inv_data (cx_invocation c))) initial_registers c = Some r"
    using run True ok ins
    by (simp add: BytecodeExecutor_Execute_def executeRegisterProgram_def registerExecutor_Execute_def)
  ultimately show ?thesis by (rule run_register_calm [OF calm])
next
  case False
  then show ?thesis
    using run calm_execute_legacy [OF calm] by (auto simp: BytecodeExecutor_Execute_def split: if_splits)
qed

section \<open>Declared capabilities\<close>

text \<open>The registry without the system calls a manifest does not declare.\<close>

definition declared :: "ProgramManifest \<Rightarrow> 'w SyscallRegistry \<Rightarrow> 'w SyscallRegistry" where
  "declared m registry = filter (\<lambda>(i, s). i \<in> set (pm_syscalls m)) registry"

lemma map_of_declared: "map_of (declared m registry) i = (if i \<in> set (pm_syscalls m) then map_of registry i else None)"
  by (induction registry) (auto simp: declared_def)

lemma invoke_declared:
  "i \<in> set (pm_syscalls m) \<Longrightarrow> Registry_Invoke (declared m registry) cpi c i input = Registry_Invoke registry cpi c i input"
  by (simp add: Registry_Invoke_def map_of_declared)

lemma legacy_step_declared:
  assumes "verify_legacy_step program registry opcode code = Inr rest" and "pr_manifest program = Some m"
  shows "legacy_step (declared m registry) cpi opcode code c = legacy_step registry cpi opcode code c"
    and "legacy_step registry cpi opcode code c = Inr (rest', d) \<Longrightarrow> rest' = rest"
proof -
  have id: "get_le (take 4 code) \<in> set (pm_syscalls m)" if "opcode = OpSyscall"
    using assms that
    by (auto simp: verify_legacy_step_def op_codes verifyLegacySyscall_def readCodeUint32_def
        verifyProgramAllowsSyscall_def result_simps split: if_splits)
  then show "legacy_step (declared m registry) cpi opcode code c = legacy_step registry cpi opcode code c"
    by (simp add: legacy_step_def executeSyscall_def readCodeUint32_def invoke_declared op_codes)
  show "legacy_step registry cpi opcode code c = Inr (rest', d) \<Longrightarrow> rest' = rest"
    using assms(1)
    by (auto simp: legacy_step_def verify_legacy_step_def op_codes verifyLegacySyscall_def
        executeRequireSigner_def executeWriteInstructionData_def executeTransferLamports_def
        executeSyscall_def readCodeUint8_def readCodeUint32_def readCodeUint64_def
        readCodeFixedBytes_def result_simps split: if_splits list.splits)
qed

lemma execute_legacy_declared:
  assumes "verify_legacy program registry code = Inr u" and "pr_manifest program = Some m"
  shows "execute_legacy (declared m registry) cpi code c = execute_legacy registry cpi code c"
  using assms
proof (induction program registry code arbitrary: c rule: verify_legacy.induct)
  case (2 program registry opcode code)
  show ?case
  proof (cases "opcode = OpReturn")
    case False
    with "2.prems"(1) obtain rest where v: "verify_legacy_step program registry opcode code = Inr rest"
      and next_ok: "verify_legacy program registry rest = Inr u"
      by (auto split: sum.splits)
    note same = legacy_step_declared [OF v "2.prems"(2)]
    have "execute_legacy (declared m registry) cpi rest d = execute_legacy registry cpi rest d" for d
      using "2.IH" [OF False v next_ok "2.prems"(2)] .
    with False same show ?thesis
      by (auto simp: rbind_def split: sum.splits)
  qed simp
qed simp

lemma register_step_declared:
  assumes "ri_opcode i = RegOpSyscall \<longrightarrow> ucast (ri_imm i) \<in> set (pm_syscalls m)"
  shows "register_step (declared m registry) cpi mem regs i pc c = register_step registry cpi mem regs i pc c"
proof -
  have "executeRegisterInstruction (declared m registry) cpi mem regs i pc c =
      executeRegisterInstruction registry cpi mem regs i pc c" for c
  proof (cases "ri_opcode i = RegOpSyscall")
    case True
    with assms have id: "ucast (ri_imm i) \<in> set (pm_syscalls m)" by simp
    show ?thesis
      unfolding executeRegisterInstruction_def executeRegisterSyscall_def invoke_declared [OF id] ..
  next
    case False
    show ?thesis unfolding executeRegisterInstruction_def Let_def by (simp only: False if_False)
  qed
  then show ?thesis by (simp add: register_step_def)
qed

lemma run_register_cong:
  assumes same: "\<And>i mem regs pc c. i \<in> set ins \<Longrightarrow>
      register_step A cpi mem regs i pc c = register_step B cpi mem regs i pc c"
    and run: "run_register A cpi ins pc mem regs c = Some r"
  shows "run_register B cpi ins pc mem regs c = Some r"
proof -
  have "A' = A \<longrightarrow> cpi' = cpi \<longrightarrow> ins' = ins \<longrightarrow> run_register B cpi ins pc mem regs c = Some r"
    if "run_register A' cpi' ins' pc mem regs c = Some r" for A' cpi' ins' pc mem regs c r
    using that
  proof (rule run_register.raw_induct [rotated])
    fix rec A' cpi' ins' pc mem regs c r
    assume IH: "\<And>A' cpi' ins' pc mem regs c r. rec A' cpi' ins' pc mem regs c = Some r \<Longrightarrow>
        A' = A \<longrightarrow> cpi' = cpi \<longrightarrow> ins' = ins \<longrightarrow> run_register B cpi ins pc mem regs c = Some r"
      and now: "(if unat pc < length ins'
        then case register_step A' cpi' mem regs (ins' ! unat pc) pc c of Inl e \<Rightarrow> Some (Inl e)
             | Inr (n, stop, m, g, d) \<Rightarrow> if stop then Some (Inr d) else rec A' cpi' ins' n m g d
        else Some (Inl VExecutionFailed)) = Some r"
    show "A' = A \<longrightarrow> cpi' = cpi \<longrightarrow> ins' = ins \<longrightarrow> run_register B cpi ins pc mem regs c = Some r"
    proof (intro impI)
      assume eqs: "A' = A" "cpi' = cpi" "ins' = ins"
      show "run_register B cpi ins pc mem regs c = Some r"
        using now IH same [of "ins ! unat pc" mem regs pc c] unfolding eqs
        by (subst run_register.simps) (auto split: if_splits sum.splits)
    qed
  qed
  with run show ?thesis by blast
qed

lemma run_register_eq:
  assumes "\<And>i mem regs pc c. i \<in> set ins \<Longrightarrow>
      register_step A cpi mem regs i pc c = register_step B cpi mem regs i pc c"
  shows "run_register A cpi ins pc mem regs c = run_register B cpi ins pc mem regs c"
  using run_register_cong [of ins A cpi B] run_register_cong [of ins B cpi A] assms
  by (metis option.exhaust)

lemma verified_syscalls:
  assumes "verifyRegisterProgramWithManifest program registry = Inr u" and "pr_manifest program = Some m"
    and "decodeRegisterInstructions (pr_code program) = Inr ins" and "i \<in> set ins"
  shows "verifyRegisterInstruction i (length ins) registry = Inr ()"
    and "ri_opcode i = RegOpSyscall \<longrightarrow> ucast (ri_imm i) \<in> set (pm_syscalls m)"
proof -
  have ok: "verifyRegisterInstructionWithManifest program i (length ins) registry = Inr ()"
    using assms by (auto simp: verifyRegisterProgramWithManifest_def rforall_Inr result_simps split: if_splits)
  then show "verifyRegisterInstruction i (length ins) registry = Inr ()"
    by (auto simp: verifyRegisterInstructionWithManifest_def rbind_eq_Inr)
  from ok show "ri_opcode i = RegOpSyscall \<longrightarrow> ucast (ri_imm i) \<in> set (pm_syscalls m)"
    using assms(2)
    by (auto simp: verifyRegisterInstructionWithManifest_def verifyProgramAllowsSyscall_def rbind_eq_Inr
        split: if_splits)
qed

lemma verify_declared:
  assumes ok: "verifyRegisterProgramWithManifest program registry = Inr u" and m: "pr_manifest program = Some m"
  shows "verifyRegisterProgramWithManifest program (declared m registry) = Inr ()"
proof -
  obtain ins where ins: "decodeRegisterInstructions (pr_code program) = Inr ins"
    using ok by (auto simp: verifyRegisterProgramWithManifest_def result_simps)
  have "verifyRegisterInstructionWithManifest program i (length ins) (declared m registry) = Inr ()"
    if "i \<in> set ins" for i
    using verified_syscalls [OF ok m ins that] m
    by (auto simp: verifyRegisterInstructionWithManifest_def verifyRegisterInstruction_def Registry_Exists_def
        map_of_declared verifyProgramAllowsSyscall_def rbind_eq_Inr split: if_splits)
  then show ?thesis
    using ok ins by (auto simp: verifyRegisterProgramWithManifest_def rforall_Inr split: if_splits)
qed

lemma executor_declared:
  assumes ok: "VerifyProgram program registry = Inr u" and m: "pr_manifest program = Some m"
  shows "BytecodeExecutor_Execute (declared m registry) cpi program c = BytecodeExecutor_Execute registry cpi program c"
proof (cases "pr_format program = programFormatRegister")
  case True
  then have v: "verifyRegisterProgramWithManifest program registry = Inr u"
    using ok by (simp add: VerifyProgram_def programFormatLegacy_def programFormatRegister_def)
  then obtain ins where ins: "decodeRegisterInstructions (pr_code program) = Inr ins"
    by (auto simp: verifyRegisterProgramWithManifest_def result_simps)
  have "run_register (declared m registry) cpi ins pc mem regs c = run_register registry cpi ins pc mem regs c"
    for pc mem regs
    by (rule run_register_eq) (rule register_step_declared [OF verified_syscalls(2) [OF v m ins]])
  with True v verify_declared [OF v m] ins show ?thesis
    by (simp add: BytecodeExecutor_Execute_def executeRegisterProgram_def registerExecutor_Execute_def)
next
  case False
  then have "verify_legacy program registry (pr_code program) = Inr u"
    using ok by (auto simp: VerifyProgram_def verifyLegacyProgram_def split: if_splits)
  from execute_legacy_declared [OF this m] False show ?thesis
    by (simp add: BytecodeExecutor_Execute_def)
qed

section \<open>Memory\<close>

text \<open>\<open>base + offset\<close> in 64 bits, except for the least offset, which is added instead of subtracted.\<close>

lemma sint_neg_u32:
  fixes k :: u32
  assumes "k \<noteq> 0x80000000"
  shows "sint (- k) = - sint k"
proof -
  have ne: "sint k \<noteq> - (2 ^ 31)"
  proof
    assume "sint k = - (2 ^ 31)"
    then have "word_of_int (sint k) = (word_of_int (- (2 ^ 31)) :: u32)" by (rule arg_cong)
    then show False using assms by simp
  qed
  have rng: "- (2 ^ 31) \<le> sint k" "sint k < 2 ^ 31"
    using sint_ge [of k] sint_lt [of k] by simp_all
  have "signed_take_bit 31 (- sint k) = - sint k"
    using ne rng by (intro signed_take_bit_int_eq_self) auto
  moreover have "sint (word_of_int (- sint k) :: u32) = signed_take_bit 31 (- sint k)"
    by (simp only: sint_sbintrunc') simp
  moreover have "word_of_int (- sint k) = - k" by simp
  ultimately show ?thesis by simp
qed

lemma least_offset:
  "applySignedOffset base 0x80000000 = base + 0x80000000"
  "base + word_of_int (sint (0x80000000 :: u32)) \<noteq> (base + 0x80000000 :: u64)"
proof -
  have s: "sint (0x80000000 :: u32) = - 0x80000000" by simp
  have c: "scast (0x80000000 :: u32) = (0xFFFFFFFF80000000 :: u64)" by simp
  have n: "- (0x80000000 :: u32) = 0x80000000" by simp
  show "applySignedOffset base 0x80000000 = base + 0x80000000"
    unfolding applySignedOffset_def s n c by simp
  show "base + word_of_int (sint (0x80000000 :: u32)) \<noteq> (base + 0x80000000 :: u64)"
    unfolding s by simp
qed

definition memory_ok :: "registerMemory \<Rightarrow> bool" where
  "memory_ok mem \<longleftrightarrow> length (rm_readOnly mem) \<le> MaxReadOnlyDataSize \<and>
     length (rm_input mem) \<le> VmMaxInstructionDataSize \<and>
     length (rm_heap mem) = RegisterHeapSize \<and> length (rm_stack mem) = RegisterStackSize"

text \<open>An address that lies in one region is below or far beyond every other one.\<close>

lemma resolve_Some:
  "resolveMemoryRegion address len base region = Some offset \<longleftrightarrow>
     unat base \<le> unat address \<and> offset = unat address - unat base \<and> offset + len \<le> length region"
  by (auto simp: resolveMemoryRegion_def Let_def word_less_nat_alt unat_sub word_le_nat_alt)

lemma resolve_None:
  assumes "unat address < unat base \<or> unat base + length region < unat address"
  shows "resolveMemoryRegion address len base region = None"
  using assms by (auto simp: resolveMemoryRegion_def Let_def word_less_nat_alt unat_sub word_le_nat_alt)

lemma heap_address:
  assumes "memory_ok mem" and "unat RegisterMemoryBaseHeap \<le> unat address"
  shows "resolveMemoryRegion address len RegisterMemoryBaseReadOnly (rm_readOnly mem) = None"
    and "resolveMemoryRegion address len RegisterMemoryBaseInput (rm_input mem) = None"
  using assms
  by (auto intro!: resolve_None simp: memory_ok_def vm_limits RegisterMemoryBaseHeap_def
      RegisterMemoryBaseReadOnly_def RegisterMemoryBaseInput_def)

lemma store_load:
  assumes ok: "memory_ok mem" and st: "Memory_Write mem address data = Inr mem'" and ne: "data \<noteq> []"
  shows "Memory_Read mem' address (length data) = Inr data \<and> memory_ok mem' \<and>
    rm_readOnly mem' = rm_readOnly mem \<and> rm_input mem' = rm_input mem"
proof -
  have size: "length data \<le> RegisterMaxMemoryAccessSize" using st by (auto simp: Memory_Write_def split: if_splits)
  consider (heap) off where "resolveMemoryRegion address (length data) RegisterMemoryBaseHeap (rm_heap mem) = Some off"
      "mem' = mem\<lparr>rm_heap := overwrite (rm_heap mem) off data\<rparr>"
    | (stack) off where "resolveMemoryRegion address (length data) RegisterMemoryBaseHeap (rm_heap mem) = None"
      "resolveMemoryRegion address (length data) RegisterMemoryBaseStack (rm_stack mem) = Some off"
      "mem' = mem\<lparr>rm_stack := overwrite (rm_stack mem) off data\<rparr>"
    using st by (auto simp: Memory_Write_def split: if_splits option.splits)
  then show ?thesis
  proof cases
    case heap
    then have fit: "off + length data \<le> length (rm_heap mem)" and a: "unat RegisterMemoryBaseHeap \<le> unat address"
      and same: "resolveMemoryRegion address (length data) RegisterMemoryBaseHeap (overwrite (rm_heap mem) off data) = Some off"
      by (auto simp: resolve_Some)
    with heap_address [OF ok a] size ne ok show ?thesis
      by (simp add: heap(2) Memory_Read_def memory_region_def memory_ok_def overwrite_read_back)
  next
    case stack
    then have fit: "off + length data \<le> length (rm_stack mem)" and b: "unat RegisterMemoryBaseStack \<le> unat address"
      and same: "resolveMemoryRegion address (length data) RegisterMemoryBaseStack (overwrite (rm_stack mem) off data) = Some off"
      by (auto simp: resolve_Some)
    from b have a: "unat RegisterMemoryBaseHeap \<le> unat address"
      by (simp add: RegisterMemoryBaseStack_def RegisterMemoryBaseHeap_def)
    from heap_address [OF ok a] stack fit same size ne ok show ?thesis
      by (simp add: Memory_Read_def memory_region_def memory_ok_def overwrite_read_back)
  qed
qed

end
