(* ===== verification/Vm_Properties.thy ===== *)
theory Vm_Properties
  imports Vm_Safety
begin

text \<open>The properties of a call of the virtual machine as a whole, with a legacy program as witness.\<close>

section \<open>Loading and verifying\<close>

lemma calm_ifI: "(b \<Longrightarrow> calm r) \<Longrightarrow> (\<not> b \<Longrightarrow> calm q) \<Longrightarrow> calm (if b then r else q)"
  by simp

lemma calm_unique_syscalls: "calm (unique_syscalls seen ids)"
proof (induction ids arbitrary: seen)
  case (Cons i ids)
  then show ?case unfolding unique_syscalls.simps by (intro calm_ifI calm_rbind) simp_all
qed simp

lemma calm_loaders:
  "calm (normalizeProgramManifest m)" "calm (loadLegacyProgram v data)" "calm (loadManifestProgram v data)"
  "calm (loadRegisterProgram v data)"
proof -
  show norm: "calm (normalizeProgramManifest m)" for m
    unfolding normalizeProgramManifest_def by (intro calm_ifI calm_rbind) (simp_all add: calm_unique_syscalls)
  show "calm (loadLegacyProgram v data)" "calm (loadRegisterProgram v data)"
    unfolding loadLegacyProgram_def loadRegisterProgram_def Let_def by (intro calm_ifI calm_simps; simp)+
  show "calm (loadManifestProgram v data)"
    unfolding loadManifestProgram_def Let_def by (intro calm_ifI calm_rbind norm) simp_all
qed

lemma calm_Load: "calm (Load a l)"
  unfolding Load_def Let_def
  by (intro calm_ifI; auto split: option.splits intro!: calm_rbind calm_loaders)

lemma calm_verify_legacy: "calm (verify_legacy program registry code)"
proof (induction program registry code rule: verify_legacy.induct)
  case (2 program registry opcode code)
  have "calm (verify_legacy_step program registry opcode code)"
    unfolding verify_legacy_step_def
    by (intro calm_ifI calm_rbind; auto simp: verifyLegacyBytesAvailable_def verifyLegacySyscall_def
        readCodeUint32_def verifyProgramAllowsSyscall_def calm_rbind_iff split: option.splits)
  with 2 show ?case by (auto split: sum.splits)
qed simp

lemma calm_rforall: "(\<And>x. calm (f x)) \<Longrightarrow> calm (rforall f xs)"
  by (induction xs) (auto intro!: calm_rbind)

lemma calm_VerifyProgram: "calm (VerifyProgram program registry)"
proof -
  have "calm (verifyRegisterInstructionWithManifest program i n registry)" for i n
    unfolding verifyRegisterInstructionWithManifest_def verifyRegisterInstruction_def verifyRegisterIndexes_def
      verifyProgramAllowsSyscall_def
    by (intro calm_ifI calm_rbind; simp split: option.split)
  then show ?thesis
    unfolding VerifyProgram_def verifyLegacyProgram_def verifyRegisterProgramWithManifest_def
    by (intro calm_ifI calm_rbind calm_rforall calm_wrap calm_verify_legacy)
      (simp_all add: decodeRegisterInstructions_def)
qed

section \<open>A call\<close>

lemma Runtime_Execute_cases:
  assumes "Runtime_Execute verify rt call w = Some r"
  obtains (refused) e where "r = Inl e" and "\<not> panics e"
  | (ran) program q where "Load (inv_program_account call) (rt_loader_id rt) = Inr program"
      and "VerifyProgram program (rt_syscalls (Runtime_normalize verify rt)) = Inr ()"
      and "BytecodeExecutor_Execute (rt_syscalls (Runtime_normalize verify rt)) (rt_cpi rt) program
             (new_context (Runtime_normalize verify rt) call program w) = Some q"
      and "r = rbind q (\<lambda>c. Inr (context_result c))"
proof -
  have same: "rt_loader_id (Runtime_normalize verify rt) = rt_loader_id rt"
    "rt_cpi (Runtime_normalize verify rt) = rt_cpi rt" by (simp_all add: Runtime_normalize_def)
  note L = calm_Load [of "inv_program_account call" "rt_loader_id rt"]
  show thesis
  proof (cases "inv_program call = 0 \<or> VmMaxInstructionDataSize < length (inv_data call)")
    case True
    then have "r = Inl VInvalidProgram \<or> r = Inl VExecutionFailed"
      using assms by (auto simp: Runtime_Execute_def Let_def split: if_splits)
    then show ?thesis using refused by auto
  next
    case False
    show ?thesis
    proof (cases "Load (inv_program_account call) (rt_loader_id rt)")
      case (Inl e)
      with assms False L show ?thesis by (intro refused [of e]) (simp_all add: Runtime_Execute_def same)
    next
      case (Inr program)
      note V = calm_VerifyProgram [of program "rt_syscalls (Runtime_normalize verify rt)"]
      show ?thesis
      proof (cases "VerifyProgram program (rt_syscalls (Runtime_normalize verify rt))")
        case (Inl e)
        with assms False Inr V show ?thesis
          by (intro refused [of e]) (simp_all add: Runtime_Execute_def same)
      next
        case (Inr u)
        with assms False \<open>Load _ _ = Inr program\<close> show ?thesis
          by (auto simp: Runtime_Execute_def same Let_def intro: ran)
      qed
    qed
  qed
qed

lemma new_context_simps [simp]:
  "cx_accounts (new_context rt call program w) = NewAccountSet (inv_program call) (inv_accounts call) (rt_max_increase rt)"
  "meter_ok (cx_meter (new_context rt call program w))"
  by (simp_all add: new_context_def)

lemma effective_limit: "effectiveComputeLimit a b program \<noteq> 0"
  by (auto simp: effectiveComputeLimit_def vm_limits Let_def split: option.splits)

lemma new_context_limit [simp]:
  "cm_limit (cx_meter (new_context rt call program w)) = effectiveComputeLimit (inv_limit call) (rt_limit rt) program"
  by (simp add: new_context_def NewComputeMeter_def effective_limit)

lemma normalize_default [simp]:
  assumes "rt_syscalls rt = DefaultSyscallRegistry verify"
  shows "rt_syscalls (Runtime_normalize verify rt) = DefaultSyscallRegistry verify"
  using assms by (simp add: Runtime_normalize_def)

section \<open>A legacy program that moves lamports\<close>

definition demo_code :: bytes where
  "demo_code = BuildProgramCode [BuildTransferLamportsOp 0 1 100]"

definition demo_program :: Program where
  "demo_program = \<lparr>pr_version = 1, pr_format = programFormatLegacy, pr_code = demo_code,
     pr_readonly = [], pr_manifest = None\<rparr>"

definition demo_data :: bytes where
  "demo_data = bytecodeHeader @ put_le 2 BytecodeVersion @ put_le 4 (of_nat (length demo_code) :: u32) @ demo_code"

definition demo_invocation :: Invocation where
  "demo_invocation =
     \<lparr>inv_program = 7, inv_program_account = program_account 3 demo_data,
      inv_accounts = [demo_account 1 7 500 [], demo_account 2 8 10 []], inv_data = [], inv_slot = 4,
      inv_limit = 0,
      inv_sysvars = \<lparr>sv_clock = \<lparr>clock_slot = 0, clock_time = 0\<rparr>,
        sv_rent = \<lparr>rent_per_byte_year = 0, rent_years = 0, rent_overhead = 0\<rparr>\<rparr>\<rparr>"

definition no_proofs :: schnorr_verifier where "no_proofs p m d = False"

abbreviation demo_runtime :: "unit Runtime" where "demo_runtime \<equiv> NewRuntime no_proofs 3"

lemma demo_code_eq: "demo_code = [3, 0, 1, 100, 0, 0, 0, 0, 0, 0, 0, 0]"
  by (simp add: demo_code_def BuildProgramCode_def BuildTransferLamportsOp_def op_codes put_le_def)

lemma demo_loads: "Load (program_account 3 demo_data) 3 = Inr demo_program"
proof -
  have enc: "EncodeBytecode demo_code = Inr demo_data"
    by (simp add: EncodeBytecode_def demo_data_def demo_code_eq vm_limits)
  have "length demo_data \<le> MaxProgramDataSize" by (simp add: demo_data_def demo_code_eq vm_limits)
  from Load_envelope [of "put_le 4 (of_nat (length demo_code) :: u32) @ demo_code" 3, folded demo_data_def, OF this]
  show ?thesis by (simp add: load_formats_def legacy_loads [OF enc] demo_program_def)
qed

lemma demo_result:
  "\<exists>res. Runtime_Execute no_proofs demo_runtime demo_invocation () = Some (Inr (res, ())) \<and>
     res_accounts res = [demo_account 1 7 400 [], demo_account 2 8 110 []] \<and> res_units res = 45"
proof -
  have nz: "Runtime_normalize no_proofs demo_runtime = demo_runtime"
    by (simp add: Runtime_normalize_def NewRuntime_def Registry_IsZero_def default_registry default_syscalls_def vm_limits)
  have "VerifyProgram demo_program (DefaultSyscallRegistry no_proofs :: unit SyscallRegistry) = Inr ()"
    by (simp add: VerifyProgram_def verifyLegacyProgram_def demo_program_def demo_code_eq op_codes
        verify_legacy_step_def verifyLegacyBytesAvailable_def)
  moreover have "\<exists>c. BytecodeExecutor_Execute (DefaultSyscallRegistry no_proofs) None demo_program
      (new_context demo_runtime demo_invocation demo_program ()) = Some (Inr c) \<and>
      as_accounts (cx_accounts c) = [demo_account 1 7 400 [], demo_account 2 8 110 []] \<and>
      cm_consumed (cx_meter c) = 45"
    by (simp add: BytecodeExecutor_Execute_def demo_program_def demo_code_eq programFormatLegacy_def
        programFormatRegister_def new_context_def effectiveComputeLimit_def NewComputeMeter_def NewRuntime_def
        demo_invocation_def NewAccountSet_def consume_def Consume_def baseInstructionCost_def transferCost_def
        op_codes legacy_step_def executeTransferLamports_def readCodeUint8_def readCodeUint64_def get_le_def
        Vm_TransferLamports_def mutableAccount_def demo_account_def store_account_def vm_limits)
  moreover have "inv_program demo_invocation = 7" "inv_data demo_invocation = []"
      "inv_program_account demo_invocation = program_account 3 demo_data"
    by (simp_all add: demo_invocation_def)
  moreover have "rt_syscalls demo_runtime = DefaultSyscallRegistry no_proofs" "rt_cpi demo_runtime = None"
      "rt_loader_id demo_runtime = 3"
    by (simp_all add: NewRuntime_def)
  ultimately show ?thesis
    by (auto simp: Runtime_Execute_def nz demo_loads context_result_def)
qed

section \<open>Properties\<close>







text \<open>
  C15: The manifest of a governed program bounds what it can reach: a verified program runs the
  same, step for step and to the same result, when every system call it does not declare is
  removed from the registry.
\<close>

theorem undeclared_syscalls_unreachable:
  assumes "VerifyProgram program registry = Inr ()" and "pr_manifest program = Some m"
  shows "BytecodeExecutor_Execute (declared m registry) cpi program c =
         BytecodeExecutor_Execute registry cpi program c"
  by (rule executor_declared [OF assms])

definition governed_program :: Program where
  "governed_program = demo_program\<lparr>pr_code := BuildProgramCode [BuildSyscallOp 1 [65]],
     pr_manifest := Some \<lparr>pm_limit = 0, pm_authority = 0, pm_syscalls = [1]\<rparr>\<rparr>"

lemma undeclared_syscalls_unreachable_witness:
  "\<forall>c. BytecodeExecutor_Execute (declared \<lparr>pm_limit = 0, pm_authority = 0, pm_syscalls = [1]\<rparr>
         (DefaultSyscallRegistry no_proofs :: unit SyscallRegistry)) None governed_program c =
       BytecodeExecutor_Execute (DefaultSyscallRegistry no_proofs) None governed_program c"
proof -
  have g: "governed_program = \<lparr>pr_version = 1, pr_format = 0, pr_code = [4, 1, 0, 0, 0, 1, 0, 0, 0, 65, 0],
     pr_readonly = [], pr_manifest = Some \<lparr>pm_limit = 0, pm_authority = 0, pm_syscalls = [1]\<rparr>\<rparr>"
    by (simp add: governed_program_def demo_program_def programFormatLegacy_def BuildProgramCode_def
        BuildSyscallOp_def op_codes put_le_def)
  have e: "Registry_Exists (DefaultSyscallRegistry no_proofs :: unit SyscallRegistry) 1"
    by (simp add: Registry_Exists_def default_registry default_syscalls_def)
  have "VerifyProgram governed_program (DefaultSyscallRegistry no_proofs :: unit SyscallRegistry) = Inr ()"
    by (simp add: g e VerifyProgram_def verifyLegacyProgram_def op_codes verify_legacy_step_def
        verifyLegacySyscall_def verifyLegacyBytesAvailable_def readCodeUint32_def get_le_def vm_limits
        verifyProgramAllowsSyscall_def programFormatLegacy_def)
  moreover have "pr_manifest governed_program = Some \<lparr>pm_limit = 0, pm_authority = 0, pm_syscalls = [1]\<rparr>"
    by (simp add: governed_program_def)
  ultimately show ?thesis using undeclared_syscalls_unreachable by blast
qed

text \<open>
  C40: The effective address of a load or store is the base plus the signed offset, in 64 bits,
  for every offset but the least one: that one is added where it should be subtracted.
\<close>

theorem signed_offset_exact:
  "applySignedOffset base offset = base + word_of_int (sint offset) \<longleftrightarrow> offset \<noteq> 0x80000000"
proof (cases "offset = 0x80000000")
  case True
  then show ?thesis using least_offset [of base] by simp
next
  case False
  have cast: "scast k = (word_of_int (sint k) :: u64)" for k :: u32 by simp
  show ?thesis
    using False unfolding applySignedOffset_def cast sint_neg_u32 [OF False] by simp
qed

text \<open>
  What register code stores it loads back from the same address, and neither the read-only
  data nor the input of the call can be written.
\<close>

theorem register_store_load:
  assumes "memory_ok mem" and "Memory_WriteUint64 mem base offset v = Inr mem'"
  shows "Memory_ReadUint64 mem' base offset = Inr v \<and> memory_ok mem' \<and>
    rm_readOnly mem' = rm_readOnly mem \<and> rm_input mem' = rm_input mem"
proof -
  have ne: "put_le 8 v \<noteq> []" by (simp flip: length_0_conv)
  from store_load [OF assms(1) assms(2) [unfolded Memory_WriteUint64_def] ne]
  show ?thesis by (simp add: Memory_ReadUint64_def)
qed

lemma register_store_load_witness:
  "\<exists>mem'. Memory_WriteUint64 (newRegisterMemory [] []) RegisterMemoryBaseHeap 8 77 = Inr mem' \<and>
     Memory_ReadUint64 mem' RegisterMemoryBaseHeap 8 = Inr 77"
proof -
  have "memory_ok (newRegisterMemory [] [])" by (simp add: memory_ok_def newRegisterMemory_def)
  moreover obtain mem' where "Memory_WriteUint64 (newRegisterMemory [] []) RegisterMemoryBaseHeap 8 77 = Inr mem'"
    by (simp add: Memory_WriteUint64_def Memory_Write_def applySignedOffset_def newRegisterMemory_def
        resolveMemoryRegion_def RegisterMemoryBaseHeap_def vm_limits)
  ultimately show ?thesis using register_store_load by blast
qed

end
