(* ===== verification/Votes.thy ===== *)
theory Votes
  imports Structure_Base
begin

text \<open>
  The first half of \<open>consensus/slot.go\<close> and the errors of the package \<open>consensus\<close>: votes, the
  stake a quorum requires, quorum certificates, and the binary formats of votes and
  certificates. The collector that turns votes into certificates is in \<open>Vote_Collector\<close>.
\<close>

section \<open>Model\<close>

text \<open>
  The sentinels of \<open>consensus/errors.go\<close>, with the text that \<open>fmt.Errorf\<close> puts around them. An
  error of another package that is passed on with a text is \<open>CBorsh\<close> or \<open>CStructure\<close>; one of
  the signature library, or a text with no sentinel, is \<open>CText\<close>.
\<close>

datatype consensus_error =
    ErrInvalidQuorum string | ErrInvalidVote string | ErrInvalidCertificate string
  | ErrDuplicateVote | ErrConflictingVote | ErrUnknownValidator gostring
  | CBorsh string borsh_error | CStructure string structure_error | CText string

type_synonym vote_type = u8

definition VoteTypeConfirm :: vote_type where
  "VoteTypeConfirm = 1"

definition VoteTypeSkip :: vote_type where
  "VoteTypeSkip = 2"

definition VoteTypePrepare :: vote_type where
  "VoteTypePrepare = 3"

text \<open>
  A validator makes one choice per slot and phase: preparing a block is one phase, and deciding
  between a block and a timeout is the other.
\<close>

type_synonym vote_phase = u8

definition votePhasePrepare :: vote_phase where
  "votePhasePrepare = 1"

definition votePhaseDecision :: vote_phase where
  "votePhaseDecision = 2"

definition votePhaseForChoice :: "vote_type \<Rightarrow> vote_phase" where
  "votePhaseForChoice voteType =
     (if voteType = VoteTypePrepare then votePhasePrepare else votePhaseDecision)"

definition ConsensusCodecVersion :: u16 where
  "ConsensusCodecVersion = 1"

definition maxConsensusTextLength :: nat where
  "maxConsensusTextLength = 128"

definition maxCertificateVoters :: nat where
  "maxCertificateVoters = 2048"

definition maxConsensusContainerLength :: nat where
  "maxConsensusContainerLength = 64 * 1024"

definition BLSSignatureSchemeBasic :: gostring where
  "BLSSignatureSchemeBasic = ascii ''bls12-381-basic-g2sigg1''"

text \<open>The time of creation is an \<open>int64\<close>, carried as the word of its two's complement.\<close>

record Vote =
  v_type :: vote_type
  v_slot :: u64
  v_height :: u64
  v_hash :: hash
  v_voter :: gostring
  v_stake :: u64
  v_created :: u64

definition Vote_Validate :: "Vote \<Rightarrow> consensus_error + unit" where
  "Vote_Validate vote =
     (if v_type vote \<noteq> VoteTypeConfirm \<and> v_type vote \<noteq> VoteTypeSkip \<and> v_type vote \<noteq> VoteTypePrepare
      then Inl (ErrInvalidVote ''unknown vote type'')
      else if blank (v_voter vote) \<or> maxConsensusTextLength < length (v_voter vote)
      then Inl (ErrInvalidVote ''invalid voter id'')
      else if v_stake vote = 0 then Inl (ErrInvalidVote ''stake must be positive'')
      else if sint (v_created vote) \<le> 0 then Inl (ErrInvalidVote ''created_at must be positive'')
      else if (v_type vote = VoteTypePrepare \<or> v_type vote = VoteTypeConfirm) \<and> v_hash vote = 0
      then Inl (ErrInvalidVote ''block vote requires block hash'')
      else if (v_type vote = VoteTypePrepare \<or> v_type vote = VoteTypeConfirm) \<and> v_height vote = 0
      then Inl (ErrInvalidVote ''block vote requires block height'')
      else if v_type vote = VoteTypeSkip \<and> v_hash vote = 0
      then Inl (ErrInvalidVote ''skip vote requires parent block hash'')
      else if v_type vote = VoteTypeSkip \<and> v_height vote = 0
      then Inl (ErrInvalidVote ''skip vote requires target block height'')
      else Inr ())"

definition Vote_MarshalBinary :: "Vote \<Rightarrow> consensus_error + bytes" where
  "Vote_MarshalBinary vote =
     rbind (Vote_Validate vote) (\<lambda>_.
       let w = NewWriter (int maxConsensusContainerLength);
           w = WriteUint16 ConsensusCodecVersion w;
           w = WriteUint8 (v_type vote) w;
           w = WriteUint64 (v_slot vote) w;
           w = WriteUint64 (v_height vote) w;
           w = WriteFixedBytes (key_bytes (v_hash vote)) w
       in rbind (wrap_err (CBorsh ''marshal voter id'') (WriteString (v_voter vote) w)) (\<lambda>w.
         let w = WriteUint64 (v_stake vote) w;
             w = WriteInt64 (v_created vote) w
         in Inr (w_buffer w)))"

definition UnmarshalVoteBinary :: "bytes \<Rightarrow> consensus_error + Vote" where
  "UnmarshalVoteBinary data =
     rbind (wrap_err (CBorsh ''unmarshal vote version'')
        (ReadUint16 (NewReader data (int maxConsensusContainerLength)))) (\<lambda>(version, r).
     if version \<noteq> ConsensusCodecVersion then Inl (ErrInvalidVote ''unsupported vote version'')
     else
     rbind (wrap_err (CBorsh ''unmarshal vote type'') (ReadUint8 r)) (\<lambda>(voteType, r).
     rbind (wrap_err (CBorsh ''unmarshal vote slot'') (ReadUint64 r)) (\<lambda>(slot, r).
     rbind (wrap_err (CBorsh ''unmarshal vote block height'') (ReadUint64 r)) (\<lambda>(blockHeight, r).
     rbind (wrap_err (CBorsh ''unmarshal vote block hash'') (ReadFixedBytes HashSize r)) (\<lambda>(hashBytes, r).
     rbind (wrap_err (CBorsh ''unmarshal voter id'') (ReadString r)) (\<lambda>(voterID, r).
     rbind (wrap_err (CBorsh ''unmarshal vote stake'') (ReadUint64 r)) (\<lambda>(stake, r).
     rbind (wrap_err (CBorsh ''unmarshal vote created_at'') (ReadInt64 r)) (\<lambda>(created, r).
     rbind (wrap_err (CBorsh ''unmarshal vote eof'') (EnsureEOF r)) (\<lambda>_.
     rbind (wrap_err (CStructure ''build vote block hash'') (NewHash hashBytes)) (\<lambda>blockHash.
       let vote = \<lparr>v_type = voteType, v_slot = slot, v_height = blockHeight, v_hash = blockHash,
                   v_voter = voterID, v_stake = stake, v_created = created\<rparr>
       in rbind (Vote_Validate vote) (\<lambda>_. Inr vote)))))))))))"

subsection \<open>Quorums\<close>

record Quorum =
  q_numerator :: u64
  q_denominator :: u64
  q_strict :: bool

definition RequiredStake :: "Quorum \<Rightarrow> u64 \<Rightarrow> consensus_error + u64" where
  "RequiredStake quorum totalStake =
     (if q_numerator quorum = 0 \<or> q_denominator quorum = 0 then Inl (ErrInvalidQuorum ''zero value'')
      else if q_denominator quorum < q_numerator quorum
      then Inl (ErrInvalidQuorum ''numerator exceeds denominator'')
      else if totalStake = 0 then Inl (ErrInvalidQuorum ''total stake is zero'')
      else if (- 1 - q_denominator quorum + 1) div q_numerator quorum < totalStake
      then Inl (ErrInvalidQuorum ''stake overflow'')
      else if q_strict quorum
      then Inr (totalStake * q_numerator quorum div q_denominator quorum + 1)
      else Inr ((totalStake * q_numerator quorum + q_denominator quorum - 1) div q_denominator quorum))"

subsection \<open>Certificates\<close>

record QuorumCertificate =
  qc_type :: vote_type
  qc_slot :: u64
  qc_height :: u64
  qc_hash :: hash
  qc_threshold :: u64
  qc_confirmed :: u64
  qc_voters :: "gostring list"
  qc_created :: u64
  qc_scheme :: gostring
  qc_aggregate :: bytes
  qc_bitmap :: bytes

definition validateAggregateFields :: "QuorumCertificate \<Rightarrow> consensus_error + unit" where
  "validateAggregateFields c =
     (let hasAggregate = qc_scheme c \<noteq> [] \<or> 0 < length (qc_aggregate c) \<or> 0 < length (qc_bitmap c)
      in if \<not> hasAggregate then Inr ()
         else if qc_scheme c \<noteq> BLSSignatureSchemeBasic
         then Inl (ErrInvalidCertificate ''unsupported aggregate signature scheme'')
         else if length (qc_aggregate c) = 0
         then Inl (ErrInvalidCertificate ''missing aggregate signature'')
         else if length (qc_bitmap c) = 0 then Inl (ErrInvalidCertificate ''missing voter bitmap'')
         else Inr ())"

text \<open>The loop over the voters: \<open>prev\<close> is the previous identifier, and \<open>None\<close> at index 0.\<close>

fun validate_voters :: "gostring option \<Rightarrow> gostring set \<Rightarrow> gostring list \<Rightarrow> consensus_error + unit" where
  "validate_voters prev seen [] = Inr ()"
| "validate_voters prev seen (v # vs) =
     (if blank v \<or> maxConsensusTextLength < length v
      then Inl (ErrInvalidCertificate ''invalid voter id'')
      else if prev \<noteq> None \<and> v \<le> the prev
      then Inl (ErrInvalidCertificate ''voters must be sorted and unique'')
      else if v \<in> seen then Inl (ErrInvalidCertificate ''duplicate voter id'')
      else validate_voters (Some v) (insert v seen) vs)"

definition validateVoterList :: "gostring list \<Rightarrow> consensus_error + unit" where
  "validateVoterList voters = validate_voters None {} voters"

definition Certificate_Validate :: "QuorumCertificate \<Rightarrow> consensus_error + unit" where
  "Certificate_Validate c =
     (if qc_type c \<noteq> VoteTypeConfirm \<and> qc_type c \<noteq> VoteTypeSkip \<and> qc_type c \<noteq> VoteTypePrepare
      then Inl (ErrInvalidCertificate ''unknown certificate type'')
      else if (qc_type c = VoteTypePrepare \<or> qc_type c = VoteTypeConfirm) \<and> qc_hash c = 0
      then Inl (ErrInvalidCertificate ''block certificate requires block hash'')
      else if (qc_type c = VoteTypePrepare \<or> qc_type c = VoteTypeConfirm) \<and> qc_height c = 0
      then Inl (ErrInvalidCertificate ''block certificate requires block height'')
      else if qc_type c = VoteTypeSkip \<and> qc_hash c = 0
      then Inl (ErrInvalidCertificate ''skip certificate requires parent block hash'')
      else if qc_type c = VoteTypeSkip \<and> qc_height c = 0
      then Inl (ErrInvalidCertificate ''skip certificate requires target block height'')
      else if qc_threshold c = 0 \<or> qc_confirmed c < qc_threshold c
      then Inl (ErrInvalidCertificate ''insufficient stake'')
      else if length (qc_voters c) = 0 \<or> maxCertificateVoters < length (qc_voters c)
      then Inl (ErrInvalidCertificate ''invalid voters'')
      else if sint (qc_created c) \<le> 0
      then Inl (ErrInvalidCertificate ''created_at must be positive'')
      else rbind (validateAggregateFields c) (\<lambda>_. validateVoterList (qc_voters c)))"

fun write_voters :: "gostring list \<Rightarrow> writer \<Rightarrow> consensus_error + writer" where
  "write_voters [] w = Inr w"
| "write_voters (v # vs) w =
     rbind (wrap_err (CBorsh ''marshal qc voter id'') (WriteString v w)) (write_voters vs)"

definition Certificate_MarshalBinary :: "QuorumCertificate \<Rightarrow> consensus_error + bytes" where
  "Certificate_MarshalBinary c =
     rbind (Certificate_Validate c) (\<lambda>_.
       let w = NewWriter (int maxConsensusContainerLength);
           w = WriteUint16 ConsensusCodecVersion w;
           w = WriteUint8 (qc_type c) w;
           w = WriteUint64 (qc_slot c) w;
           w = WriteUint64 (qc_height c) w;
           w = WriteFixedBytes (key_bytes (qc_hash c)) w;
           w = WriteUint64 (qc_threshold c) w;
           w = WriteUint64 (qc_confirmed c) w;
           w = WriteInt64 (qc_created c) w;
           w = WriteUint32 (of_nat (length (qc_voters c))) w
       in rbind (write_voters (qc_voters c) w) (\<lambda>w.
          rbind (wrap_err (CBorsh ''marshal qc signature scheme'') (WriteString (qc_scheme c) w)) (\<lambda>w.
          rbind (wrap_err (CBorsh ''marshal qc aggregate signature'') (WriteBytes (qc_aggregate c) w)) (\<lambda>w.
          rbind (wrap_err (CBorsh ''marshal qc voter bitmap'') (WriteBytes (qc_bitmap c) w)) (\<lambda>w.
            Inr (w_buffer w))))))"

fun read_voter_ids :: "nat \<Rightarrow> reader \<Rightarrow> consensus_error + gostring list \<times> reader" where
  "read_voter_ids 0 r = Inr ([], r)"
| "read_voter_ids (Suc n) r =
     rbind (wrap_err (CBorsh ''unmarshal qc voter'') (ReadString r)) (\<lambda>(v, r).
     rbind (read_voter_ids n r) (\<lambda>(vs, r). Inr (v # vs, r)))"

definition readVoters :: "reader \<Rightarrow> consensus_error + gostring list \<times> reader" where
  "readVoters r =
     rbind (wrap_err (CBorsh ''unmarshal qc voter count'') (ReadUint32 r)) (\<lambda>(voterCount, r).
       if voterCount = 0 \<or> of_nat maxCertificateVoters < voterCount
       then Inl (ErrInvalidCertificate ''invalid voter count'')
       else read_voter_ids (unat voterCount) r)"

definition readCertificateFields :: "reader \<Rightarrow> consensus_error + QuorumCertificate \<times> reader" where
  "readCertificateFields r =
     rbind (wrap_err (CBorsh ''unmarshal qc type'') (ReadUint8 r)) (\<lambda>(certificateType, r).
     rbind (wrap_err (CBorsh ''unmarshal qc slot'') (ReadUint64 r)) (\<lambda>(slot, r).
     rbind (wrap_err (CBorsh ''unmarshal qc block height'') (ReadUint64 r)) (\<lambda>(blockHeight, r).
     rbind (wrap_err (CBorsh ''unmarshal qc block hash'') (ReadFixedBytes HashSize r)) (\<lambda>(hashBytes, r).
     rbind (wrap_err (CBorsh ''unmarshal qc threshold'') (ReadUint64 r)) (\<lambda>(thresholdStake, r).
     rbind (wrap_err (CBorsh ''unmarshal qc stake'') (ReadUint64 r)) (\<lambda>(confirmedStake, r).
     rbind (wrap_err (CBorsh ''unmarshal qc created_at'') (ReadInt64 r)) (\<lambda>(created, r).
     rbind (readVoters r) (\<lambda>(voters, r).
     rbind (wrap_err (CStructure ''build qc block hash'') (NewHash hashBytes)) (\<lambda>blockHash.
       Inr (\<lparr>qc_type = certificateType, qc_slot = slot, qc_height = blockHeight,
             qc_hash = blockHash, qc_threshold = thresholdStake, qc_confirmed = confirmedStake,
             qc_voters = voters, qc_created = created, qc_scheme = [], qc_aggregate = [],
             qc_bitmap = []\<rparr>, r))))))))))"

definition UnmarshalCertificateBinary :: "bytes \<Rightarrow> consensus_error + QuorumCertificate" where
  "UnmarshalCertificateBinary data =
     rbind (wrap_err (CBorsh ''unmarshal qc version'')
        (ReadUint16 (NewReader data (int maxConsensusContainerLength)))) (\<lambda>(version, r).
     if version \<noteq> ConsensusCodecVersion then Inl (ErrInvalidCertificate ''unsupported qc version'')
     else rbind (readCertificateFields r) (\<lambda>(c, r).
     if Remaining r = 0 then rbind (Certificate_Validate c) (\<lambda>_. Inr c)
     else
     rbind (wrap_err (CBorsh ''unmarshal qc signature scheme'') (ReadString r)) (\<lambda>(scheme, r).
     rbind (wrap_err (CBorsh ''unmarshal qc aggregate signature'') (ReadBytes r)) (\<lambda>(aggregate, r).
     rbind (wrap_err (CBorsh ''unmarshal qc voter bitmap'') (ReadBytes r)) (\<lambda>(bitmap, r).
     rbind (wrap_err (CBorsh ''unmarshal qc eof'') (EnsureEOF r)) (\<lambda>_.
       let c = c\<lparr>qc_scheme := scheme, qc_aggregate := aggregate, qc_bitmap := bitmap\<rparr>
       in rbind (Certificate_Validate c) (\<lambda>_. Inr c)))))))"

section \<open>The vote format\<close>

definition vote_layout :: "Vote \<Rightarrow> bytes" where
  "vote_layout v =
     put_le 2 ConsensusCodecVersion @ [v_type v] @ put_le 8 (v_slot v) @ put_le 8 (v_height v) @
     key_bytes (v_hash v) @ enc_bytes (v_voter v) @ put_le 8 (v_stake v) @ put_le 8 (v_created v)"

lemma consensus_max: "normalizeMaxContainerLength (int maxConsensusContainerLength) = 65536"
  by (simp add: normalizeMax_pos maxConsensusContainerLength_def)

lemmas consensus_writer =
  WriteUint8_def WriteUint16_def WriteUint32_def WriteUint64_def WriteInt64_def WriteFixedBytes_def
  NewWriter_def consensus_max

lemma Vote_Validate_voter: "Vote_Validate v = Inr u \<Longrightarrow> length (v_voter v) \<le> 128"
  by (auto simp: Vote_Validate_def maxConsensusTextLength_def split: if_splits)

lemma Vote_MarshalBinary_Inr:
  "Vote_MarshalBinary v = Inr bs \<longleftrightarrow>
     Vote_Validate v = Inr () \<and> utf8_valid (v_voter v) \<and> bs = vote_layout v"
  by (auto simp: Vote_MarshalBinary_def Let_def result_simps WriteString_Inr consensus_writer
      vote_layout_def dest: Vote_Validate_voter)

lemma UnmarshalVote_layout:
  assumes "Vote_Validate v = Inr ()" and "utf8_valid (v_voter v)"
  shows "UnmarshalVoteBinary (vote_layout v) = Inr v"
  using Vote_Validate_voter [OF assms(1)] assms
  by (cases v) (simp add: UnmarshalVoteBinary_def NewReader_def consensus_max vote_layout_def Let_def
      ReadInt64_def ReadUint8_def codec_simps HashSize_def)

lemma UnmarshalVote_Inr:
  assumes "UnmarshalVoteBinary bs = Inr v"
  shows "bs = vote_layout v \<and> Vote_Validate v = Inr () \<and> utf8_valid (v_voter v)"
  using assms
  by (auto simp: UnmarshalVoteBinary_def NewReader_def Let_def result_simps NewHash_Inr ReadInt64_def
      vote_layout_def dest!: borsh_consumes)

interpretation vote_message: message_codec "\<lambda>_. True" Vote_MarshalBinary UnmarshalVoteBinary
  by unfold_locales
    (auto simp: Vote_MarshalBinary_Inr UnmarshalVote_layout dest: UnmarshalVote_Inr)

section \<open>The certificate format\<close>

definition certificate_fields :: "QuorumCertificate \<Rightarrow> bytes" where
  "certificate_fields c =
     [qc_type c] @ put_le 8 (qc_slot c) @ put_le 8 (qc_height c) @
     key_bytes (qc_hash c) @ put_le 8 (qc_threshold c) @ put_le 8 (qc_confirmed c) @
     put_le 8 (qc_created c) @ put_le 4 (of_nat (length (qc_voters c)) :: u32) @
     concat (map enc_bytes (qc_voters c))"

definition certificate_head :: "QuorumCertificate \<Rightarrow> bytes" where
  "certificate_head c = put_le 2 ConsensusCodecVersion @ certificate_fields c"

definition certificate_tail :: "QuorumCertificate \<Rightarrow> bytes" where
  "certificate_tail c = enc_bytes (qc_scheme c) @ enc_bytes (qc_aggregate c) @ enc_bytes (qc_bitmap c)"

text \<open>What the string and octet fields need in order to be written.\<close>

definition certificate_writable :: "QuorumCertificate \<Rightarrow> bool" where
  "certificate_writable c \<longleftrightarrow>
     (\<forall>v \<in> set (qc_voters c). utf8_valid v) \<and> length (qc_aggregate c) \<le> 65536 \<and> length (qc_bitmap c) \<le> 65536"

lemma write_voters_Inr:
  "w_max w = 65536 \<Longrightarrow>
     write_voters vs w = Inr w' \<longleftrightarrow>
       (\<forall>v \<in> set vs. utf8_valid v \<and> length v \<le> 65536) \<and> w' = w_append (concat (map enc_bytes vs)) w"
proof (induction vs arbitrary: w)
  case Nil
  then show ?case by (auto simp: w_append_def)
next
  case (Cons v vs)
  have app: "w_append ys (w_append xs w) = w_append (xs @ ys) w" for xs ys
    by (simp add: w_append_def)
  show ?case
    using Cons.prems Cons.IH [of "w_append (enc_bytes v) w"]
    by (auto simp: result_simps WriteString_Inr app)
qed

lemma read_voter_ids_concat:
  assumes "\<forall>v \<in> set vs. utf8_valid v \<and> length v \<le> 65536"
    and "length (concat (map enc_bytes vs)) + length rest < 2 ^ 32"
  shows "read_voter_ids (length vs) (at (concat (map enc_bytes vs) @ rest) 65536) = Inr (vs, at rest 65536)"
  using assms
proof (induction vs)
  case Nil
  then show ?case by simp
next
  case (Cons v vs)
  have "ReadString (at (enc_bytes v @ concat (map enc_bytes vs) @ rest) 65536) =
      Inr (v, at (concat (map enc_bytes vs) @ rest) 65536)"
    using Cons.prems by (intro bstring.rd_wr) auto
  then show ?case using Cons by simp
qed

lemma read_voter_ids_Inr:
  assumes "read_voter_ids n r = Inr (vs, r')"
  shows "length vs = n \<and> r_rest r = concat (map enc_bytes vs) @ r_rest r' \<and> r_max r' = r_max r \<and>
    (\<forall>v \<in> set vs. utf8_valid v \<and> length v \<le> r_max r)"
  using assms
proof (induction n arbitrary: r vs)
  case 0
  then show ?case by simp
next
  case (Suc n)
  then obtain v s ws where v: "ReadString r = Inr (v, s)" and ws: "read_voter_ids n s = Inr (ws, r')"
    and vs: "vs = v # ws"
    by (auto simp: result_simps)
  from bstring.rd_consumes [OF v] Suc.IH [OF ws] vs show ?case by auto
qed

lemma validate_voters_bound:
  "validate_voters p s vs = Inr u \<Longrightarrow> v \<in> set vs \<Longrightarrow> \<not> blank v \<and> length v \<le> 128"
  by (induction p s vs rule: validate_voters.induct)
    (auto simp: maxConsensusTextLength_def split: if_splits)

lemma validate_voters_sorted:
  "validate_voters p s vs = Inr u \<Longrightarrow>
     sorted_wrt (<) vs \<and> (\<forall>x. p = Some x \<longrightarrow> (\<forall>v \<in> set vs. x < v))"
  by (induction p s vs rule: validate_voters.induct) (fastforce split: if_splits)+

text \<open>
  The check on the set of identifiers seen so far never fires: the identifiers before the
  current one are all smaller.
\<close>

lemma validate_voters_Inr:
  assumes "\<forall>v \<in> set vs. \<not> blank v \<and> length v \<le> 128" and "sorted_wrt (<) vs"
    and "\<forall>x. p = Some x \<longrightarrow> (\<forall>v \<in> set vs. x < v) \<and> (\<forall>y \<in> s. y \<le> x)" and "p = None \<Longrightarrow> s = {}"
  shows "validate_voters p s vs = Inr ()"
  using assms
proof (induction vs arbitrary: p s)
  case Nil
  then show ?case by simp
next
  case (Cons v vs)
  have "v \<notin> s" and "\<forall>y \<in> insert v s. y \<le> v"
    using Cons.prems by (cases p; force)+
  moreover from this have "validate_voters (Some v) (insert v s) vs = Inr ()"
    using Cons.prems by (intro Cons.IH) auto
  ultimately show ?case using Cons.prems by (auto simp: maxConsensusTextLength_def)
qed

lemma validateVoterList_Inr:
  "validateVoterList vs = Inr u \<longleftrightarrow>
     (\<forall>v \<in> set vs. \<not> blank v \<and> length v \<le> maxConsensusTextLength) \<and> sorted_wrt (<) vs"
  unfolding validateVoterList_def maxConsensusTextLength_def
  by (auto dest: validate_voters_bound validate_voters_sorted intro!: validate_voters_Inr)

lemma Certificate_Validate_fields:
  assumes "Certificate_Validate c = Inr u"
  shows "sorted_wrt (<) (qc_voters c)" and "\<And>v. v \<in> set (qc_voters c) \<Longrightarrow> length v \<le> 128"
    and "0 < length (qc_voters c)" and "length (qc_voters c) \<le> 2048"
    and "qc_scheme c = [] \<or> qc_scheme c = BLSSignatureSchemeBasic"
    and "0 < qc_threshold c" and "qc_threshold c \<le> qc_confirmed c"
  using assms
  by (auto simp: Certificate_Validate_def result_simps validateVoterList_Inr maxConsensusTextLength_def
      maxCertificateVoters_def validateAggregateFields_def Let_def word_neq_0_conv split: if_splits)

lemma scheme_valid: "utf8_valid BLSSignatureSchemeBasic" "length BLSSignatureSchemeBasic = 23"
  by (simp_all add: BLSSignatureSchemeBasic_def ascii_def)

lemma Certificate_MarshalBinary_Inr:
  "Certificate_MarshalBinary c = Inr bs \<longleftrightarrow>
     Certificate_Validate c = Inr () \<and> certificate_writable c \<and>
     bs = certificate_head c @ certificate_tail c"
proof (cases "Certificate_Validate c = Inr ()")
  case True
  have "length (qc_scheme c) \<le> 65536" "utf8_valid (qc_scheme c)"
    using Certificate_Validate_fields(5) [OF True] scheme_valid by auto
  moreover have "\<forall>v \<in> set (qc_voters c). length v \<le> 65536"
    using Certificate_Validate_fields(2) [OF True] by fastforce
  ultimately show ?thesis
    using True
    by (auto simp: Certificate_MarshalBinary_def Let_def result_simps write_voters_Inr WriteString_Inr
        WriteBytes_Inr consensus_writer certificate_head_def certificate_fields_def certificate_tail_def certificate_writable_def)
qed (auto simp: Certificate_MarshalBinary_def result_simps)

lemma voters_length:
  "\<forall>v \<in> set vs. length v \<le> 128 \<Longrightarrow> length (concat (map enc_bytes vs)) \<le> 132 * length vs"
  by (induction vs) auto

text \<open>Decoding: first the fields that both forms of a certificate have, then the rest.\<close>

abbreviation without_aggregate :: "QuorumCertificate \<Rightarrow> QuorumCertificate" where
  "without_aggregate c \<equiv> c\<lparr>qc_scheme := [], qc_aggregate := [], qc_bitmap := []\<rparr>"

lemma readCertificateFields_written:
  assumes "Certificate_Validate c = Inr ()" and "certificate_writable c" and "length rest \<le> 200000"
  shows "readCertificateFields (at (certificate_fields c @ rest) 65536) =
      Inr (without_aggregate c, at rest 65536)"
proof -
  note fields = Certificate_Validate_fields [OF assms(1)]
  let ?vs = "qc_voters c"
  have len: "length (concat (map enc_bytes ?vs)) \<le> 270336"
    using voters_length [of ?vs] fields(2,4) by fastforce
  have ids: "read_voter_ids (length ?vs) (at (concat (map enc_bytes ?vs) @ rest) 65536) = Inr (?vs, at rest 65536)"
    using assms(2,3) len fields(2)
    by (intro read_voter_ids_concat) (fastforce simp: certificate_writable_def)+
  have n: "unat (of_nat (length ?vs) :: u32) = length ?vs" using fields(4) by (simp add: unat_of_nat)
  then have "(of_nat (length ?vs) :: u32) \<noteq> 0" using fields(3) by (metis less_irrefl unat_0)
  then have "readVoters (at (put_le 4 (of_nat (length ?vs) :: u32) @ concat (map enc_bytes ?vs) @ rest) 65536) =
      Inr (?vs, at rest 65536)"
    using n ids fields(4) len assms(3)
    by (simp add: readVoters_def codec_simps maxCertificateVoters_def word_less_nat_alt)
  then show ?thesis
    using len assms(3)
    by (cases c) (simp add: readCertificateFields_def certificate_fields_def codec_simps ReadUint8_def
        ReadInt64_def HashSize_def)
qed

lemma readCertificateFields_Inr:
  assumes "readCertificateFields r = Inr (c, r')" and "r_max r = 65536"
  shows "r_rest r = certificate_fields c @ r_rest r' \<and> r_max r' = 65536 \<and> certificate_writable c \<and>
    c = without_aggregate c"
  using assms
  by (auto simp: readCertificateFields_def readVoters_def result_simps NewHash_Inr ReadInt64_def
      certificate_fields_def certificate_writable_def dest!: borsh_consumes read_voter_ids_Inr)

lemma UnmarshalCertificate_written:
  assumes "Certificate_Validate c = Inr ()" and "certificate_writable c"
  shows "UnmarshalCertificateBinary (certificate_head c @ certificate_tail c) = Inr c"
proof -
  have s: "length (qc_scheme c) \<le> 23" "utf8_valid (qc_scheme c)"
    using Certificate_Validate_fields(5) [OF assms(1)] scheme_valid by auto
  have t: "length (certificate_tail c) \<le> 200000" "0 < length (certificate_tail c)"
    using s assms(2) by (auto simp: certificate_tail_def certificate_writable_def)
  have h: "readCertificateFields (at (certificate_fields c @ certificate_tail c) 65536) =
      Inr (without_aggregate c, at (certificate_tail c) 65536)"
    by (rule readCertificateFields_written [OF assms t(1)])
  have "ReadUint16 (at (certificate_head c @ certificate_tail c) 65536) =
      Inr (ConsensusCodecVersion, at (certificate_fields c @ certificate_tail c) 65536)"
    by (simp add: ReadUint16_def certificate_head_def)
  with h t(2) have "UnmarshalCertificateBinary (certificate_head c @ certificate_tail c) =
      rbind (wrap_err (CBorsh ''unmarshal qc signature scheme'') (ReadString (at (certificate_tail c) 65536))) (\<lambda>(scheme, r).
      rbind (wrap_err (CBorsh ''unmarshal qc aggregate signature'') (ReadBytes r)) (\<lambda>(aggregate, r).
      rbind (wrap_err (CBorsh ''unmarshal qc voter bitmap'') (ReadBytes r)) (\<lambda>(bitmap, r).
      rbind (wrap_err (CBorsh ''unmarshal qc eof'') (EnsureEOF r)) (\<lambda>_.
        let c = c\<lparr>qc_scheme := scheme, qc_aggregate := aggregate, qc_bitmap := bitmap\<rparr>
        in rbind (Certificate_Validate c) (\<lambda>_. Inr c)))))"
    by (simp add: UnmarshalCertificateBinary_def NewReader_def consensus_max Remaining_def)
  then show ?thesis
    using assms s by (simp add: certificate_tail_def certificate_writable_def codec_simps)
qed

text \<open>
  The decoder also takes the older form, which ends after the voters; such a certificate has no
  aggregate signature.
\<close>

lemma UnmarshalCertificate_short:
  assumes "Certificate_Validate c = Inr ()" and "certificate_writable c" and "c = without_aggregate c"
  shows "UnmarshalCertificateBinary (certificate_head c) = Inr c"
proof -
  have "ReadUint16 (at (certificate_head c) 65536) =
      Inr (ConsensusCodecVersion, at (certificate_fields c) 65536)"
    by (simp add: ReadUint16_def certificate_head_def)
  moreover have "readCertificateFields (at (certificate_fields c) 65536) = Inr (c, at [] 65536)"
    using readCertificateFields_written [OF assms(1,2), of "[]"] assms(3) by simp
  ultimately show ?thesis
    using assms(1) by (simp add: UnmarshalCertificateBinary_def NewReader_def consensus_max Remaining_def)
qed

lemma without_aggregateD:
  assumes "c = without_aggregate c"
  shows "qc_scheme c = []" and "certificate_tail c = replicate 12 0"
proof -
  have e: "qc_scheme c = []" "qc_aggregate c = []" "qc_bitmap c = []"
    using arg_cong [OF assms, of qc_scheme] arg_cong [OF assms, of qc_aggregate]
      arg_cong [OF assms, of qc_bitmap] by simp_all
  show "qc_scheme c = []" by (rule e)
  have "enc_bytes [] = [0, 0, 0, 0]" by (simp add: enc_bytes_def put_le_def)
  moreover have "replicate 12 (0 :: byte) = [0, 0, 0, 0, 0, 0, 0, 0, 0, 0, 0, 0]"
    by (simp add: numeral_eq_Suc)
  ultimately show "certificate_tail c = replicate 12 0" by (simp only: certificate_tail_def e append.simps)
qed

lemma UnmarshalCertificate_Inr:
  assumes "UnmarshalCertificateBinary bs = Inr c"
  shows "Certificate_Validate c = Inr () \<and> certificate_writable c \<and>
    (bs = certificate_head c @ certificate_tail c \<or> bs = certificate_head c \<and> c = without_aggregate c)"
proof -
  obtain r d s where v: "ReadUint16 (NewReader bs (int maxConsensusContainerLength)) = Inr (ConsensusCodecVersion, r)"
    and d: "readCertificateFields r = Inr (d, s)"
    and rest: "(if Remaining s = 0 then rbind (Certificate_Validate d) (\<lambda>_. Inr d)
     else
     rbind (wrap_err (CBorsh ''unmarshal qc signature scheme'') (ReadString s)) (\<lambda>(scheme, r).
     rbind (wrap_err (CBorsh ''unmarshal qc aggregate signature'') (ReadBytes r)) (\<lambda>(aggregate, r).
     rbind (wrap_err (CBorsh ''unmarshal qc voter bitmap'') (ReadBytes r)) (\<lambda>(bitmap, r).
     rbind (wrap_err (CBorsh ''unmarshal qc eof'') (EnsureEOF r)) (\<lambda>_.
       let c = d\<lparr>qc_scheme := scheme, qc_aggregate := aggregate, qc_bitmap := bitmap\<rparr>
       in rbind (Certificate_Validate c) (\<lambda>_. Inr c)))))) = Inr c"
    using assms by (simp add: UnmarshalCertificateBinary_def rbind_eq_Inr wrap_err_eq_Inr split_paired_Ex
        if_Inl_eq_Inr) blast
  from bu16.rd_consumes [OF v] have bs: "bs = put_le 2 ConsensusCodecVersion @ r_rest r" "r_max r = 65536"
    by (simp_all add: NewReader_def consensus_max)
  from readCertificateFields_Inr [OF d bs(2)]
  have f: "r_rest r = certificate_fields d @ r_rest s" "r_max s = 65536" "certificate_writable d"
      "d = without_aggregate d"
    by simp_all
  show ?thesis
  proof (cases "Remaining s = 0")
    case True
    then show ?thesis using rest bs f by (auto simp: Remaining_def certificate_head_def result_simps)
  next
    case False
    then obtain scheme r1 aggregate r2 bitmap r3
      where reads: "ReadString s = Inr (scheme, r1)" "ReadBytes r1 = Inr (aggregate, r2)"
          "ReadBytes r2 = Inr (bitmap, r3)" "r_rest r3 = []"
        and c: "c = d\<lparr>qc_scheme := scheme, qc_aggregate := aggregate, qc_bitmap := bitmap\<rparr>"
        and ok: "Certificate_Validate c = Inr ()"
      using rest by (simp add: rbind_eq_Inr wrap_err_eq_Inr EnsureEOF_Inr split_paired_Ex Let_def) blast
    have "r_rest s = certificate_tail c" "length aggregate \<le> 65536" "length bitmap \<le> 65536"
      using bstring.rd_consumes [OF reads(1)] bbytes.rd_consumes [OF reads(2)]
        bbytes.rd_consumes [OF reads(3)] reads(4) f(2)
      by (simp_all add: certificate_tail_def c)
    then show ?thesis
      using ok bs f(1,3) by (simp add: certificate_head_def certificate_fields_def certificate_writable_def c)
  qed
qed

section \<open>The required stake\<close>

lemma unat_negated:
  assumes "(x :: u64) \<noteq> 0"
  shows "unat (- x) = 2 ^ 64 - unat x"
proof -
  define y where "y = - 1 - x"
  have "unat y = 2 ^ 64 - 1 - unat x"
    unfolding y_def by (subst unat_sub) (simp_all add: unat_minus_one)
  moreover have "0 < unat x" using assms by (simp add: unat_gt_0)
  ultimately have "unat (y + 1) = 2 ^ 64 - unat x"
    using unsigned_less [of x, where 'a = nat] by (simp add: unat_word_ariths)
  then show ?thesis by (simp add: y_def)
qed

lemma RequiredStake_Inr:
  assumes "RequiredStake q t = Inr r"
  shows "0 < q_numerator q" and "q_numerator q \<le> q_denominator q" and "0 < t"
    and "unat t * unat (q_numerator q) + unat (q_denominator q) \<le> 2 ^ 64"
    and "q_strict q \<Longrightarrow> unat r = (unat t * unat (q_numerator q) div unat (q_denominator q) + 1) mod 2 ^ 64"
    and "\<not> q_strict q \<Longrightarrow> unat r =
      (unat t * unat (q_numerator q) + unat (q_denominator q) - 1) div unat (q_denominator q)"
proof -
  let ?n = "unat (q_numerator q)" and ?d = "unat (q_denominator q)" and ?t = "unat t"
  show n: "0 < q_numerator q" and nd: "q_numerator q \<le> q_denominator q" and "0 < t"
    using assms by (auto simp: RequiredStake_def word_neq_0_conv split: if_splits)
  have d: "q_denominator q \<noteq> 0" using n nd by auto
  have dpos: "0 < ?d" using d by (simp add: unat_gt_0)
  have d64: "?d < 2 ^ 64" using unsigned_less [of "q_denominator q", where 'a = nat] by simp
  have neg: "unat (- q_denominator q) = 2 ^ 64 - ?d" by (rule unat_negated [OF d])
  have "t \<le> (- q_denominator q) div q_numerator q"
    using assms by (auto simp: RequiredStake_def split: if_splits)
  then have "?t \<le> (2 ^ 64 - ?d) div ?n"
    by (simp only: word_le_nat_alt unat_div neg)
  then have "?t * ?n \<le> 2 ^ 64 - ?d"
    using n by (simp add: word_less_nat_alt less_eq_div_iff_mult_less_eq)
  then show bound: "?t * ?n + ?d \<le> 2 ^ 64" using d64 by linarith
  have prod: "unat (t * q_numerator q) = ?t * ?n"
    using bound dpos by (simp add: unat_word_ariths)
  show "unat r = (?t * ?n div ?d + 1) mod 2 ^ 64" if "q_strict q"
    using assms that prod by (auto simp: RequiredStake_def unat_word_ariths unat_div mod_Suc_eq split: if_splits)
  have "unat (t * q_numerator q + q_denominator q - 1) = ?t * ?n + ?d - 1"
  proof -
    have "unat (q_denominator q - 1) = ?d - 1"
      using dpos by (subst unat_sub) (simp_all add: word_le_nat_alt)
    then have "unat (t * q_numerator q + (q_denominator q - 1)) = ?t * ?n + (?d - 1)"
      using bound dpos by (simp add: unat_word_ariths prod)
    then show ?thesis using dpos by (simp add: algebra_simps)
  qed
  then show "unat r = (?t * ?n + ?d - 1) div ?d" if "\<not> q_strict q"
    using assms that by (auto simp: RequiredStake_def unat_div split: if_splits)
qed

text \<open>
  The quotient is compared without rounding: a stake reaches the requirement exactly when it is
  at least the fraction of the total, or above it for a strict quorum.
\<close>

lemma RequiredStake_reached:
  assumes "RequiredStake q t = Inr r" and "r \<noteq> 0"
  shows "unat r \<le> s \<longleftrightarrow>
    (if q_strict q then unat t * unat (q_numerator q) < s * unat (q_denominator q)
     else unat t * unat (q_numerator q) \<le> s * unat (q_denominator q))"
proof -
  note R = RequiredStake_Inr [OF assms(1)]
  let ?p = "unat t * unat (q_numerator q)" and ?d = "unat (q_denominator q)"
  have d: "0 < ?d" using R(1,2) by (simp add: word_less_nat_alt word_le_nat_alt)
  show ?thesis
  proof (cases "q_strict q")
    case True
    have "?p div ?d \<le> ?p" by simp
    also have "?p \<le> 2 ^ 64 - 1" using R(4) d by linarith
    finally have "?p div ?d + 1 < 2 ^ 64 \<or> ?p div ?d + 1 = 2 ^ 64"
      by (simp add: le_less)
    moreover have "unat r \<noteq> 0" using assms(2) by (simp only: unat_eq_zero not_False_eq_True)
    ultimately have "unat r = ?p div ?d + 1" using R(5) [OF True] by auto
    then show ?thesis using True d by (simp add: Suc_le_eq div_less_iff_less_mult)
  next
    case False
    have "(?p + ?d - 1) div ?d \<le> s \<longleftrightarrow> ?p + ?d - 1 < Suc s * ?d"
      using d by (simp only: less_Suc_eq_le [symmetric] div_less_iff_less_mult)
    also have "\<dots> \<longleftrightarrow> ?p \<le> s * ?d"
      using d by (simp only: mult_Suc) linarith
    finally show ?thesis using False R(6) by simp
  qed
qed

section \<open>Properties\<close>



text \<open>
  C22: The binary forms of votes and certificates. A vote has one encoding, and it decodes to the
  vote. A certificate decodes to itself; every accepted octet string is its encoding, or its
  encoding without the twelve zero octets of three empty aggregate fields.
\<close>

theorem vote_and_certificate_binary:
  "(UnmarshalVoteBinary bs = Inr v \<longleftrightarrow> Vote_MarshalBinary v = Inr bs) \<and>
   (Certificate_MarshalBinary c = Inr cs \<longrightarrow> UnmarshalCertificateBinary cs = Inr c) \<and>
   (UnmarshalCertificateBinary ds = Inr c \<longrightarrow>
     Certificate_MarshalBinary c = Inr ds \<or>
     Certificate_MarshalBinary c = Inr (ds @ replicate 12 0) \<and> qc_scheme c = [])"
proof (intro conjI impI)
  show "UnmarshalVoteBinary bs = Inr v \<longleftrightarrow> Vote_MarshalBinary v = Inr bs"
    using vote_message.codec_iff [of bs v] by simp
  show "UnmarshalCertificateBinary cs = Inr c" if "Certificate_MarshalBinary c = Inr cs"
    using that by (simp add: Certificate_MarshalBinary_Inr UnmarshalCertificate_written)
  assume "UnmarshalCertificateBinary ds = Inr c"
  then have c: "Certificate_Validate c = Inr ()" "certificate_writable c"
      "ds = certificate_head c @ certificate_tail c \<or> ds = certificate_head c \<and> c = without_aggregate c"
    using UnmarshalCertificate_Inr [of ds c] by blast+
  from c(3) show "Certificate_MarshalBinary c = Inr ds \<or>
      Certificate_MarshalBinary c = Inr (ds @ replicate 12 0) \<and> qc_scheme c = []"
  proof (elim disjE conjE)
    assume "ds = certificate_head c" and "c = without_aggregate c"
    from this(1) without_aggregateD [OF this(2)] c(1,2) show ?thesis
      by (simp add: Certificate_MarshalBinary_Inr)
  qed (use c(1,2) in \<open>simp add: Certificate_MarshalBinary_Inr\<close>)
qed

definition sample_certificate :: QuorumCertificate where
  "sample_certificate =
     \<lparr>qc_type = VoteTypeSkip, qc_slot = 5, qc_height = 4, qc_hash = 1, qc_threshold = 3,
      qc_confirmed = 3, qc_voters = [[97], [98]], qc_created = 9, qc_scheme = [],
      qc_aggregate = [], qc_bitmap = []\<rparr>"

lemma sample_certificate_ok:
  "Certificate_Validate sample_certificate = Inr ()" "certificate_writable sample_certificate"
  by code_simp (simp add: certificate_writable_def sample_certificate_def)

theorem vote_and_certificate_binary_witness:
  "UnmarshalCertificateBinary (certificate_head sample_certificate @ certificate_tail sample_certificate) =
     Inr sample_certificate"
  using vote_and_certificate_binary [of "[]" undefined sample_certificate
      "certificate_head sample_certificate @ certificate_tail sample_certificate" "[]"]
  by (simp add: Certificate_MarshalBinary_Inr sample_certificate_ok)

end
