(* ===== verification/Bls_Certificates.thy ===== *)
theory Bls_Certificates
  imports Votes
begin

text \<open>
  \<open>consensus/bls_qc.go\<close>: the message a validator signs, the aggregate signature of a quorum
  certificate with its bitmap of voters, and the two checks a node makes of a certificate it
  receives. The signature scheme itself is the package \<open>circl/sign/bls\<close>, which is a parameter:
  the record \<open>bls_library\<close> holds the functions the source calls.
\<close>

section \<open>Model\<close>

unbundle bit_operations_syntax

text \<open>
  A failing call returns \<open>None\<close>. Keys are kept as the library decodes them, \<open>'pk\<close> and \<open>'sk\<close>.
\<close>

record ('sk, 'pk) bls_library =
  bls_private_key :: "bytes \<Rightarrow> 'sk option"
  bls_public_key :: "bytes \<Rightarrow> 'pk option"
  bls_sign :: "'sk \<Rightarrow> bytes \<Rightarrow> bytes"
  bls_verify :: "'pk \<Rightarrow> bytes \<Rightarrow> bytes \<Rightarrow> bool"
  bls_aggregate :: "bytes list \<Rightarrow> bytes option"
  bls_verify_aggregate :: "'pk list \<Rightarrow> bytes list \<Rightarrow> bytes \<Rightarrow> bool"

definition parse_public_key :: "('sk, 'pk) bls_library \<Rightarrow> bytes \<Rightarrow> consensus_error + 'pk" where
  "parse_public_key lib b =
     (case bls_public_key lib b of None \<Rightarrow> Inl (CText ''unmarshal bls public key'') | Some pk \<Rightarrow> Inr pk)"

definition appendUint64ForHash :: "bytes \<Rightarrow> u64 \<Rightarrow> bytes" where
  "appendUint64ForHash encoded value =
     encoded @ map (\<lambda>shift. ucast (drop_bit (shift * 8) value)) [0..<8]"

definition BLSVoteMessage :: "Vote \<Rightarrow> bytes" where
  "BLSVoteMessage vote =
     (let message = ascii ''pos-qc-vote-v1'';
          message = message @ [v_type vote];
          message = appendUint64ForHash message (v_slot vote);
          message = appendUint64ForHash message (v_height vote);
          message = message @ key_bytes (v_hash vote)
      in message @ v_voter vote)"

definition SignBLSVote :: "('sk, 'pk) bls_library \<Rightarrow> bytes \<Rightarrow> Vote \<Rightarrow> consensus_error + bytes" where
  "SignBLSVote lib privateKeyBytes vote =
     rbind (Vote_Validate vote) (\<lambda>_.
       case bls_private_key lib privateKeyBytes of
         None \<Rightarrow> Inl (CText ''unmarshal bls private key'')
       | Some sk \<Rightarrow> Inr (bls_sign lib sk (BLSVoteMessage vote)))"

definition VerifyBLSVote :: "('sk, 'pk) bls_library \<Rightarrow> bytes \<Rightarrow> bytes \<Rightarrow> Vote \<Rightarrow> consensus_error + unit" where
  "VerifyBLSVote lib publicKeyBytes signature vote =
     rbind (Vote_Validate vote) (\<lambda>_.
     rbind (parse_public_key lib publicKeyBytes) (\<lambda>publicKey.
       if \<not> bls_verify lib publicKey (BLSVoteMessage vote) signature
       then Inl (ErrInvalidVote ''invalid bls vote signature'') else Inr ()))"

definition ValidateBLSPublicKey :: "('sk, 'pk) bls_library \<Rightarrow> bytes \<Rightarrow> consensus_error + unit" where
  "ValidateBLSPublicKey lib publicKeyBytes =
     (if length publicKeyBytes = 0 then Inr ()
      else rbind (parse_public_key lib publicKeyBytes) (\<lambda>_. Inr ()))"

subsection \<open>Attaching the aggregate\<close>

text \<open>The first loop builds the index of the validators and refuses empty and repeated ones.\<close>

fun index_validators ::
    "nat \<Rightarrow> gostring list \<Rightarrow> (gostring \<rightharpoonup> nat) \<Rightarrow> consensus_error + (gostring \<rightharpoonup> nat)" where
  "index_validators i [] m = Inr m"
| "index_validators i (v # vs) m =
     (if v = [] then Inl (ErrInvalidCertificate ''empty validator id in bitmap order'')
      else if m v \<noteq> None then Inl (ErrInvalidCertificate ''duplicate validator id in bitmap order'')
      else index_validators (Suc i) vs (m(v \<mapsto> i)))"

definition set_bitmap_bit :: "bytes \<Rightarrow> nat \<Rightarrow> bytes" where
  "set_bitmap_bit bitmap index =
     bitmap[index div 8 := bitmap ! (index div 8) OR push_bit (index mod 8) 1]"

definition map_bytes :: "(gostring \<times> bytes) list \<Rightarrow> gostring \<Rightarrow> bytes" where
  "map_bytes m k = (case map_of m k of None \<Rightarrow> [] | Some b \<Rightarrow> b)"

text \<open>The second loop collects the signatures of the voters and marks them in the bitmap.\<close>

fun collect_signatures ::
    "(gostring \<rightharpoonup> nat) \<Rightarrow> (gostring \<times> bytes) list \<Rightarrow> gostring list \<Rightarrow> bytes list \<Rightarrow> bytes \<Rightarrow>
     consensus_error + bytes list \<times> bytes" where
  "collect_signatures index sigs [] signatures bitmap = Inr (signatures, bitmap)"
| "collect_signatures index sigs (v # vs) signatures bitmap =
     (case index v of
        None \<Rightarrow> Inl (ErrInvalidCertificate ''voter not in validator order'')
      | Some i \<Rightarrow>
          if length (map_bytes sigs v) = 0
          then Inl (ErrInvalidCertificate ''missing bls signature'')
          else collect_signatures index sigs vs (signatures @ [map_bytes sigs v]) (set_bitmap_bit bitmap i))"

definition AttachBLSAggregate ::
    "('sk, 'pk) bls_library \<Rightarrow> QuorumCertificate \<Rightarrow> gostring list \<Rightarrow> (gostring \<times> bytes) list \<Rightarrow>
     consensus_error + QuorumCertificate" where
  "AttachBLSAggregate lib certificate validatorOrder signaturesByValidator =
     rbind (Certificate_Validate certificate) (\<lambda>_.
     if length validatorOrder = 0 then Inl (ErrInvalidCertificate ''empty validator order'')
     else
       let orderedVoters = sort (qc_voters certificate);
           bitmap = replicate ((length validatorOrder + 7) div 8) 0
       in rbind (index_validators 0 validatorOrder Map.empty) (\<lambda>indexByValidator.
          rbind (collect_signatures indexByValidator signaturesByValidator orderedVoters [] bitmap)
            (\<lambda>(signatures, bitmap).
          case bls_aggregate lib signatures of
            None \<Rightarrow> Inl (CText ''aggregate bls signatures'')
          | Some aggregateSignature \<Rightarrow>
              let certificate = certificate\<lparr>qc_scheme := BLSSignatureSchemeBasic,
                    qc_aggregate := aggregateSignature, qc_bitmap := bitmap\<rparr>
              in rbind (Certificate_Validate certificate) (\<lambda>_. Inr certificate))))"

subsection \<open>Checking a certificate\<close>

definition bitmap_bit :: "bytes \<Rightarrow> nat \<Rightarrow> bool" where
  "bitmap_bit bitmap index \<longleftrightarrow> bitmap ! (index div 8) AND push_bit (index mod 8) 1 \<noteq> 0"

fun select_voters :: "nat \<Rightarrow> gostring list \<Rightarrow> bytes \<Rightarrow> gostring list" where
  "select_voters i [] bitmap = []"
| "select_voters i (v # vs) bitmap =
     (if bitmap_bit bitmap i then v # select_voters (Suc i) vs bitmap
      else select_voters (Suc i) vs bitmap)"

definition votersFromBitmap :: "gostring list \<Rightarrow> bytes \<Rightarrow> consensus_error + gostring list" where
  "votersFromBitmap validatorOrder bitmap =
     (if length validatorOrder = 0 \<or> length bitmap = 0
      then Inl (ErrInvalidCertificate ''empty voter bitmap'')
      else if length bitmap \<noteq> (length validatorOrder + 7) div 8
      then Inl (ErrInvalidCertificate ''voter bitmap length mismatch'')
      else let voters = select_voters 0 validatorOrder bitmap
        in if length voters = 0 then Inl (ErrInvalidCertificate ''empty voter bitmap'')
           else Inr (sort voters))"

definition sameStringSet :: "gostring list \<Rightarrow> gostring list \<Rightarrow> bool" where
  "sameStringSet left right \<longleftrightarrow> sort left = sort right"

definition certificate_vote :: "QuorumCertificate \<Rightarrow> gostring \<Rightarrow> Vote" where
  "certificate_vote c voterID =
     \<lparr>v_type = qc_type c, v_slot = qc_slot c, v_height = qc_height c, v_hash = qc_hash c,
      v_voter = voterID, v_stake = 1, v_created = qc_created c\<rparr>"

definition voter_key ::
    "('sk, 'pk) bls_library \<Rightarrow> (gostring \<rightharpoonup> bytes) \<Rightarrow> gostring \<Rightarrow> consensus_error + 'pk" where
  "voter_key lib publicKeysByValidator voterID =
     (let b = (case publicKeysByValidator voterID of None \<Rightarrow> [] | Some b \<Rightarrow> b)
      in if length b = 0 then Inl (ErrInvalidCertificate ''missing bls public key'')
         else parse_public_key lib b)"

definition VerifyBLSAggregate ::
    "('sk, 'pk) bls_library \<Rightarrow> QuorumCertificate \<Rightarrow> gostring list \<Rightarrow> (gostring \<rightharpoonup> bytes) \<Rightarrow>
     consensus_error + unit" where
  "VerifyBLSAggregate lib certificate validatorOrder publicKeysByValidator =
     rbind (Certificate_Validate certificate) (\<lambda>_.
     rbind (votersFromBitmap validatorOrder (qc_bitmap certificate)) (\<lambda>voters.
     if \<not> sameStringSet voters (qc_voters certificate)
     then Inl (ErrInvalidCertificate ''voter bitmap mismatch'')
     else rbind (rmap (voter_key lib publicKeysByValidator) voters) (\<lambda>publicKeys.
       let messages = map (\<lambda>voterID. BLSVoteMessage (certificate_vote certificate voterID)) voters
       in if \<not> bls_verify_aggregate lib publicKeys messages (qc_aggregate certificate)
          then Inl (ErrInvalidCertificate ''invalid bls aggregate signature'')
          else Inr ())))"

definition map_stake :: "(gostring \<rightharpoonup> u64) \<Rightarrow> gostring \<Rightarrow> u64" where
  "map_stake m k = (case m k of None \<Rightarrow> 0 | Some s \<Rightarrow> s)"

fun order_stake ::
    "(gostring \<rightharpoonup> u64) \<Rightarrow> gostring list \<Rightarrow> (gostring \<rightharpoonup> u64) \<Rightarrow> u64 \<Rightarrow>
     consensus_error + (gostring \<rightharpoonup> u64) \<times> u64" where
  "order_stake stakes [] orderedStake totalStake = Inr (orderedStake, totalStake)"
| "order_stake stakes (v # vs) orderedStake totalStake =
     (if v = [] then Inl (ErrInvalidCertificate ''empty validator id'')
      else if orderedStake v \<noteq> None then Inl (ErrInvalidCertificate ''duplicate validator id'')
      else let stake = map_stake stakes v
        in if stake = 0 then Inl (ErrInvalidCertificate ''validator stake missing'')
           else if - 1 - totalStake < stake then Inl (ErrInvalidCertificate ''total stake overflow'')
           else order_stake stakes vs (orderedStake(v \<mapsto> stake)) (totalStake + stake))"

definition stakeByValidatorOrder ::
    "gostring list \<Rightarrow> (gostring \<rightharpoonup> u64) \<Rightarrow> consensus_error + (gostring \<rightharpoonup> u64) \<times> u64" where
  "stakeByValidatorOrder validatorOrder stakeByValidator =
     (if length validatorOrder = 0 then Inl (ErrInvalidCertificate ''empty validator order'')
      else order_stake stakeByValidator validatorOrder Map.empty 0)"

fun confirmed_stake :: "(gostring \<rightharpoonup> u64) \<Rightarrow> gostring list \<Rightarrow> u64 \<Rightarrow> consensus_error + u64" where
  "confirmed_stake orderedStake [] acc = Inr acc"
| "confirmed_stake orderedStake (v # vs) acc =
     (case orderedStake v of
        None \<Rightarrow> Inl (ErrInvalidCertificate ''voter stake missing'')
      | Some stake \<Rightarrow>
          if - 1 - acc < stake then Inl (ErrInvalidCertificate ''confirmed stake overflow'')
          else confirmed_stake orderedStake vs (acc + stake))"

definition VerifyBLSAggregateWithStake ::
    "('sk, 'pk) bls_library \<Rightarrow> QuorumCertificate \<Rightarrow> gostring list \<Rightarrow> (gostring \<rightharpoonup> bytes) \<Rightarrow>
     (gostring \<rightharpoonup> u64) \<Rightarrow> Quorum \<Rightarrow> consensus_error + unit" where
  "VerifyBLSAggregateWithStake lib certificate validatorOrder publicKeysByValidator stakeByValidator quorum =
     rbind (VerifyBLSAggregate lib certificate validatorOrder publicKeysByValidator) (\<lambda>_.
     rbind (stakeByValidatorOrder validatorOrder stakeByValidator) (\<lambda>(orderedStake, totalStake).
     rbind (RequiredStake quorum totalStake) (\<lambda>requiredStake.
     if qc_threshold certificate \<noteq> requiredStake
     then Inl (ErrInvalidCertificate ''threshold stake mismatch'')
     else rbind (votersFromBitmap validatorOrder (qc_bitmap certificate)) (\<lambda>voters.
     rbind (confirmed_stake orderedStake voters 0) (\<lambda>confirmedStake.
     if confirmedStake \<noteq> qc_confirmed certificate
     then Inl (ErrInvalidCertificate ''confirmed stake mismatch'')
     else if confirmedStake < requiredStake
     then Inl (ErrInvalidCertificate ''insufficient confirmed stake'')
     else Inr ())))))"


section \<open>Signed messages\<close>

lemma nat_le_map: "nat_le k n = map (\<lambda>i. of_nat (n div 256 ^ i)) [0..<k]"
proof (induction k arbitrary: n)
  case 0
  then show ?case by simp
next
  case (Suc k)
  have "(of_nat (n mod 256) :: byte) = of_nat n"
    by (simp add: word_unat_eq_iff unat_of_nat)
  then show ?case
    by (simp add: Suc.IH map_upt_Suc div_mult2_eq del: upt_Suc)
qed

lemma ucast_drop_bit: "(ucast (drop_bit n x) :: byte) = of_nat (unat x div 2 ^ n)" for x :: u64
proof -
  have "unat (drop_bit n x) = unat x div 2 ^ n"
    by (simp add: unat_drop_bit_eq flip: drop_bit_eq_div)
  then show ?thesis by (simp add: word_unat_eq_iff unat_of_nat unsigned_ucast_eq take_bit_eq_mod)
qed

lemma appendUint64ForHash_eq: "appendUint64ForHash bs x = bs @ put_le 8 x"
  by (simp only: appendUint64ForHash_def put_le_def nat_le_map ucast_drop_bit power_mult
      mult.commute [of _ 8]) simp

lemma BLSVoteMessage_eq:
  "BLSVoteMessage v =
     ascii ''pos-qc-vote-v1'' @ [v_type v] @ put_le 8 (v_slot v) @ put_le 8 (v_height v) @
     key_bytes (v_hash v) @ v_voter v"
  by (simp add: BLSVoteMessage_def appendUint64ForHash_eq Let_def)

lemma put_le_inject:
  "put_le 8 x = put_le 8 y \<longleftrightarrow> x = y" for x y :: u64
  by (metis get_put_uint(4))

text \<open>The message names the type, slot, height, block and voter, and nothing else.\<close>

lemma BLSVoteMessage_inject:
  "BLSVoteMessage v = BLSVoteMessage w \<longleftrightarrow>
     v_type v = v_type w \<and> v_slot v = v_slot w \<and> v_height v = v_height w \<and> v_hash v = v_hash w \<and>
     v_voter v = v_voter w"
  by (auto simp: BLSVoteMessage_eq put_le_inject) (metis get_put_uint(5))

section \<open>Bitmaps\<close>

lemma set_select_voters:
  "x \<in> set (select_voters i vs bm) \<longleftrightarrow> (\<exists>k < length vs. bitmap_bit bm (i + k) \<and> x = vs ! k)"
  by (induction vs arbitrary: i) (simp_all add: Ex_less_Suc2)

lemma subset_select_voters: "set (select_voters i vs bm) \<subseteq> set vs"
  by (auto simp: set_select_voters)

lemma distinct_select_voters: "distinct vs \<Longrightarrow> distinct (select_voters i vs bm)"
  by (induction vs arbitrary: i) (use subset_select_voters in fastforce)+

lemma length_set_bitmap_bit [simp]: "length (set_bitmap_bit bm i) = length bm"
  by (simp add: set_bitmap_bit_def)

lemma bitmap_bit_iff: "bitmap_bit bm i \<longleftrightarrow> bit (bm ! (i div 8)) (i mod 8)"
  by (auto simp: bitmap_bit_def bit_iff_and_push_bit_not_eq_0)

lemma bitmap_bit_set:
  assumes "j div 8 < length bm"
  shows "bitmap_bit (set_bitmap_bit bm j) i \<longleftrightarrow> bitmap_bit bm i \<or> i = j"
proof (cases "i div 8 = j div 8")
  case True
  then have "i = j \<longleftrightarrow> i mod 8 = j mod 8" by (metis div_mult_mod_eq)
  moreover have "bit (push_bit (j mod 8) 1 :: byte) (i mod 8) \<longleftrightarrow> i mod 8 = j mod 8"
    by (auto simp: bit_exp_iff possible_bit_word)
  ultimately show ?thesis
    using True assms by (simp add: bitmap_bit_iff set_bitmap_bit_def bit_or_iff)
next
  case False
  then show ?thesis by (auto simp: bitmap_bit_iff set_bitmap_bit_def)
qed

lemma bitmap_bit_zero: "i div 8 < n \<Longrightarrow> \<not> bitmap_bit (replicate n 0) i"
  by (simp add: bitmap_bit_iff)

lemma index_validators_Inr:
  assumes "index_validators i vs m = Inr m'"
  shows "distinct vs \<and> (\<forall>v \<in> set vs. m v = None) \<and>
    (\<forall>v. v \<notin> set vs \<longrightarrow> m' v = m v) \<and> (\<forall>k < length vs. m' (vs ! k) = Some (i + k))"
  using assms
proof (induction vs arbitrary: i m)
  case Nil
  then show ?case by simp
next
  case (Cons v vs)
  have v: "m v = None" and IH: "index_validators (Suc i) vs (m(v \<mapsto> i)) = Inr m'"
    using Cons.prems by (auto split: if_splits)
  note H = Cons.IH [OF IH]
  have "v \<notin> set vs" using H by (metis fun_upd_same option.distinct(1))
  moreover from this have "m' v = Some i" using H by (metis fun_upd_same)
  ultimately show ?case
    using H v by (auto simp: nth_Cons fun_upd_def split: nat.splits if_splits)
qed

lemma collect_signatures_Inr:
  assumes "collect_signatures index sigs vs acc bm = Inr (ss, bm')"
    and "\<And>v j. v \<in> set vs \<Longrightarrow> index v = Some j \<Longrightarrow> j div 8 < length bm"
  shows "ss = acc @ map (map_bytes sigs) vs \<and> length bm' = length bm \<and> (\<forall>v \<in> set vs. index v \<noteq> None \<and> map_bytes sigs v \<noteq> []) \<and>
    (\<forall>i. bitmap_bit bm' i \<longleftrightarrow> bitmap_bit bm i \<or> Some i \<in> index ` set vs)"
  using assms
proof (induction vs arbitrary: acc bm)
  case Nil
  then show ?case by simp
next
  case (Cons v vs)
  from Cons.prems(1) obtain j where j: "index v = Some j" "map_bytes sigs v \<noteq> []"
    and r: "collect_signatures index sigs vs (acc @ [map_bytes sigs v]) (set_bitmap_bit bm j) = Inr (ss, bm')"
    by (auto split: option.splits if_splits)
  have b: "j div 8 < length bm" using Cons.prems(2) [of v j] j(1) by simp
  have "ss = (acc @ [map_bytes sigs v]) @ map (map_bytes sigs) vs \<and>
      length bm' = length (set_bitmap_bit bm j) \<and>
      (\<forall>v \<in> set vs. index v \<noteq> None \<and> map_bytes sigs v \<noteq> []) \<and>
      (\<forall>i. bitmap_bit bm' i \<longleftrightarrow> bitmap_bit (set_bitmap_bit bm j) i \<or> Some i \<in> index ` set vs)"
    using Cons.prems(2) by (intro Cons.IH [OF r]) auto
  then show ?case using j by (auto simp: bitmap_bit_set [OF b])
qed

section \<open>The aggregate that a collector attaches\<close>

lemma sort_voters:
  assumes "sorted_wrt (<) (vs :: gostring list)"
  shows "sort vs = vs" and "distinct vs"
  using assms by (simp_all add: strict_sorted_iff sorted_sort_id)

lemma sort_same_set:
  assumes "sorted_wrt (<) (vs :: gostring list)" and "distinct ws" and "set ws = set vs"
  shows "sort ws = vs"
  using assms by (intro sorted_distinct_set_unique) (simp_all add: strict_sorted_iff)

lemma select_indexed:
  assumes "\<And>k. k < length order \<Longrightarrow> index (order ! k) = Some k" and "set vs \<subseteq> set order"
    and bits: "\<And>i. i < length order \<Longrightarrow> bitmap_bit bm i \<longleftrightarrow> Some i \<in> index ` set vs"
  shows "set (select_voters 0 order bm) = set vs"
proof (intro set_eqI iffI)
  fix x
  assume "x \<in> set (select_voters 0 order bm)"
  then obtain k v where k: "k < length order" "x = order ! k" "v \<in> set vs" "index v = Some k"
    using bits by (auto simp: set_select_voters)
  obtain j where "j < length order" "v = order ! j"
    using k(3) assms(2) by (metis in_set_conv_nth subsetD)
  with k assms(1) show "x \<in> set vs" by fastforce
next
  fix x
  assume x: "x \<in> set vs"
  then obtain k where k: "k < length order" "order ! k = x"
    using assms(2) by (metis in_set_conv_nth subsetD)
  then have "bitmap_bit bm k" using x assms(1) bits by force
  with k show "x \<in> set (select_voters 0 order bm)" by (auto simp: set_select_voters)
qed

lemma AttachBLSAggregate_Inr:
  assumes "AttachBLSAggregate lib c order sigs = Inr d"
  shows "distinct order" and "set (qc_voters c) \<subseteq> set order"
    and "\<exists>a bitmap. d = c\<lparr>qc_scheme := BLSSignatureSchemeBasic, qc_aggregate := a, qc_bitmap := bitmap\<rparr> \<and>
      bls_aggregate lib (map (map_bytes sigs) (qc_voters c)) = Some a"
    and "votersFromBitmap order (qc_bitmap d) = Inr (qc_voters d)"
    and "Certificate_Validate d = Inr ()"
    and "\<And>v. v \<in> set (qc_voters c) \<Longrightarrow> map_bytes sigs v \<noteq> []"
proof -
  let ?n = "(length order + 7) div 8"
  have ok: "Certificate_Validate c = Inr ()" and ne: "order \<noteq> []"
    using assms by (auto simp: AttachBLSAggregate_def result_simps)
  note vs = Certificate_Validate_fields [OF ok]
  obtain index ss bitmap a where i: "index_validators 0 order Map.empty = Inr index"
    and cs: "collect_signatures index sigs (qc_voters c) [] (replicate ?n 0) = Inr (ss, bitmap)"
    and a: "bls_aggregate lib ss = Some a"
    and d: "d = c\<lparr>qc_scheme := BLSSignatureSchemeBasic, qc_aggregate := a, qc_bitmap := bitmap\<rparr>"
    and okd: "Certificate_Validate d = Inr ()"
    using assms sort_voters(1) [OF vs(1)]
    by (auto simp: AttachBLSAggregate_def result_simps Let_def split: option.splits)
  have dist: "distinct order" and out: "\<And>v. v \<notin> set order \<Longrightarrow> index v = None"
    and ind: "\<And>k. k < length order \<Longrightarrow> index (order ! k) = Some k"
    using index_validators_Inr [OF i] by auto
  have lt: "j < length order" if "index v = Some j" for v j
    using that out ind by (metis in_set_conv_nth option.distinct(1) option.inject)
  have room: "j div 8 < ?n" if "j < length order" for j
    using that by linarith
  have C: "ss = map (map_bytes sigs) (qc_voters c)" "length bitmap = ?n"
      "\<forall>v \<in> set (qc_voters c). index v \<noteq> None \<and> map_bytes sigs v \<noteq> []"
      "\<And>i. i < length order \<Longrightarrow> bitmap_bit bitmap i \<longleftrightarrow> Some i \<in> index ` set (qc_voters c)"
    using collect_signatures_Inr [OF cs] lt room by (auto simp: bitmap_bit_zero)
  show "distinct order" by (rule dist)
  show sub: "set (qc_voters c) \<subseteq> set order" using C(3) out by blast
  show "\<exists>a bitmap. d = c\<lparr>qc_scheme := BLSSignatureSchemeBasic, qc_aggregate := a, qc_bitmap := bitmap\<rparr> \<and>
      bls_aggregate lib (map (map_bytes sigs) (qc_voters c)) = Some a"
    using d a C(1) by blast
  have sel: "set (select_voters 0 order bitmap) = set (qc_voters c)"
    by (rule select_indexed [OF ind sub C(4)])
  then have "sort (select_voters 0 order bitmap) = qc_voters c"
    by (rule sort_same_set [OF vs(1) distinct_select_voters [OF dist]])
  moreover have "select_voters 0 order bitmap \<noteq> []" using sel vs(3) by auto
  moreover have "0 < ?n" using ne by (cases order) auto
  ultimately show "votersFromBitmap order (qc_bitmap d) = Inr (qc_voters d)"
    using ne C(2) by (simp add: votersFromBitmap_def d Let_def)
  show "Certificate_Validate d = Inr ()" by (rule okd)
  show "map_bytes sigs v \<noteq> []" if "v \<in> set (qc_voters c)" for v using C(3) that by blast
qed

section \<open>What an accepted certificate says\<close>

definition stake_of :: "(gostring \<rightharpoonup> u64) \<Rightarrow> gostring set \<Rightarrow> nat" where
  "stake_of stakes S = (\<Sum>v \<in> S. unat (map_stake stakes v))"

lemma VerifyBLSAggregate_Inr:
  assumes "VerifyBLSAggregate lib c order keys = Inr u"
  shows "Certificate_Validate c = Inr ()" and "votersFromBitmap order (qc_bitmap c) = Inr (qc_voters c)"
    and "\<exists>pks. rmap (voter_key lib keys) (qc_voters c) = Inr pks \<and>
      bls_verify_aggregate lib pks (map (\<lambda>v. BLSVoteMessage (certificate_vote c v)) (qc_voters c)) (qc_aggregate c)"
proof -
  obtain vs pks where ok: "Certificate_Validate c = Inr ()" and vs: "votersFromBitmap order (qc_bitmap c) = Inr vs"
    and same: "sameStringSet vs (qc_voters c)" and pks: "rmap (voter_key lib keys) vs = Inr pks"
    and sig: "bls_verify_aggregate lib pks (map (\<lambda>v. BLSVoteMessage (certificate_vote c v)) vs) (qc_aggregate c)"
    using assms by (auto simp: VerifyBLSAggregate_def result_simps Let_def)
  have "sort vs = vs"
    using vs by (auto simp: votersFromBitmap_def Let_def sorted_sort_id split: if_splits)
  moreover have "sort (qc_voters c) = qc_voters c"
    by (rule sort_voters(1) [OF Certificate_Validate_fields(1) [OF ok]])
  ultimately have "vs = qc_voters c" using same by (simp add: sameStringSet_def)
  with ok vs pks sig show "Certificate_Validate c = Inr ()"
    and "votersFromBitmap order (qc_bitmap c) = Inr (qc_voters c)"
    and "\<exists>pks. rmap (voter_key lib keys) (qc_voters c) = Inr pks \<and>
      bls_verify_aggregate lib pks (map (\<lambda>v. BLSVoteMessage (certificate_vote c v)) (qc_voters c)) (qc_aggregate c)"
    by blast+
qed

lemma votersFromBitmap_subset:
  "votersFromBitmap order bm = Inr vs \<Longrightarrow> set vs \<subseteq> set order"
  by (auto simp: votersFromBitmap_def Let_def dest: subsetD [OF subset_select_voters] split: if_splits)

lemma order_stake_Inr:
  assumes "order_stake stakes vs m t = Inr (m', t')"
  shows "distinct vs \<and> (\<forall>v \<in> set vs. m v = None \<and> map_stake stakes v \<noteq> 0) \<and>
    m' = (\<lambda>v. if v \<in> set vs then Some (map_stake stakes v) else m v) \<and>
    unat t' = unat t + (\<Sum>v\<leftarrow>vs. unat (map_stake stakes v))"
  using assms
proof (induction vs arbitrary: m t)
  case Nil
  then show ?case by simp
next
  case (Cons v vs)
  then have v: "m v = None" "map_stake stakes v \<noteq> 0" "\<not> - 1 - t < map_stake stakes v"
    and IH: "order_stake stakes vs (m(v \<mapsto> map_stake stakes v)) (t + map_stake stakes v) = Inr (m', t')"
    by (auto simp: Let_def split: if_splits)
  note H = Cons.IH [OF IH]
  have "unat (map_stake stakes v + t) = unat (map_stake stakes v) + unat t"
    by (rule unat_add_guarded [OF v(3)])
  then show ?case using H v by (auto simp: fun_eq_iff add.commute split: if_splits)
qed

lemma stakeByValidatorOrder_Inr:
  assumes "stakeByValidatorOrder order stakes = Inr (m, t)"
  shows "distinct order" and "unat t = stake_of stakes (set order)"
    and "\<And>v. v \<in> set order \<Longrightarrow> m v = Some (map_stake stakes v)"
    and "\<And>v. v \<in> set order \<Longrightarrow> map_stake stakes v \<noteq> 0"
  using order_stake_Inr [of stakes order Map.empty 0 m t] assms
  by (auto simp: stakeByValidatorOrder_def stake_of_def sum_list_distinct_conv_sum_set split: if_splits)

lemma confirmed_stake_Inr:
  assumes "confirmed_stake m vs acc = Inr r" and "\<And>v. v \<in> set vs \<Longrightarrow> m v = Some (map_stake stakes v)"
  shows "unat r = unat acc + (\<Sum>v\<leftarrow>vs. unat (map_stake stakes v))"
  using assms
proof (induction vs arbitrary: acc)
  case Nil
  then show ?case by simp
next
  case (Cons v vs)
  then have v: "\<not> - 1 - acc < map_stake stakes v"
    and IH: "confirmed_stake m vs (acc + map_stake stakes v) = Inr r"
    by (auto split: if_splits)
  have "unat (map_stake stakes v + acc) = unat (map_stake stakes v) + unat acc"
    by (rule unat_add_guarded [OF v])
  then show ?case using Cons.IH [OF IH] Cons.prems(2) by (simp add: add.commute)
qed

lemma VerifyBLSAggregateWithStake_Inr:
  assumes "VerifyBLSAggregateWithStake lib c order keys stakes q = Inr u"
  shows "VerifyBLSAggregate lib c order keys = Inr ()"
    and "\<exists>m t. stakeByValidatorOrder order stakes = Inr (m, t) \<and> RequiredStake q t = Inr (qc_threshold c)"
    and "unat (qc_confirmed c) = stake_of stakes (set (qc_voters c))"
proof -
  obtain m t vs r where v: "VerifyBLSAggregate lib c order keys = Inr ()"
    and s: "stakeByValidatorOrder order stakes = Inr (m, t)" and q: "RequiredStake q t = Inr (qc_threshold c)"
    and vs: "votersFromBitmap order (qc_bitmap c) = Inr vs"
    and r: "confirmed_stake m vs 0 = Inr (qc_confirmed c)"
    using assms by (auto simp: VerifyBLSAggregateWithStake_def result_simps)
  note V = VerifyBLSAggregate_Inr [OF v]
  have vs': "vs = qc_voters c" using V(2) vs by simp
  have "distinct vs"
    using sort_voters(2) [OF Certificate_Validate_fields(1) [OF V(1)]] vs' by simp
  moreover have "unat (qc_confirmed c) = unat (0 :: u64) + (\<Sum>v\<leftarrow>vs. unat (map_stake stakes v))"
    using votersFromBitmap_subset [OF vs] stakeByValidatorOrder_Inr(3) [OF s]
    by (intro confirmed_stake_Inr [OF r]) blast
  ultimately show "unat (qc_confirmed c) = stake_of stakes (set (qc_voters c))"
    by (simp add: vs' stake_of_def sum_list_distinct_conv_sum_set)
  show "VerifyBLSAggregate lib c order keys = Inr ()"
    and "\<exists>m t. stakeByValidatorOrder order stakes = Inr (m, t) \<and> RequiredStake q t = Inr (qc_threshold c)"
    using v s q by blast+
qed

end
