(* ===== verification/Certificate_Safety.thy ===== *)
theory Certificate_Safety
  imports Bls_Certificates
begin

text \<open>
  What a node learns from quorum certificates it accepts. Certificates that conflict convict
  validators of double voting, and the aggregate that a collector attaches is accepted by every
  node that has the same validator set. What is assumed of the signature library is stated by
  two predicates on its functions.
\<close>

section \<open>Accountability\<close>

text \<open>
  What the checks rely on: an aggregate signature is accepted only when the holder of every key
  has endorsed its message.
\<close>

definition bls_unforgeable :: "('sk, 'pk) bls_library \<Rightarrow> ('pk \<Rightarrow> bytes \<Rightarrow> bool) \<Rightarrow> bool" where
  "bls_unforgeable lib endorsed \<longleftrightarrow>
     (\<forall>pks ms s. bls_verify_aggregate lib pks ms s \<longrightarrow> list_all2 endorsed pks ms)"

lemma voter_signed:
  assumes "VerifyBLSAggregate lib c order keys = Inr u" and "v \<in> set (qc_voters c)"
    and unforgeable: "bls_unforgeable lib endorsed"
  shows "\<exists>pk. voter_key lib keys v = Inr pk \<and> endorsed pk (BLSVoteMessage (certificate_vote c v))"
proof -
  obtain pks where pks: "rmap (voter_key lib keys) (qc_voters c) = Inr pks"
    and sig: "bls_verify_aggregate lib pks (map (\<lambda>v. BLSVoteMessage (certificate_vote c v)) (qc_voters c)) (qc_aggregate c)"
    using VerifyBLSAggregate_Inr(3) [OF assms(1)] by blast
  obtain i where i: "i < length (qc_voters c)" "qc_voters c ! i = v"
    using assms(2) by (metis in_set_conv_nth)
  have "voter_key lib keys v = Inr (pks ! i)" using rmap_nth [OF pks i(1)] i(2) by simp
  moreover have "endorsed (pks ! i) (BLSVoteMessage (certificate_vote c v))"
  proof -
    have "list_all2 endorsed pks (map (\<lambda>v. BLSVoteMessage (certificate_vote c v)) (qc_voters c))"
      using unforgeable sig unfolding bls_unforgeable_def by blast
    from list_all2_nthD [OF this, of i] show ?thesis using length_rmap [OF pks] i by simp
  qed
  ultimately show ?thesis by blast
qed

text \<open>
  The validators that signed two different votes of one slot and phase, for the keys that a node
  has registered for them.
\<close>

definition equivocators ::
    "('pk \<Rightarrow> bytes \<Rightarrow> bool) \<Rightarrow> ('sk, 'pk) bls_library \<Rightarrow> (gostring \<rightharpoonup> bytes) \<Rightarrow> gostring list \<Rightarrow> gostring set" where
  "equivocators endorsed lib keys order =
     {v \<in> set order. \<exists>pk a b. voter_key lib keys v = Inr pk \<and>
        endorsed pk (BLSVoteMessage a) \<and> endorsed pk (BLSVoteMessage b) \<and>
        v_voter a = v \<and> v_voter b = v \<and> v_slot a = v_slot b \<and>
        votePhaseForChoice (v_type a) = votePhaseForChoice (v_type b) \<and>
        (v_type a, v_height a, v_hash a) \<noteq> (v_type b, v_height b, v_hash b)}"

lemma equivocatorsI:
  assumes "v_voter a \<in> set order" and "voter_key lib keys (v_voter a) = Inr pk"
    and "endorsed pk (BLSVoteMessage a)" and "endorsed pk (BLSVoteMessage b)"
    and "v_voter b = v_voter a" and "v_slot a = v_slot b"
    and "votePhaseForChoice (v_type a) = votePhaseForChoice (v_type b)"
    and "(v_type a, v_height a, v_hash a) \<noteq> (v_type b, v_height b, v_hash b)"
  shows "v_voter a \<in> equivocators endorsed lib keys order"
  unfolding equivocators_def using assms by blast

lemma stake_of_mono: "finite T \<Longrightarrow> S \<subseteq> T \<Longrightarrow> stake_of stakes S \<le> stake_of stakes T"
  unfolding stake_of_def by (rule sum_mono2) auto

lemma stake_of_overlap:
  assumes "finite T" and "A \<subseteq> T" and "B \<subseteq> T"
  shows "stake_of stakes A + stake_of stakes B \<le> stake_of stakes T + stake_of stakes (A \<inter> B)"
proof -
  have "finite A" "finite B" using assms finite_subset by auto
  then have "stake_of stakes A + stake_of stakes B = stake_of stakes (A \<union> B) + stake_of stakes (A \<inter> B)"
    unfolding stake_of_def by (rule sum.union_inter [symmetric])
  also have "stake_of stakes (A \<union> B) \<le> stake_of stakes T"
    using assms by (intro stake_of_mono) auto
  finally show ?thesis by simp
qed

text \<open>The stake behind an accepted certificate, against the fraction the quorum asks for.\<close>

lemma accepted_stake:
  assumes "VerifyBLSAggregateWithStake lib c order keys stakes q = Inr u" and "q_strict q"
  shows "set (qc_voters c) \<subseteq> set order"
    and "stake_of stakes (set order) * unat (q_numerator q) <
      stake_of stakes (set (qc_voters c)) * unat (q_denominator q)"
proof -
  note V = VerifyBLSAggregateWithStake_Inr [OF assms(1)]
  note A = VerifyBLSAggregate_Inr [OF V(1)]
  note F = Certificate_Validate_fields [OF A(1)]
  show "set (qc_voters c) \<subseteq> set order" by (rule votersFromBitmap_subset [OF A(2)])
  obtain m t where s: "stakeByValidatorOrder order stakes = Inr (m, t)"
    and r: "RequiredStake q t = Inr (qc_threshold c)"
    using V(2) by blast
  have "unat (qc_threshold c) \<le> unat (qc_confirmed c)"
    using F(7) by (simp add: word_le_nat_alt)
  then have "unat t * unat (q_numerator q) < unat (qc_confirmed c) * unat (q_denominator q)"
    using RequiredStake_reached [OF r, of "unat (qc_confirmed c)"] F(6) assms(2) by auto
  then show "stake_of stakes (set order) * unat (q_numerator q) <
      stake_of stakes (set (qc_voters c)) * unat (q_denominator q)"
    using stakeByValidatorOrder_Inr(2) [OF s] V(3) by simp
qed

text \<open>Two parts of more than \<open>n/d\<close>, with \<open>n/d\<close> at least two thirds, overlap in more than a third.\<close>

lemma two_thirds_overlap:
  fixes t x y w n d :: nat
  assumes "t * n < x * d" and "t * n < y * d" and "x + y \<le> t + w" and "2 * d \<le> 3 * n"
  shows "t < 3 * w"
proof -
  have "2 * t * d \<le> 3 * (t * n)" using mult_le_mono2 [OF assms(4), of t] by (simp add: ac_simps)
  then have x: "2 * t * d < 3 * (x * d)" and y: "2 * t * d < 3 * (y * d)" using assms(1,2) by linarith+
  then have "2 * t < 3 * x" "2 * t < 3 * y" by (metis mult.assoc mult_less_cancel2)+
  with assms(3) show ?thesis by linarith
qed

lemma conflict_exposes:
  assumes c: "VerifyBLSAggregate lib c order keys = Inr u" and d: "VerifyBLSAggregate lib d order keys = Inr u'"
    and unforgeable: "bls_unforgeable lib endorsed"
    and conflict: "qc_slot c = qc_slot d" "votePhaseForChoice (qc_type c) = votePhaseForChoice (qc_type d)"
      "(qc_type c, qc_height c, qc_hash c) \<noteq> (qc_type d, qc_height d, qc_hash d)"
  shows "set (qc_voters c) \<inter> set (qc_voters d) \<subseteq> equivocators endorsed lib keys order"
proof
  fix v
  assume v: "v \<in> set (qc_voters c) \<inter> set (qc_voters d)"
  then have "v \<in> set order"
    using votersFromBitmap_subset [OF VerifyBLSAggregate_Inr(2) [OF c]] by blast
  moreover obtain pk where "voter_key lib keys v = Inr pk" "endorsed pk (BLSVoteMessage (certificate_vote c v))"
    using voter_signed [OF c _ unforgeable] v by blast
  moreover obtain pk' where "voter_key lib keys v = Inr pk'" "endorsed pk' (BLSVoteMessage (certificate_vote d v))"
    using voter_signed [OF d _ unforgeable] v by blast
  ultimately show "v \<in> equivocators endorsed lib keys order"
    using conflict equivocatorsI [of "certificate_vote c v" order lib keys pk endorsed "certificate_vote d v"]
    by (simp add: certificate_vote_def)
qed


text \<open>
  An instance for the checks below: the library accepts an aggregate when every pair of key and
  message is on a list of what was signed.
\<close>

definition listed_library :: "(bytes \<times> bytes) list \<Rightarrow> (bytes, bytes) bls_library" where
  "listed_library pairs =
     \<lparr>bls_private_key = Some, bls_public_key = Some, bls_sign = (\<lambda>sk m. m),
      bls_verify = (\<lambda>pk m s. (pk, m) \<in> set pairs), bls_aggregate = (\<lambda>ss. Some [1]),
      bls_verify_aggregate = (\<lambda>pks ms s. list_all2 (\<lambda>pk m. (pk, m) \<in> set pairs) pks ms)\<rparr>"

definition demo_order :: "gostring list" where
  "demo_order = [[97], [98], [99]]"

definition demo_certificate :: "hash \<Rightarrow> QuorumCertificate" where
  "demo_certificate h =
     \<lparr>qc_type = VoteTypeConfirm, qc_slot = 5, qc_height = 4, qc_hash = h, qc_threshold = 3,
      qc_confirmed = 3, qc_voters = demo_order, qc_created = 9, qc_scheme = BLSSignatureSchemeBasic,
      qc_aggregate = [1], qc_bitmap = [7]\<rparr>"

definition demo_pairs :: "(bytes \<times> bytes) list" where
  "demo_pairs = map (\<lambda>v. (v, BLSVoteMessage (certificate_vote (demo_certificate 1) v))) demo_order @
     map (\<lambda>v. (v, BLSVoteMessage (certificate_vote (demo_certificate 2) v))) demo_order"

definition demo_quorum :: Quorum where
  "demo_quorum = \<lparr>q_numerator = 2, q_denominator = 3, q_strict = True\<rparr>"

lemma demo_accepted:
  "VerifyBLSAggregateWithStake (listed_library demo_pairs) (demo_certificate 1) demo_order (\<lambda>v. Some v)
     (\<lambda>v. Some 1) demo_quorum = Inr ()"
  "VerifyBLSAggregateWithStake (listed_library demo_pairs) (demo_certificate 2) demo_order (\<lambda>v. Some v)
     (\<lambda>v. Some 1) demo_quorum = Inr ()"
  by code_simp+


section \<open>An attached aggregate is accepted\<close>

text \<open>
  What the collector relies on: an aggregate of signatures that verify one by one, of different
  messages, verifies as a whole.
\<close>

definition bls_complete :: "('sk, 'pk) bls_library \<Rightarrow> bool" where
  "bls_complete lib \<longleftrightarrow>
     (\<forall>pks ms ss a. length pks = length ms \<longrightarrow> length ss = length ms \<longrightarrow> distinct ms \<longrightarrow>
        (\<forall>i < length ms. bls_verify lib (pks ! i) (ms ! i) (ss ! i)) \<longrightarrow>
        bls_aggregate lib ss = Some a \<longrightarrow> bls_verify_aggregate lib pks ms a)"

text \<open>The vote of a voter that a certificate counts, and its signature, as the collector saw them.\<close>

definition counted_vote ::
    "('sk, 'pk) bls_library \<Rightarrow> (gostring \<rightharpoonup> bytes) \<Rightarrow> QuorumCertificate \<Rightarrow> (gostring \<times> bytes) list \<Rightarrow> gostring \<Rightarrow> bool" where
  "counted_vote lib keys c sigs v \<longleftrightarrow>
     (\<exists>vote key. v_type vote = qc_type c \<and> v_slot vote = qc_slot c \<and> v_height vote = qc_height c \<and>
        v_hash vote = qc_hash c \<and> v_voter vote = v \<and> keys v = Some key \<and> key \<noteq> [] \<and>
        VerifyBLSVote lib key (map_bytes sigs v) vote = Inr ())"

lemma counted_vote_key:
  assumes "counted_vote lib keys c sigs v"
  shows "\<exists>pk. voter_key lib keys v = Inr pk \<and>
    bls_verify lib pk (BLSVoteMessage (certificate_vote c v)) (map_bytes sigs v)"
proof -
  obtain vote key where vote: "v_type vote = qc_type c" "v_slot vote = qc_slot c" "v_height vote = qc_height c"
      "v_hash vote = qc_hash c" "v_voter vote = v" and key: "keys v = Some key" "key \<noteq> []"
    and ok: "VerifyBLSVote lib key (map_bytes sigs v) vote = Inr ()"
    using assms unfolding counted_vote_def by blast
  have "BLSVoteMessage vote = BLSVoteMessage (certificate_vote c v)"
    using vote by (simp add: BLSVoteMessage_inject certificate_vote_def)
  with ok key show ?thesis
    by (auto simp: VerifyBLSVote_def voter_key_def result_simps split: if_splits)
qed

lemma rmap_total: "\<forall>x \<in> set xs. \<exists>y. f x = Inr y \<Longrightarrow> \<exists>ys. rmap f xs = Inr ys"
  by (induction xs) auto

lemma attached_verifies:
  assumes "bls_complete lib" and attach: "AttachBLSAggregate lib c order sigs = Inr d"
    and votes: "\<forall>v \<in> set (qc_voters c). counted_vote lib keys c sigs v"
  shows "VerifyBLSAggregate lib d order keys = Inr ()"
proof -
  note A = AttachBLSAggregate_Inr [OF attach]
  obtain a bitmap where d: "d = c\<lparr>qc_scheme := BLSSignatureSchemeBasic, qc_aggregate := a, qc_bitmap := bitmap\<rparr>"
    and a: "bls_aggregate lib (map (map_bytes sigs) (qc_voters c)) = Some a"
    using A(3) by blast
  let ?vs = "qc_voters c" and ?m = "\<lambda>v. BLSVoteMessage (certificate_vote c v)"
  have md: "BLSVoteMessage (certificate_vote d v) = ?m v" for v
    by (simp add: d certificate_vote_def)
  have dist: "distinct ?vs"
    using sort_voters(2) [OF Certificate_Validate_fields(1) [OF A(5)]] d by simp
  then have "distinct (map ?m ?vs)"
    by (auto simp: distinct_map inj_on_def BLSVoteMessage_inject certificate_vote_def)
  moreover obtain pks where pks: "rmap (voter_key lib keys) ?vs = Inr pks"
    using rmap_total [of ?vs "voter_key lib keys"] votes counted_vote_key by blast
  moreover have "bls_verify lib (pks ! i) (map ?m ?vs ! i) (map (map_bytes sigs) ?vs ! i)" if i: "i < length ?vs" for i
  proof -
    have "counted_vote lib keys c sigs (?vs ! i)" using votes i by simp
    from counted_vote_key [OF this] rmap_nth [OF pks i] show ?thesis using i by auto
  qed
  ultimately have "bls_verify_aggregate lib pks (map ?m ?vs) a"
    using assms(1) a length_rmap [OF pks] unfolding bls_complete_def by (metis length_map)
  moreover have "sameStringSet (qc_voters d) (qc_voters d)" by (simp add: sameStringSet_def)
  ultimately show ?thesis
    using A(4,5) pks md by (simp add: VerifyBLSAggregate_def Let_def) (simp add: d)
qed

end
