(* ===== verification/Vote_Collector.thy ===== *)
theory Vote_Collector
  imports Certificate_Safety "HOL-Library.AList"
begin

text \<open>
  The vote collector of \<open>consensus/slot.go\<close>: it counts the stake of the votes for each block of a
  slot, refuses a validator's second choice, and issues a quorum certificate when a block first
  reaches its threshold and once more when all the stake has voted. Every exported method holds
  the mutex for its whole body, so a run of the collector is a sequence of calls of \<open>addVote\<close>.
\<close>

section \<open>Model\<close>

record voteKey =
  vk_slot :: u64
  vk_type :: vote_type
  vk_hash :: hash

record voterChoiceKey =
  ck_slot :: u64
  ck_phase :: vote_phase
  ck_voter :: gostring

record voteChoice =
  ch_type :: vote_type
  ch_height :: u64
  ch_hash :: hash

text \<open>The set of voters and the map of signatures are lists without repeated keys.\<close>

record voteBucket =
  b_height :: u64
  b_stake :: u64
  b_voters :: "gostring list"
  b_signatures :: "(gostring \<times> bytes) list"
  b_created :: u64

record VoteCollector =
  vc_stake :: "gostring \<rightharpoonup> u64"
  vc_confirm :: u64
  vc_timeout :: u64
  vc_total :: u64
  vc_buckets :: "voteKey \<rightharpoonup> voteBucket"
  vc_choices :: "voterChoiceKey \<rightharpoonup> voteChoice"

text \<open>
  The loop of \<open>normalizeValidatorStake\<close>. A Go map is given by the list of its entries, in the
  order in which this run of the program happens to visit them.
\<close>

fun normalize_stake ::
    "(gostring \<times> u64) list \<Rightarrow> (gostring \<rightharpoonup> u64) \<Rightarrow> u64 \<Rightarrow> consensus_error + (gostring \<rightharpoonup> u64) \<times> u64" where
  "normalize_stake [] normalized totalStake = Inr (normalized, totalStake)"
| "normalize_stake ((validatorID, stake) # rest) normalized totalStake =
     (if blank validatorID \<or> maxConsensusTextLength < length validatorID
      then Inl (ErrInvalidVote ''invalid validator id'')
      else if stake = 0 then Inl (ErrInvalidVote ''zero validator stake'')
      else if - 1 - totalStake < stake then Inl (ErrInvalidVote ''total stake overflow'')
      else normalize_stake rest (normalized(validatorID \<mapsto> stake)) (totalStake + stake))"

definition normalizeValidatorStake ::
    "(gostring \<times> u64) list \<Rightarrow> consensus_error + (gostring \<rightharpoonup> u64) \<times> u64" where
  "normalizeValidatorStake validatorStake =
     (if length validatorStake = 0 then Inl (ErrInvalidVote ''empty validator set'')
      else normalize_stake validatorStake Map.empty 0)"

definition NewVoteCollectorWithQuorums ::
    "(gostring \<times> u64) list \<Rightarrow> Quorum \<Rightarrow> Quorum \<Rightarrow> consensus_error + VoteCollector" where
  "NewVoteCollectorWithQuorums validatorStake confirmQuorum timeoutQuorum =
     rbind (normalizeValidatorStake validatorStake) (\<lambda>(normalizedStake, totalStake).
     rbind (RequiredStake confirmQuorum totalStake) (\<lambda>confirmThresholdStake.
     rbind (RequiredStake timeoutQuorum totalStake) (\<lambda>timeoutThresholdStake.
       let intersectionStake =
             (if totalStake - timeoutThresholdStake < confirmThresholdStake
              then confirmThresholdStake - (totalStake - timeoutThresholdStake) else 0);
           maximumByzantineStake = (totalStake - 1) div 3
       in if intersectionStake \<le> maximumByzantineStake
          then Inl (ErrInvalidQuorum ''confirm and timeout thresholds lack an honest intersection'')
          else Inr \<lparr>vc_stake = normalizedStake, vc_confirm = confirmThresholdStake,
                    vc_timeout = timeoutThresholdStake, vc_total = totalStake,
                    vc_buckets = Map.empty, vc_choices = Map.empty\<rparr>)))"

definition NewVoteCollector :: "(gostring \<times> u64) list \<Rightarrow> Quorum \<Rightarrow> consensus_error + VoteCollector" where
  "NewVoteCollector validatorStake quorum = NewVoteCollectorWithQuorums validatorStake quorum quorum"

definition empty_bucket :: voteBucket where
  "empty_bucket = \<lparr>b_height = 0, b_stake = 0, b_voters = [], b_signatures = [], b_created = 0\<rparr>"

text \<open>\<open>collector.bucket(key)\<close> also stores the bucket it makes.\<close>

definition collector_bucket :: "VoteCollector \<Rightarrow> voteKey \<Rightarrow> VoteCollector \<times> voteBucket" where
  "collector_bucket collector key =
     (case vc_buckets collector key of
        Some bucket \<Rightarrow> (collector, bucket)
      | None \<Rightarrow> (collector\<lparr>vc_buckets := (vc_buckets collector)(key \<mapsto> empty_bucket)\<rparr>, empty_bucket))"

definition thresholdStakeForVoteType :: "VoteCollector \<Rightarrow> vote_type \<Rightarrow> u64" where
  "thresholdStakeForVoteType collector voteType =
     (if voteType = VoteTypeSkip then vc_timeout collector else vc_confirm collector)"

definition ThresholdStake :: "VoteCollector \<Rightarrow> u64" where
  "ThresholdStake collector = vc_confirm collector"

definition TotalStake :: "VoteCollector \<Rightarrow> u64" where
  "TotalStake collector = vc_total collector"

definition bucket_certificate :: "voteKey \<Rightarrow> voteBucket \<Rightarrow> u64 \<Rightarrow> QuorumCertificate" where
  "bucket_certificate key bucket thresholdStake =
     \<lparr>qc_type = vk_type key, qc_slot = vk_slot key, qc_height = b_height bucket, qc_hash = vk_hash key,
      qc_threshold = thresholdStake, qc_confirmed = b_stake bucket, qc_voters = sort (b_voters bucket),
      qc_created = b_created bucket, qc_scheme = [], qc_aggregate = [], qc_bitmap = []\<rparr>"

definition vote_key :: "Vote \<Rightarrow> voteKey" where
  "vote_key vote = \<lparr>vk_slot = v_slot vote, vk_type = v_type vote, vk_hash = v_hash vote\<rparr>"

definition choice_key :: "Vote \<Rightarrow> voterChoiceKey" where
  "choice_key vote =
     \<lparr>ck_slot = v_slot vote, ck_phase = votePhaseForChoice (v_type vote), ck_voter = v_voter vote\<rparr>"

definition vote_choice :: "Vote \<Rightarrow> voteChoice" where
  "vote_choice vote = \<lparr>ch_type = v_type vote, ch_height = v_height vote, ch_hash = v_hash vote\<rparr>"

text \<open>The assignments to the bucket, and the assignment of the choice.\<close>

definition count_vote :: "voteBucket \<Rightarrow> Vote \<Rightarrow> u64 \<Rightarrow> bytes \<Rightarrow> voteBucket" where
  "count_vote bucket vote registeredStake blsSignature =
     bucket\<lparr>b_stake := b_stake bucket + registeredStake,
            b_height := v_height vote,
            b_voters := List.insert (v_voter vote) (b_voters bucket),
            b_signatures :=
              (if 0 < length blsSignature
               then AList.update (v_voter vote) blsSignature (b_signatures bucket)
               else b_signatures bucket),
            b_created :=
              (if sint (b_created bucket) < sint (v_created vote) then v_created vote else b_created bucket)\<rparr>"

text \<open>
  \<open>addVote\<close> returns the collector it leaves behind, and the error, no certificate, or the
  certificate. The collector is changed even when the aggregate cannot be attached.
\<close>

definition addVote ::
    "('sk, 'pk) bls_library \<Rightarrow> VoteCollector \<Rightarrow> Vote \<Rightarrow> bytes \<Rightarrow> gostring list \<Rightarrow>
     VoteCollector \<times> (consensus_error + QuorumCertificate option)" where
  "addVote lib collector vote blsSignature validatorOrder =
     (case Vote_Validate vote of Inl e \<Rightarrow> (collector, Inl e) | Inr _ \<Rightarrow>
     (case vc_stake collector (v_voter vote) of
        None \<Rightarrow> (collector, Inl (ErrUnknownValidator (v_voter vote)))
      | Some registeredStake \<Rightarrow>
     if registeredStake \<noteq> v_stake vote then (collector, Inl (ErrInvalidVote ''stake mismatch''))
     else
     (case vc_choices collector (choice_key vote) of
        Some existingChoice \<Rightarrow>
          if ch_type existingChoice = v_type vote \<and> ch_height existingChoice = v_height vote \<and>
             ch_hash existingChoice = v_hash vote
          then (collector, Inl ErrDuplicateVote) else (collector, Inl ErrConflictingVote)
      | None \<Rightarrow>
     (let key = vote_key vote;
          (collector, bucket) = collector_bucket collector key
      in if b_height bucket \<noteq> 0 \<and> b_height bucket \<noteq> v_height vote
         then (collector, Inl (ErrInvalidVote ''block height mismatch''))
         else
         let previousStake = b_stake bucket;
             bucket = count_vote bucket vote registeredStake blsSignature;
             collector = collector\<lparr>vc_buckets := (vc_buckets collector)(key \<mapsto> bucket),
                                   vc_choices := (vc_choices collector)(choice_key vote \<mapsto> vote_choice vote)\<rparr>;
             thresholdStake = thresholdStakeForVoteType collector (v_type vote)
         in if b_stake bucket < thresholdStake then (collector, Inr None)
            else if thresholdStake \<le> previousStake \<and> b_stake bucket < vc_total collector
            then (collector, Inr None)
            else
            let certificate = bucket_certificate key bucket thresholdStake
            in if length validatorOrder = 0 \<or> length (b_signatures bucket) \<noteq> length (b_voters bucket)
               then (collector, Inr (Some certificate))
               else (collector,
                 rbind (AttachBLSAggregate lib certificate validatorOrder (b_signatures bucket))
                   (\<lambda>c. Inr (Some c)))))))"

definition AddVote ::
    "('sk, 'pk) bls_library \<Rightarrow> VoteCollector \<Rightarrow> Vote \<Rightarrow>
     VoteCollector \<times> (consensus_error + QuorumCertificate option)" where
  "AddVote lib collector vote = addVote lib collector vote [] []"

definition AddVoteWithBLS ::
    "('sk, 'pk) bls_library \<Rightarrow> VoteCollector \<Rightarrow> Vote \<Rightarrow> bytes \<Rightarrow> gostring list \<Rightarrow>
     VoteCollector \<times> (consensus_error + QuorumCertificate option)" where
  "AddVoteWithBLS lib collector vote blsSignature validatorOrder =
     (if length blsSignature = 0 then (collector, Inl (ErrInvalidVote ''missing bls vote signature''))
      else if length validatorOrder = 0 then (collector, Inl (ErrInvalidVote ''missing validator order''))
      else addVote lib collector vote blsSignature validatorOrder)"

end
