(* ===== verification/Collector_Invariant.thy ===== *)
theory Collector_Invariant
  imports Vote_Collector
begin

text \<open>
  Runs of the vote collector and the invariant that every call keeps: the stake of a bucket is the
  stake of its voters, and its voters are the validators whose recorded choice it is. A
  certificate, once issued, stays backed by the bucket it came from.
\<close>

section \<open>One call\<close>

text \<open>
  A call either counts the vote or leaves the collector as it is and returns an error.
\<close>

definition bucket_of :: "VoteCollector \<Rightarrow> voteKey \<Rightarrow> voteBucket" where
  "bucket_of c k = (case vc_buckets c k of None \<Rightarrow> empty_bucket | Some b \<Rightarrow> b)"

definition vote_counts :: "VoteCollector \<Rightarrow> Vote \<Rightarrow> bool" where
  "vote_counts c v \<longleftrightarrow>
     Vote_Validate v = Inr () \<and> vc_stake c (v_voter v) = Some (v_stake v) \<and>
     vc_choices c (choice_key v) = None \<and>
     (b_height (bucket_of c (vote_key v)) = 0 \<or> b_height (bucket_of c (vote_key v)) = v_height v)"

abbreviation new_bucket :: "VoteCollector \<Rightarrow> Vote \<Rightarrow> bytes \<Rightarrow> voteBucket" where
  "new_bucket c v sig \<equiv> count_vote (bucket_of c (vote_key v)) v (v_stake v) sig"

definition counted :: "VoteCollector \<Rightarrow> Vote \<Rightarrow> bytes \<Rightarrow> VoteCollector" where
  "counted c v sig =
     c\<lparr>vc_buckets := (vc_buckets c)(vote_key v \<mapsto> new_bucket c v sig),
       vc_choices := (vc_choices c)(choice_key v \<mapsto> vote_choice v)\<rparr>"

abbreviation vote_threshold :: "VoteCollector \<Rightarrow> Vote \<Rightarrow> u64" where
  "vote_threshold c v \<equiv> thresholdStakeForVoteType c (v_type v)"

text \<open>A certificate is due when the threshold is crossed, and when all the stake has voted.\<close>

definition certificate_due :: "VoteCollector \<Rightarrow> Vote \<Rightarrow> bytes \<Rightarrow> bool" where
  "certificate_due c v sig \<longleftrightarrow>
     vote_threshold c v \<le> b_stake (new_bucket c v sig) \<and>
     (b_stake (bucket_of c (vote_key v)) < vote_threshold c v \<or> vc_total c \<le> b_stake (new_bucket c v sig))"

definition issue ::
    "('sk, 'pk) bls_library \<Rightarrow> VoteCollector \<Rightarrow> Vote \<Rightarrow> bytes \<Rightarrow> gostring list \<Rightarrow> consensus_error + QuorumCertificate" where
  "issue lib c v sig order =
     (let b = new_bucket c v sig;
          certificate = bucket_certificate (vote_key v) b (vote_threshold c v)
      in if length order = 0 \<or> length (b_signatures b) \<noteq> length (b_voters b) then Inr certificate
         else AttachBLSAggregate lib certificate order (b_signatures b))"

lemma threshold_update [simp]:
  "thresholdStakeForVoteType (c\<lparr>vc_buckets := x\<rparr>) = thresholdStakeForVoteType c"
  "thresholdStakeForVoteType (c\<lparr>vc_choices := y\<rparr>) = thresholdStakeForVoteType c"
  by (simp_all add: thresholdStakeForVoteType_def fun_eq_iff)

lemma collector_bucket_eq:
  "collector_bucket c k =
     (c\<lparr>vc_buckets := (vc_buckets c)(k \<mapsto> bucket_of c k)\<rparr>, bucket_of c k)"
  by (cases "vc_buckets c k") (auto simp: collector_bucket_def bucket_of_def fun_upd_idem)

lemma addVote_counted:
  assumes "vote_counts c v"
  shows "addVote lib c v sig order =
    (counted c v sig,
     if certificate_due c v sig then rbind (issue lib c v sig order) (\<lambda>d. Inr (Some d)) else Inr None)"
proof -
  define b where "b = bucket_of c (vote_key v)"
  define n where "n = count_vote b v (v_stake v) sig"
  define t where "t = vote_threshold c v"
  have f: "Vote_Validate v = Inr ()" "vc_stake c (v_voter v) = Some (v_stake v)"
      "vc_choices c (choice_key v) = None" "\<not> (b_height b \<noteq> 0 \<and> b_height b \<noteq> v_height v)"
    using assms by (auto simp: vote_counts_def b_def)
  have "addVote lib c v sig order =
      (if b_stake n < t then (counted c v sig, Inr None)
       else if t \<le> b_stake b \<and> b_stake n < vc_total c then (counted c v sig, Inr None)
       else (let d = bucket_certificate (vote_key v) n t
             in if length order = 0 \<or> length (b_signatures n) \<noteq> length (b_voters n)
                then (counted c v sig, Inr (Some d))
                else (counted c v sig, rbind (AttachBLSAggregate lib d order (b_signatures n)) (\<lambda>c. Inr (Some c)))))"
    unfolding addVote_def f sum.case option.case collector_bucket_eq Let_def split_conv b_def [symmetric] if_not_P [OF f(4)]
    by (simp add: counted_def n_def t_def b_def)
  moreover have "certificate_due c v sig \<longleftrightarrow> \<not> b_stake n < t \<and> \<not> (t \<le> b_stake b \<and> b_stake n < vc_total c)"
    unfolding certificate_due_def b_def n_def t_def by (auto simp: not_less not_le)
  moreover have "issue lib c v sig order =
      (let d = bucket_certificate (vote_key v) n t
       in if length order = 0 \<or> length (b_signatures n) \<noteq> length (b_voters n) then Inr d
          else AttachBLSAggregate lib d order (b_signatures n))"
    unfolding issue_def b_def n_def t_def by (simp add: Let_def)
  ultimately show ?thesis by (simp add: Let_def)
qed

lemma addVote_refused:
  assumes "\<not> vote_counts c v"
  shows "\<exists>e. addVote lib c v sig order = (c, Inl e)"
  using assms
  by (auto simp: addVote_def vote_counts_def collector_bucket_def bucket_of_def empty_bucket_def Let_def
      split: sum.splits option.splits)

text \<open>A run: calls one after another, with what each returned.\<close>

fun collect ::
    "('sk, 'pk) bls_library \<Rightarrow> VoteCollector \<Rightarrow> (Vote \<times> bytes \<times> gostring list) list \<Rightarrow>
     VoteCollector \<times> (consensus_error + QuorumCertificate option) list" where
  "collect lib c [] = (c, [])"
| "collect lib c ((v, sig, order) # calls) =
     (let (c1, r) = addVote lib c v sig order; (c2, rs) = collect lib c1 calls in (c2, r # rs))"

inductive collector_step :: "('sk, 'pk) bls_library \<Rightarrow> VoteCollector \<Rightarrow> VoteCollector \<Rightarrow> bool" for lib where
  call: "collector_step lib c (fst (addVote lib c v sig order))"

lemma collect_steps: "(collector_step lib)\<^sup>*\<^sup>* c (fst (collect lib c calls))"
proof (induction calls arbitrary: c)
  case Nil
  then show ?case by simp
next
  case (Cons x calls)
  obtain v sig order where x: "x = (v, sig, order)" by (cases x)
  have "collector_step lib c (fst (addVote lib c v sig order))" by (rule call)
  moreover have "(collector_step lib)\<^sup>*\<^sup>* (fst (addVote lib c v sig order)) (fst (collect lib c (x # calls)))"
    using Cons.IH [of "fst (addVote lib c v sig order)"] by (simp add: x Let_def split_def)
  ultimately show ?case by (rule converse_rtranclp_into_rtranclp)
qed

section \<open>The invariant\<close>

definition bucket_ok :: "(gostring \<rightharpoonup> u64) \<Rightarrow> voteBucket \<Rightarrow> bool" where
  "bucket_ok stakes b \<longleftrightarrow>
     distinct (b_voters b) \<and> set (b_voters b) \<subseteq> dom stakes \<and>
     unat (b_stake b) = stake_of stakes (set (b_voters b)) \<and>
     distinct (map fst (b_signatures b)) \<and> fst ` set (b_signatures b) \<subseteq> set (b_voters b)"

text \<open>The choice that a voter of a bucket has made, and the key it is filed under.\<close>

abbreviation voter_key_of :: "voteKey \<Rightarrow> gostring \<Rightarrow> voterChoiceKey" where
  "voter_key_of k w \<equiv> \<lparr>ck_slot = vk_slot k, ck_phase = votePhaseForChoice (vk_type k), ck_voter = w\<rparr>"

abbreviation bucket_choice :: "voteKey \<Rightarrow> voteBucket \<Rightarrow> voteChoice" where
  "bucket_choice k b \<equiv> \<lparr>ch_type = vk_type k, ch_height = b_height b, ch_hash = vk_hash k\<rparr>"

abbreviation chosen_key :: "voterChoiceKey \<Rightarrow> voteChoice \<Rightarrow> voteKey" where
  "chosen_key ck ch \<equiv> \<lparr>vk_slot = ck_slot ck, vk_type = ch_type ch, vk_hash = ch_hash ch\<rparr>"

definition collector_inv :: "VoteCollector \<Rightarrow> bool" where
  "collector_inv c \<longleftrightarrow>
     finite (dom (vc_stake c)) \<and> unat (vc_total c) = stake_of (vc_stake c) (dom (vc_stake c)) \<and>
     (\<forall>k b. vc_buckets c k = Some b \<longrightarrow> bucket_ok (vc_stake c) b \<and> b_height b \<noteq> 0 \<and>
        (\<forall>w. w \<in> set (b_voters b) \<longleftrightarrow> vc_choices c (voter_key_of k w) = Some (bucket_choice k b))) \<and>
     (\<forall>ck ch. vc_choices c ck = Some ch \<longrightarrow>
        ck_phase ck = votePhaseForChoice (ch_type ch) \<and>
        (\<exists>b. vc_buckets c (chosen_key ck ch) = Some b \<and> b_height b = ch_height ch))"

lemma collector_invD:
  assumes "collector_inv c"
  shows "finite (dom (vc_stake c))" and "unat (vc_total c) = stake_of (vc_stake c) (dom (vc_stake c))"
    and "\<And>k b. vc_buckets c k = Some b \<Longrightarrow> bucket_ok (vc_stake c) b \<and> b_height b \<noteq> 0"
    and "\<And>k b w. vc_buckets c k = Some b \<Longrightarrow>
      w \<in> set (b_voters b) \<longleftrightarrow> vc_choices c (voter_key_of k w) = Some (bucket_choice k b)"
    and "\<And>ck ch. vc_choices c ck = Some ch \<Longrightarrow> ck_phase ck = votePhaseForChoice (ch_type ch)"
    and "\<And>ck ch. vc_choices c ck = Some ch \<Longrightarrow>
      \<exists>b. vc_buckets c (chosen_key ck ch) = Some b \<and> b_height b = ch_height ch"
  using assms unfolding collector_inv_def by blast+

lemma bucket_ok_of:
  assumes "collector_inv c"
  shows "bucket_ok (vc_stake c) (bucket_of c k)"
  using assms
  by (auto simp: collector_inv_def bucket_of_def empty_bucket_def bucket_ok_def stake_of_def split: option.splits)

text \<open>The stake of a bucket never exceeds the total, so counting a vote does not wrap around.\<close>

lemma count_vote_ok:
  assumes fin: "finite (dom stakes)" and total: "stake_of stakes (dom stakes) < 2 ^ 64"
    and b: "bucket_ok stakes b" and v: "stakes (v_voter v) = Some s" "v_voter v \<notin> set (b_voters b)"
  shows "bucket_ok stakes (count_vote b v s sig)"
    and "unat (b_stake (count_vote b v s sig)) = unat (b_stake b) + unat s"
proof -
  let ?S = "insert (v_voter v) (set (b_voters b))"
  have ins: "stake_of stakes ?S = unat s + stake_of stakes (set (b_voters b))"
    using v by (simp add: stake_of_def map_stake_def)
  have sub: "?S \<subseteq> dom stakes" using b v by (auto simp: bucket_ok_def)
  have "stake_of stakes ?S < 2 ^ 64"
    using stake_of_mono [OF fin sub, of stakes] total by simp
  then show add: "unat (b_stake (count_vote b v s sig)) = unat (b_stake b) + unat s"
    using ins b by (simp add: count_vote_def bucket_ok_def unat_word_ariths)
  then show "bucket_ok stakes (count_vote b v s sig)"
    using ins b v(1) add by (auto simp: count_vote_def bucket_ok_def dom_update distinct_update)
qed

lemma fresh_voter:
  assumes "collector_inv c" and "vc_choices c (choice_key v) = None"
  shows "v_voter v \<notin> set (b_voters (bucket_of c (vote_key v)))"
  using assms
  by (auto simp: collector_inv_def bucket_of_def empty_bucket_def choice_key_def vote_key_def split: option.splits)

lemma unat_total: "collector_inv c \<Longrightarrow> stake_of (vc_stake c) (dom (vc_stake c)) < 2 ^ 64"
  using unsigned_less [of "vc_total c", where 'a = nat] by (simp add: collector_inv_def)

lemma new_bucket_ok:
  assumes "collector_inv c" and "vote_counts c v"
  shows "bucket_ok (vc_stake c) (new_bucket c v sig)"
    and "unat (b_stake (new_bucket c v sig)) = unat (b_stake (bucket_of c (vote_key v))) + unat (v_stake v)"
    and "set (b_voters (new_bucket c v sig)) = insert (v_voter v) (set (b_voters (bucket_of c (vote_key v))))"
    and "b_height (new_bucket c v sig) = v_height v"
proof -
  have v: "vc_stake c (v_voter v) = Some (v_stake v)" "vc_choices c (choice_key v) = None"
    using assms(2) by (simp_all add: vote_counts_def)
  have fin: "finite (dom (vc_stake c))" using assms(1) by (simp add: collector_inv_def)
  note ok = count_vote_ok [OF fin unat_total [OF assms(1)] bucket_ok_of [OF assms(1)] v(1) fresh_voter [OF assms(1) v(2)]]
  show "bucket_ok (vc_stake c) (new_bucket c v sig)" by (rule ok(1))
  show "unat (b_stake (new_bucket c v sig)) = unat (b_stake (bucket_of c (vote_key v))) + unat (v_stake v)"
    by (rule ok(2))
qed (simp_all add: count_vote_def)

lemma vote_height: "vote_counts c v \<Longrightarrow> v_height v \<noteq> 0"
  by (auto simp: vote_counts_def Vote_Validate_def split: if_splits)

lemma vote_key_simps:
  "voter_key_of (vote_key v) (v_voter v) = choice_key v"
  "vk_slot (vote_key v) = v_slot v" "vk_type (vote_key v) = v_type v" "vk_hash (vote_key v) = v_hash v"
  "chosen_key (choice_key v) (vote_choice v) = vote_key v"
  "ck_phase (choice_key v) = votePhaseForChoice (ch_type (vote_choice v))" "ch_height (vote_choice v) = v_height v"
  by (simp_all add: vote_key_def choice_key_def vote_choice_def)

text \<open>Filing a new choice does not change who is a voter of another bucket.\<close>

lemma other_bucket_choice:
  assumes "voter_key_of k w = choice_key v" and "bucket_choice k b = vote_choice v"
  shows "k = vote_key v"
  using assms by (cases k) (simp add: choice_key_def vote_choice_def vote_key_def)

lemma counted_voters:
  assumes inv: "collector_inv c" and v: "vote_counts c v"
    and k: "vc_buckets (counted c v sig) k = Some b"
  shows "w \<in> set (b_voters b) \<longleftrightarrow>
    vc_choices (counted c v sig) (voter_key_of k w) = Some (bucket_choice k b)"
proof (cases "k = vote_key v")
  case False
  then have old: "vc_buckets c k = Some b" using k by (simp add: counted_def)
  have none: "vc_choices c (choice_key v) = None" using v by (simp add: vote_counts_def)
  show ?thesis
  proof (cases "voter_key_of k w = choice_key v")
    case True
    then have "bucket_choice k b \<noteq> vote_choice v" using other_bucket_choice False by blast
    then show ?thesis
      using collector_invD(4) [OF inv old, of w] none True by (auto simp add: counted_def)
  next
    case False
    then show ?thesis using collector_invD(4) [OF inv old, of w] by (simp add: counted_def)
  qed
next
  case True
  let ?b = "bucket_of c (vote_key v)"
  have b: "b = new_bucket c v sig" using k True by (simp add: counted_def)
  have n: "set (b_voters b) = insert (v_voter v) (set (b_voters ?b))" "bucket_choice k b = vote_choice v"
    using new_bucket_ok(3,4) [OF inv v, of sig] b True by (simp_all add: vote_key_def vote_choice_def)
  have old: "w \<in> set (b_voters ?b) \<longleftrightarrow> vc_choices c (voter_key_of k w) = Some (vote_choice v)"
  proof (cases "vc_buckets c (vote_key v)")
    case None
    have "vc_choices c (voter_key_of k w) \<noteq> Some (vote_choice v)"
      using collector_invD(6) [OF inv, of "voter_key_of k w" "vote_choice v"] None True
      by (auto simp: vote_key_def vote_choice_def)
    then show ?thesis by (simp add: bucket_of_def None empty_bucket_def)
  next
    case (Some b0)
    then have "b_height b0 = v_height v"
      using v collector_invD(3) [OF inv Some] by (simp add: vote_counts_def bucket_of_def)
    then have "bucket_choice k b0 = vote_choice v" using True by (simp add: vote_key_def vote_choice_def)
    then show ?thesis using collector_invD(4) [OF inv Some, of w] True Some by (simp add: bucket_of_def)
  qed
  show ?thesis
  proof (cases "w = v_voter v")
    case True
    then have "voter_key_of k w = choice_key v"
      using \<open>k = vote_key v\<close> by (simp add: vote_key_def choice_key_def)
    then show ?thesis using n True by (simp add: counted_def)
  next
    case False
    then have "voter_key_of k w \<noteq> choice_key v" by (simp add: choice_key_def)
    then show ?thesis using n old False by (simp add: counted_def)
  qed
qed

lemma counted_choices:
  assumes inv: "collector_inv c" and v: "vote_counts c v"
    and ck: "vc_choices (counted c v sig) ck = Some ch"
  shows "ck_phase ck = votePhaseForChoice (ch_type ch) \<and>
    (\<exists>b. vc_buckets (counted c v sig) (chosen_key ck ch) = Some b \<and> b_height b = ch_height ch)"
proof (cases "ck = choice_key v")
  case True
  then have "ch = vote_choice v" using ck by (simp add: counted_def)
  then show ?thesis
    using True new_bucket_ok(4) [OF inv v, of sig] by (simp add: counted_def vote_key_simps)
next
  case False
  then have ch: "vc_choices c ck = Some ch" using ck by (simp add: counted_def)
  from collector_invD(6) [OF inv ch] obtain b
    where b: "vc_buckets c (chosen_key ck ch) = Some b" "b_height b = ch_height ch" by blast
  have "b_height b = v_height v" if "chosen_key ck ch = vote_key v"
    using b v collector_invD(3) [OF inv b(1)] that by (simp add: vote_counts_def bucket_of_def)
  then show ?thesis
    using collector_invD(5) [OF inv ch] b new_bucket_ok(4) [OF inv v, of sig]
    by (cases "chosen_key ck ch = vote_key v") (simp_all add: counted_def)
qed

lemma counted_inv:
  assumes inv: "collector_inv c" and v: "vote_counts c v"
  shows "collector_inv (counted c v sig)"
proof -
  have sel: "vc_stake (counted c v sig) = vc_stake c" "vc_total (counted c v sig) = vc_total c"
    by (simp_all add: counted_def)
  have "bucket_ok (vc_stake c) b \<and> b_height b \<noteq> 0" if "vc_buckets (counted c v sig) k = Some b" for k b
    using that collector_invD(3) [OF inv] new_bucket_ok(1,4) [OF inv v, of sig] vote_height [OF v]
    by (cases "k = vote_key v") (auto simp: counted_def)
  with counted_voters [OF inv v] counted_choices [OF inv v] collector_invD(1,2) [OF inv] show ?thesis
    unfolding collector_inv_def sel by blast
qed

interpretation collector_life: step_invariant "collector_step lib" collector_inv for lib
proof
  fix c d
  assume "collector_inv c" and "collector_step lib c d"
  from this(2,1) show "collector_inv d"
  proof induction
    case (call c v sig order)
    then show ?case
      using addVote_counted [of c v lib sig order] addVote_refused [of c v lib sig order] counted_inv [of c v sig]
      by (cases "vote_counts c v") auto
  qed
qed

lemma stake_of_upd:
  assumes "finite (dom m)" and "v \<notin> dom m"
  shows "stake_of (m(v \<mapsto> s)) (dom (m(v \<mapsto> s))) = unat s + stake_of m (dom m)"
proof -
  have "(\<Sum>w \<in> dom m. unat (map_stake (m(v \<mapsto> s)) w)) = (\<Sum>w \<in> dom m. unat (map_stake m w))"
    using assms by (intro sum.cong) (auto simp: map_stake_def)
  moreover have "map_stake (m(v \<mapsto> s)) v = s" by (simp add: map_stake_def)
  ultimately show ?thesis using assms by (simp add: stake_of_def)
qed

lemma normalize_stake_Inr:
  assumes "normalize_stake es m t = Inr (m', t')" and "distinct (map fst es)" and "fst ` set es \<inter> dom m = {}"
    and "finite (dom m)" and "unat t = stake_of m (dom m)"
  shows "m' = m ++ map_of es \<and> finite (dom m') \<and> unat t' = stake_of m' (dom m') \<and>
    (\<forall>(v, s) \<in> set es. \<not> blank v \<and> s \<noteq> 0)"
  using assms
proof (induction es arbitrary: m t)
  case Nil
  then show ?case by simp
next
  case (Cons e rest)
  obtain v s where e: "e = (v, s)" by (cases e)
  have g: "\<not> blank v" "s \<noteq> 0" "\<not> - 1 - t < s"
    and r: "normalize_stake rest (m(v \<mapsto> s)) (t + s) = Inr (m', t')"
    and v: "v \<notin> dom m" "v \<notin> fst ` set rest" "fst ` set rest \<inter> dom m = {}"
    using Cons.prems by (auto simp: e split: if_splits)
  have "unat (s + t) = unat s + unat t" by (rule unat_add_guarded [OF g(3)])
  then have "unat (t + s) = stake_of (m(v \<mapsto> s)) (dom (m(v \<mapsto> s)))"
    using Cons.prems(5) stake_of_upd [OF Cons.prems(4) v(1), of s] by (simp only: add.commute)
  moreover have "fst ` set rest \<inter> dom (m(v \<mapsto> s)) = {}" "finite (dom (m(v \<mapsto> s)))" "distinct (map fst rest)"
    using v Cons.prems(2,4) by (simp_all add: e)
  ultimately have IH: "m' = (m(v \<mapsto> s)) ++ map_of rest \<and> finite (dom m') \<and> unat t' = stake_of m' (dom m') \<and>
      (\<forall>(v, s) \<in> set rest. \<not> blank v \<and> s \<noteq> 0)"
    using r by (intro Cons.IH) assumption+
  have "(m(v \<mapsto> s)) ++ map_of rest = m ++ map_of ((v, s) # rest)"
    using v(2) by (simp add: map_add_upd_left dom_map_of_conv_image_fst)
  then have "m' = m ++ map_of (e # rest)" using IH e by metis
  moreover have "\<forall>(v, s) \<in> set (e # rest). \<not> blank v \<and> s \<noteq> 0" using IH g e by simp
  ultimately show ?case using IH by metis
qed

text \<open>What the constructor establishes, for the entries of a map (whose keys are distinct).\<close>

lemma NewVoteCollectorWithQuorums_Inr:
  assumes "NewVoteCollectorWithQuorums stakes q1 q2 = Inr c" and "distinct (map fst stakes)"
  shows "collector_inv c" and "vc_stake c = map_of stakes" and "vc_choices c = Map.empty"
    and "vc_buckets c = Map.empty" and "RequiredStake q1 (vc_total c) = Inr (vc_confirm c)"
    and "RequiredStake q2 (vc_total c) = Inr (vc_timeout c)"
    and "\<And>v s. (v, s) \<in> set stakes \<Longrightarrow> \<not> blank v \<and> s \<noteq> 0"
    and "unat (vc_total c) < unat (vc_confirm c) + unat (vc_timeout c)"
proof -
  obtain m t a b where n: "normalize_stake stakes Map.empty 0 = Inr (m, t)"
    and q: "RequiredStake q1 t = Inr a" "RequiredStake q2 t = Inr b"
    and i: "t - b < a"
    and c: "c = \<lparr>vc_stake = m, vc_confirm = a, vc_timeout = b, vc_total = t,
                 vc_buckets = Map.empty, vc_choices = Map.empty\<rparr>"
    using assms(1)
    by (auto simp: NewVoteCollectorWithQuorums_def normalizeValidatorStake_def result_simps Let_def split: if_splits)
  have N: "m = map_of stakes" "finite (dom m)" "unat t = stake_of m (dom m)"
      "\<forall>(v, s) \<in> set stakes. \<not> blank v \<and> s \<noteq> 0"
    using normalize_stake_Inr [OF n assms(2)] by (auto simp: stake_of_def)
  show "collector_inv c" using N by (simp add: collector_inv_def c)
  show "vc_stake c = map_of stakes" "vc_choices c = Map.empty" "vc_buckets c = Map.empty"
      "RequiredStake q1 (vc_total c) = Inr (vc_confirm c)" "RequiredStake q2 (vc_total c) = Inr (vc_timeout c)"
    using N q by (simp_all add: c)
  show "\<not> blank v \<and> s \<noteq> 0" if "(v, s) \<in> set stakes" for v s using N(4) that by auto
  show "unat (vc_total c) < unat (vc_confirm c) + unat (vc_timeout c)"
  proof (cases "b \<le> t")
    case True
    then show ?thesis using i by (simp add: c word_less_nat_alt unat_sub)
  next
    case False
    then have "unat t < unat b" by (simp add: word_le_nat_alt)
    then show ?thesis by (simp add: c)
  qed
qed

section \<open>Certificates of a run\<close>

text \<open>
  A certificate that has been issued stays backed by its bucket: the bucket keeps its height and
  its voters, and only gains stake.
\<close>

definition certificate_key :: "QuorumCertificate \<Rightarrow> voteKey" where
  "certificate_key d = \<lparr>vk_slot = qc_slot d, vk_type = qc_type d, vk_hash = qc_hash d\<rparr>"

definition backed :: "VoteCollector \<Rightarrow> QuorumCertificate \<Rightarrow> bool" where
  "backed c d \<longleftrightarrow>
     (\<exists>b. vc_buckets c (certificate_key d) = Some b \<and> b_height b = qc_height d \<and>
        thresholdStakeForVoteType c (qc_type d) \<le> b_stake b)"

lemma issue_fields:
  assumes "issue lib c v sig order = Inr d"
  shows "certificate_key d = vote_key v" and "qc_type d = v_type v" and "qc_slot d = v_slot v"
    and "qc_height d = b_height (new_bucket c v sig)" and "qc_threshold d = vote_threshold c v"
    and "qc_confirmed d = b_stake (new_bucket c v sig)" and "qc_voters d = sort (b_voters (new_bucket c v sig))"
proof -
  let ?q = "bucket_certificate (vote_key v) (new_bucket c v sig) (vote_threshold c v)"
  have "\<exists>s a m. d = ?q\<lparr>qc_scheme := s, qc_aggregate := a, qc_bitmap := m\<rparr>"
  proof (cases "d = ?q")
    case True
    then show ?thesis by (intro exI [of _ "[]"]) (simp add: bucket_certificate_def)
  next
    case False
    then have "AttachBLSAggregate lib ?q order (b_signatures (new_bucket c v sig)) = Inr d"
      using assms by (auto simp: issue_def Let_def split: if_splits)
    from AttachBLSAggregate_Inr(3) [OF this] show ?thesis by blast
  qed
  then show "certificate_key d = vote_key v" "qc_type d = v_type v" "qc_slot d = v_slot v"
      "qc_height d = b_height (new_bucket c v sig)" "qc_threshold d = vote_threshold c v"
      "qc_confirmed d = b_stake (new_bucket c v sig)" "qc_voters d = sort (b_voters (new_bucket c v sig))"
    by (auto simp: bucket_certificate_def certificate_key_def vote_key_def)
qed

lemma addVote_issued:
  assumes "snd (addVote lib c v sig order) = Inr (Some d)"
  shows "vote_counts c v" and "certificate_due c v sig" and "issue lib c v sig order = Inr d"
    and "fst (addVote lib c v sig order) = counted c v sig"
proof -
  show vc: "vote_counts c v" using assms addVote_refused [of c v lib sig order] by fastforce
  show "certificate_due c v sig" "issue lib c v sig order = Inr d"
      "fst (addVote lib c v sig order) = counted c v sig"
    using assms addVote_counted [OF vc, of lib sig order]
    by (auto simp: rbind_def split: if_splits sum.splits)
qed

lemma threshold_counted [simp]: "thresholdStakeForVoteType (counted c v sig) = thresholdStakeForVoteType c"
  by (simp add: counted_def)

lemma issued_backed:
  assumes "snd (addVote lib c v sig order) = Inr (Some d)"
  shows "backed (fst (addVote lib c v sig order)) d"
  using issue_fields [OF addVote_issued(3) [OF assms]] addVote_issued(2,4) [OF assms]
  by (simp add: backed_def certificate_due_def) (simp add: counted_def)

lemma backed_step:
  assumes inv: "collector_inv c" and d: "backed c d"
  shows "backed (fst (addVote lib c v sig order)) d"
proof (cases "vote_counts c v")
  case False
  then show ?thesis using addVote_refused [OF False, of lib sig order] d by fastforce
next
  case True
  obtain b where b: "vc_buckets c (certificate_key d) = Some b" "b_height b = qc_height d"
      "thresholdStakeForVoteType c (qc_type d) \<le> b_stake b"
    using d by (auto simp: backed_def)
  show ?thesis
  proof (cases "certificate_key d = vote_key v")
    case key: True
    then have bo: "bucket_of c (vote_key v) = b" using b(1) by (simp add: bucket_of_def)
    have "b_height b = v_height v"
      using True collector_invD(3) [OF inv b(1)] by (simp add: vote_counts_def bo)
    moreover have "b_stake b \<le> b_stake (new_bucket c v sig)"
      using new_bucket_ok(2) [OF inv True, of sig] by (simp add: bo word_le_nat_alt)
    ultimately have "backed (counted c v sig) d"
      using b new_bucket_ok(4) [OF inv True, of sig] key unfolding backed_def
      by (auto simp: counted_def intro: order_trans)
    then show ?thesis by (simp add: addVote_counted [OF True])
  next
    case False
    then have "backed (counted c v sig) d" using b unfolding backed_def by (auto simp: counted_def)
    then show ?thesis by (simp add: addVote_counted [OF True])
  qed
qed

lemma call_inv: "collector_inv c \<Longrightarrow> collector_inv (fst (addVote lib c v sig order))"
  by (rule collector_life.step_inv [OF _ collector_step.call])

lemma collect_backed:
  assumes "collector_inv c" and "backed c d \<or> Inr (Some d) \<in> set (snd (collect lib c calls))"
  shows "backed (fst (collect lib c calls)) d"
  using assms
proof (induction calls arbitrary: c)
  case Nil
  then show ?case by simp
next
  case (Cons x calls)
  obtain v sig order where x: "x = (v, sig, order)" by (cases x)
  let ?c = "fst (addVote lib c v sig order)"
  have "backed ?c d \<or> Inr (Some d) \<in> set (snd (collect lib ?c calls))"
    using Cons.prems backed_step [OF Cons.prems(1)] issued_backed [of lib c v sig order d]
    by (auto simp: x Let_def split_def)
  from Cons.IH [OF call_inv [OF Cons.prems(1)] this] show ?case by (simp add: x Let_def split_def)
qed

lemma collect_inv: "collector_inv c \<Longrightarrow> collector_inv (fst (collect lib c calls))"
  by (rule collector_life.reachable_inv [OF collect_steps])

lemma step_config:
  "vc_stake (fst (addVote lib c v sig order)) = vc_stake c \<and> vc_confirm (fst (addVote lib c v sig order)) = vc_confirm c \<and>
   vc_timeout (fst (addVote lib c v sig order)) = vc_timeout c \<and> vc_total (fst (addVote lib c v sig order)) = vc_total c"
proof (cases "vote_counts c v")
  case True
  then show ?thesis by (simp add: addVote_counted counted_def)
next
  case False
  then show ?thesis using addVote_refused [OF False, of lib sig order] by fastforce
qed

lemma collect_config:
  "vc_stake (fst (collect lib c calls)) = vc_stake c \<and> vc_confirm (fst (collect lib c calls)) = vc_confirm c \<and>
   vc_timeout (fst (collect lib c calls)) = vc_timeout c \<and> vc_total (fst (collect lib c calls)) = vc_total c"
proof (induction calls arbitrary: c)
  case Nil
  then show ?case by simp
next
  case (Cons x calls)
  obtain v sig order where x: "x = (v, sig, order)" by (cases x)
  show ?case using Cons.IH [of "fst (addVote lib c v sig order)"] step_config [of lib c v sig order]
    by (simp add: x Let_def split_def)
qed

text \<open>Buckets of one slot and phase have no voter in common.\<close>

lemma buckets_disjoint:
  assumes inv: "collector_inv c" and "vc_buckets c k = Some a" and "vc_buckets c l = Some b"
    and "vk_slot k = vk_slot l" and "votePhaseForChoice (vk_type k) = votePhaseForChoice (vk_type l)" and "k \<noteq> l"
  shows "unat (b_stake a) + unat (b_stake b) \<le> unat (vc_total c)"
proof -
  have "\<not> (w \<in> set (b_voters a) \<and> w \<in> set (b_voters b))" for w
    using collector_invD(4) [OF inv assms(2), of w] collector_invD(4) [OF inv assms(3), of w] assms(4-6)
    by (cases k, cases l) auto
  then have "set (b_voters a) \<inter> set (b_voters b) = {}" by blast
  moreover have "bucket_ok (vc_stake c) a" "bucket_ok (vc_stake c) b"
    using collector_invD(3) [OF inv] assms(2,3) by blast+
  ultimately show ?thesis
    using stake_of_overlap [OF collector_invD(1) [OF inv], of "set (b_voters a)" "set (b_voters b)" "vc_stake c"]
      collector_invD(2) [OF inv]
    by (simp add: bucket_ok_def stake_of_def)
qed

end
