(* ===== verification/Collector_Properties.thy ===== *)
theory Collector_Properties
  imports Collector_Invariant
begin

text \<open>
  What the vote collector guarantees: it never certifies two choices of one slot and phase, it
  issues a certificate when enough stake votes for one choice, and what it issues is accepted by
  the other nodes. A vote with a wrong height defeats the progress of its block.
\<close>

section \<open>Agreement, and progress\<close>

lemma thresholds_intersect:
  assumes "NewVoteCollector stakes q = Inr c" and "distinct (map fst stakes)"
  shows "unat (vc_total c) < 2 * unat (thresholdStakeForVoteType c ty)"
    and "vc_confirm c = vc_timeout c"
proof -
  note N = NewVoteCollectorWithQuorums_Inr [OF assms(1) [unfolded NewVoteCollector_def] assms(2)]
  show e: "vc_confirm c = vc_timeout c" using N(5,6) by simp
  then show "unat (vc_total c) < 2 * unat (thresholdStakeForVoteType c ty)"
    using N(8) by (simp add: thresholdStakeForVoteType_def)
qed

lemma run_agreement:
  assumes inv: "collector_inv c" and "backed c d" and "backed c e"
    and th: "\<And>ty. unat (vc_total c) < 2 * unat (thresholdStakeForVoteType c ty)" "vc_confirm c = vc_timeout c"
    and "qc_slot d = qc_slot e" and "votePhaseForChoice (qc_type d) = votePhaseForChoice (qc_type e)"
  shows "qc_type d = qc_type e \<and> qc_height d = qc_height e \<and> qc_hash d = qc_hash e"
proof -
  obtain a b where a: "vc_buckets c (certificate_key d) = Some a" "b_height a = qc_height d"
      "thresholdStakeForVoteType c (qc_type d) \<le> b_stake a"
    and b: "vc_buckets c (certificate_key e) = Some b" "b_height b = qc_height e"
      "thresholdStakeForVoteType c (qc_type e) \<le> b_stake b"
    using assms(2,3) by (auto simp: backed_def)
  have "certificate_key d = certificate_key e"
  proof (rule ccontr)
    assume "certificate_key d \<noteq> certificate_key e"
    then have "unat (b_stake a) + unat (b_stake b) \<le> unat (vc_total c)"
      using assms(6,7) by (intro buckets_disjoint [OF inv a(1) b(1)]) (simp_all add: certificate_key_def)
    moreover have "thresholdStakeForVoteType c (qc_type d) = thresholdStakeForVoteType c (qc_type e)"
      using th(2) by (simp add: thresholdStakeForVoteType_def)
    ultimately show False
      using a(3) b(3) th(1) [of "qc_type d"] by (simp add: word_le_nat_alt)
  qed
  then show ?thesis using a(1,2) b(1,2) by (simp add: certificate_key_def)
qed


lemma addVote_crosses:
  assumes inv: "collector_inv c" and v: "vote_counts c v"
    and "b_stake (bucket_of c (vote_key v)) < vote_threshold c v"
    and "unat (vote_threshold c v) \<le> unat (b_stake (bucket_of c (vote_key v))) + unat (v_stake v)"
  shows "\<exists>d. snd (addVote lib c v [] []) = Inr (Some d)"
proof -
  have "certificate_due c v []"
    using assms(3,4) new_bucket_ok(2) [OF inv v, of "[]"] by (simp add: certificate_due_def word_le_nat_alt)
  moreover have "\<exists>d. issue lib c v [] [] = Inr d" by (simp add: issue_def Let_def)
  ultimately show ?thesis by (auto simp: addVote_counted [OF v])
qed

text \<open>Votes for one block: the next one is counted, and the others still can be.\<close>

lemma next_vote_counts:
  assumes inv: "collector_inv c" and v: "vote_counts c v" and w: "vote_counts c w"
    and "vote_key w = vote_key v" and "v_height w = v_height v" and "v_voter w \<noteq> v_voter v"
  shows "vote_counts (counted c v sig) w"
proof -
  have "choice_key w \<noteq> choice_key v" using assms(6) by (auto simp: choice_key_def)
  then show ?thesis
    using w assms(4,5) new_bucket_ok(4) [OF inv v, of sig]
    by (simp add: vote_counts_def counted_def bucket_of_def [of "c\<lparr>vc_buckets := _, vc_choices := _\<rparr>"])
qed

lemma votes_reach_certificate:
  assumes "collector_inv c" and "distinct (map v_voter votes)"
    and "\<And>v. v \<in> set votes \<Longrightarrow> vote_counts c v \<and> vote_key v = k \<and> v_height v = h"
    and "b_stake (bucket_of c k) < thresholdStakeForVoteType c (vk_type k)"
    and "unat (thresholdStakeForVoteType c (vk_type k)) \<le>
      unat (b_stake (bucket_of c k)) + (\<Sum>v\<leftarrow>votes. unat (v_stake v))"
  shows "\<exists>d. Inr (Some d) \<in> set (snd (collect lib c (map (\<lambda>v. (v, [], [])) votes)))"
  using assms
proof (induction votes arbitrary: c)
  case Nil
  then show ?case by (simp add: word_less_nat_alt)
next
  case (Cons v votes)
  let ?t = "thresholdStakeForVoteType c (vk_type k)" and ?c = "fst (addVote lib c v [] [])"
  have v: "vote_counts c v" "vote_key v = k" "v_height v = h" using Cons.prems(3) [of v] by simp_all
  have ty: "v_type v = vk_type k" using v(2) by (auto simp: vote_key_def)
  have c: "?c = counted c v []" by (simp add: addVote_counted [OF v(1)])
  have new: "bucket_of ?c k = new_bucket c v []" by (simp add: c bucket_of_def counted_def v(2) [symmetric])
  have stake: "unat (b_stake (bucket_of ?c k)) = unat (b_stake (bucket_of c k)) + unat (v_stake v)"
    using new_bucket_ok(2) [OF Cons.prems(1) v(1), of "[]"] v(2) new by simp
  show ?case
  proof (cases "unat ?t \<le> unat (b_stake (bucket_of c k)) + unat (v_stake v)")
    case True
    then show ?thesis
      using addVote_crosses [OF Cons.prems(1) v(1), of lib] Cons.prems(4) v(2) ty
      by (auto simp: Let_def split_def)
  next
    case False
    have th: "thresholdStakeForVoteType ?c = thresholdStakeForVoteType c" by (simp add: c)
    have "\<exists>d. Inr (Some d) \<in> set (snd (collect lib ?c (map (\<lambda>v. (v, [], [])) votes)))"
    proof (rule Cons.IH [OF call_inv [OF Cons.prems(1)]])
      show "vote_counts ?c w \<and> vote_key w = k \<and> v_height w = h" if "w \<in> set votes" for w
        using that Cons.prems(2) Cons.prems(3) [of w] v next_vote_counts [OF Cons.prems(1) v(1), of w "[]"]
        by (auto simp: c image_iff)
    qed (use Cons.prems(2,5) False stake th in \<open>auto simp: word_less_nat_alt\<close>)
    then show ?thesis by (auto simp: Let_def split_def)
  qed
qed


lemma height_stays:
  assumes "collector_inv c" and "vc_buckets c k = Some b"
  shows "\<exists>b'. vc_buckets (fst (collect lib c calls)) k = Some b' \<and> b_height b' = b_height b"
  using assms
proof (induction calls arbitrary: c b)
  case Nil
  then show ?case by simp
next
  case (Cons x calls)
  obtain v sig order where x: "x = (v, sig, order)" by (cases x)
  let ?c = "fst (addVote lib c v sig order)"
  have "\<exists>b'. vc_buckets ?c k = Some b' \<and> b_height b' = b_height b"
  proof (cases "vote_counts c v")
    case False
    then show ?thesis using addVote_refused [OF False, of lib sig order] Cons.prems(2) by fastforce
  next
    case True
    have "b_height b = v_height v" if "k = vote_key v"
      using that True Cons.prems(2) collector_invD(3) [OF Cons.prems] by (simp add: vote_counts_def bucket_of_def)
    then show ?thesis
      using Cons.prems(2) new_bucket_ok(4) [OF Cons.prems(1) True, of sig]
      by (cases "k = vote_key v") (simp_all add: addVote_counted [OF True] counted_def)
  qed
  then obtain b' where b': "vc_buckets ?c k = Some b'" "b_height b' = b_height b" by blast
  from Cons.IH [OF call_inv [OF Cons.prems(1)] b'(1)] b'(2) show ?case by (simp add: x Let_def split_def)
qed

text \<open>
  C20: The key of a bucket has no height, and the first counted vote fixes the height of its bucket.
  Once a vote for a block has been counted with some height, every vote for that block with
  another height is refused, whatever is voted in between: one validator, of any stake, that votes
  with a wrong height before the others keeps their certificate from forming.
\<close>

theorem wrong_height_vote_blocks:
  assumes "NewVoteCollector stakes q = Inr c0" and "distinct (map fst stakes)"
    and c: "c = fst (collect lib c0 calls)"
    and x: "vote_counts c x" and w: "vote_key w = vote_key x" "v_height w \<noteq> v_height x"
    and d: "d = fst (collect lib c ((x, sig, order) # later))"
  shows "\<exists>e. addVote lib d w sig' order' = (d, Inl e)"
proof -
  note N = NewVoteCollectorWithQuorums_Inr [OF assms(1) [unfolded NewVoteCollector_def] assms(2)]
  have inv: "collector_inv c" unfolding c by (rule collect_inv [OF N(1)])
  let ?c = "fst (addVote lib c x sig order)"
  have n: "vc_buckets ?c (vote_key x) = Some (new_bucket c x sig)"
    by (simp add: addVote_counted [OF x] counted_def)
  obtain b where "vc_buckets d (vote_key x) = Some b" "b_height b = v_height x"
    using height_stays [OF call_inv [OF inv] n, of lib later] new_bucket_ok(4) [OF inv x, of sig]
    by (auto simp: d Let_def split_def)
  moreover have "v_height x \<noteq> 0" by (rule vote_height [OF x])
  ultimately have "\<not> vote_counts d w" using w by (simp add: vote_counts_def bucket_of_def)
  then show ?thesis by (rule addVote_refused)
qed

text \<open>
  C19: The stake of a bucket is counted once. In every state that a collector can reach, the stake of a
  bucket is the sum of the registered stakes of its voters, without overflow and at most the
  total; its voters are registered and distinct, and they are exactly the validators whose
  recorded choice is the bucket.
\<close>

theorem collector_counts_once:
  assumes "NewVoteCollectorWithQuorums stakes q1 q2 = Inr c0" and "distinct (map fst stakes)"
    and "c = fst (collect lib c0 calls)" and "vc_buckets c k = Some b"
  shows "distinct (b_voters b) \<and> set (b_voters b) \<subseteq> fst ` set stakes \<and>
    unat (b_stake b) = (\<Sum>w \<in> set (b_voters b). unat (the (map_of stakes w))) \<and> b_stake b \<le> TotalStake c \<and>
    (\<forall>w. w \<in> set (b_voters b) \<longleftrightarrow> vc_choices c (voter_key_of k w) = Some (bucket_choice k b))"
proof -
  note N = NewVoteCollectorWithQuorums_Inr [OF assms(1,2)]
  have inv: "collector_inv c" unfolding assms(3) by (rule collect_inv [OF N(1)])
  have st: "vc_stake c = map_of stakes" using collect_config [of lib c0 calls] N(2) assms(3) by simp
  have ok: "bucket_ok (map_of stakes) b" using collector_invD(3) [OF inv assms(4)] st by simp
  have dom: "dom (map_of stakes) = fst ` set stakes" by (rule dom_map_of_conv_image_fst)
  have "stake_of (map_of stakes) (set (b_voters b)) = (\<Sum>w \<in> set (b_voters b). unat (the (map_of stakes w)))"
    unfolding stake_of_def using ok by (intro sum.cong) (auto simp: map_stake_def bucket_ok_def)
  moreover have "stake_of (map_of stakes) (set (b_voters b)) \<le> unat (vc_total c)"
    using collector_invD(1,2) [OF inv] ok st by (simp add: stake_of_mono bucket_ok_def)
  ultimately show ?thesis
    using ok collector_invD(4) [OF inv assms(4)] dom
    by (auto simp: bucket_ok_def TotalStake_def word_le_nat_alt)
qed

section \<open>Certificates are accepted by other nodes\<close>

text \<open>A signed vote as \<open>verifyVoteEnvelope\<close> of a node lets it through to the collector.\<close>

definition checked_vote :: "('sk, 'pk) bls_library \<Rightarrow> (gostring \<rightharpoonup> bytes) \<Rightarrow> Vote \<Rightarrow> bytes \<Rightarrow> bool" where
  "checked_vote lib keys v sig \<longleftrightarrow>
     sig \<noteq> [] \<and> (\<exists>key. keys (v_voter v) = Some key \<and> key \<noteq> [] \<and> VerifyBLSVote lib key sig v = Inr ())"

definition bucket_signed :: "('sk, 'pk) bls_library \<Rightarrow> (gostring \<rightharpoonup> bytes) \<Rightarrow> voteKey \<Rightarrow> voteBucket \<Rightarrow> bool" where
  "bucket_signed lib keys k b \<longleftrightarrow>
     fst ` set (b_signatures b) = set (b_voters b) \<and>
     (\<forall>w \<in> set (b_voters b). counted_vote lib keys (bucket_certificate k b 0) (b_signatures b) w)"

lemma map_bytes_update: "map_bytes (AList.update k x m) w = (if w = k then x else map_bytes m w)"
  by (simp add: map_bytes_def update_conv')

lemma new_bucket_signed:
  assumes inv: "collector_inv c" and v: "vote_counts c v" and sig: "checked_vote lib keys v sig"
    and old: "\<And>b. vc_buckets c (vote_key v) = Some b \<Longrightarrow> bucket_signed lib keys (vote_key v) b"
  shows "bucket_signed lib keys (vote_key v) (new_bucket c v sig)"
proof -
  let ?b = "bucket_of c (vote_key v)" and ?n = "new_bucket c v sig"
  have new: "b_signatures ?n = AList.update (v_voter v) sig (b_signatures ?b)"
      "set (b_voters ?n) = insert (v_voter v) (set (b_voters ?b))" "b_height ?n = v_height v"
    using sig by (simp_all add: count_vote_def checked_vote_def)
  have b: "fst ` set (b_signatures ?b) = set (b_voters ?b)"
      "\<And>w. w \<in> set (b_voters ?b) \<Longrightarrow> counted_vote lib keys (bucket_certificate (vote_key v) ?b 0) (b_signatures ?b) w"
    using old by (auto simp: bucket_of_def empty_bucket_def bucket_signed_def split: option.splits)
  have fresh: "v_voter v \<notin> set (b_voters ?b)"
    using fresh_voter [OF inv] v by (simp add: vote_counts_def)
  have height: "b_height ?b = v_height v" if "w \<in> set (b_voters ?b)" for w
    using that v collector_invD(3) [OF inv]
    by (auto simp: vote_counts_def bucket_of_def empty_bucket_def split: option.splits)
  have "counted_vote lib keys (bucket_certificate (vote_key v) ?n 0) (b_signatures ?n) w"
    if "w \<in> set (b_voters ?n)" for w
  proof (cases "w = v_voter v")
    case True
    then show ?thesis
      using sig new by (auto simp: counted_vote_def checked_vote_def bucket_certificate_def vote_key_def map_bytes_update)
  next
    case False
    then have w: "w \<in> set (b_voters ?b)" using that new(2) by simp
    have "map_bytes (b_signatures ?n) w = map_bytes (b_signatures ?b) w"
      using False by (simp add: new(1) map_bytes_update)
    then show ?thesis
      using b(2) [OF w] height [OF w] new(3) by (simp add: counted_vote_def bucket_certificate_def)
  qed
  then show ?thesis using b(1) new by (simp add: bucket_signed_def dom_update)
qed

definition all_signed :: "('sk, 'pk) bls_library \<Rightarrow> (gostring \<rightharpoonup> bytes) \<Rightarrow> VoteCollector \<Rightarrow> bool" where
  "all_signed lib keys c \<longleftrightarrow> (\<forall>k b. vc_buckets c k = Some b \<longrightarrow> bucket_signed lib keys k b)"

lemma call_signed:
  assumes "collector_inv c" and "all_signed lib keys c" and "checked_vote lib keys v sig"
  shows "all_signed lib keys (fst (addVote lib c v sig order))"
proof (cases "vote_counts c v")
  case True
  have "bucket_signed lib keys (vote_key v) (new_bucket c v sig)"
    using assms(2) by (intro new_bucket_signed [OF assms(1) True assms(3)]) (simp add: all_signed_def)
  then show ?thesis
    using assms(2) by (simp add: addVote_counted [OF True] all_signed_def counted_def)
next
  case False
  then show ?thesis using addVote_refused [OF False, of lib sig order] assms(2) by fastforce
qed

text \<open>Checking the stakes of an order of validators succeeds when they are positive and add up.\<close>

lemma order_stake_total:
  assumes "distinct vs" and "\<And>v. v \<in> set vs \<Longrightarrow> v \<noteq> [] \<and> m v = None \<and> map_stake stakes v \<noteq> 0"
    and "unat t + (\<Sum>v\<leftarrow>vs. unat (map_stake stakes v)) < 2 ^ 64"
  shows "\<exists>m' t'. order_stake stakes vs m t = Inr (m', t')"
  using assms
proof (induction vs arbitrary: m t)
  case Nil
  then show ?case by simp
next
  case (Cons v vs)
  let ?s = "map_stake stakes v"
  have g: "\<not> - 1 - t < ?s"
    using Cons.prems(3) by (simp add: add_guard)
  have "unat (?s + t) = unat ?s + unat t" by (rule unat_add_guarded [OF g])
  then have "\<exists>m' t'. order_stake stakes vs (m(v \<mapsto> ?s)) (t + ?s) = Inr (m', t')"
    using Cons.prems by (intro Cons.IH) (auto simp: add.commute)
  then show ?case using Cons.prems(2) [of v] g by (simp add: Let_def)
qed

lemma confirmed_stake_total:
  assumes "\<And>v. v \<in> set vs \<Longrightarrow> m v = Some (map_stake stakes v)"
    and "unat acc + (\<Sum>v\<leftarrow>vs. unat (map_stake stakes v)) < 2 ^ 64"
  shows "\<exists>r. confirmed_stake m vs acc = Inr r"
  using assms
proof (induction vs arbitrary: acc)
  case Nil
  then show ?case by simp
next
  case (Cons v vs)
  let ?s = "map_stake stakes v"
  have g: "\<not> - 1 - acc < ?s" using Cons.prems(2) by (simp add: add_guard)
  have "unat (?s + acc) = unat ?s + unat acc" by (rule unat_add_guarded [OF g])
  then have "\<exists>r. confirmed_stake m vs (acc + ?s) = Inr r"
    using Cons.prems by (intro Cons.IH) (auto simp: add.commute)
  then show ?case using Cons.prems(1) [of v] g by simp
qed

text \<open>A certificate with a verified aggregate passes the check of the stakes as well.\<close>

lemma stake_check_passes:
  assumes agg: "VerifyBLSAggregate lib d order keys = Inr ()" and dist: "distinct order"
    and order: "\<And>v. v \<in> set order \<Longrightarrow> v \<noteq> [] \<and> map_stake stakes v \<noteq> 0"
    and total: "unat t = stake_of stakes (set order)" and q: "RequiredStake q t = Inr (qc_threshold d)"
    and stake: "unat (qc_confirmed d) = stake_of stakes (set (qc_voters d))"
  shows "VerifyBLSAggregateWithStake lib d order keys stakes q = Inr ()"
proof -
  note V = VerifyBLSAggregate_Inr [OF agg]
  note F = Certificate_Validate_fields [OF V(1)]
  have sub: "set (qc_voters d) \<subseteq> set order" by (rule votersFromBitmap_subset [OF V(2)])
  have dv: "distinct (qc_voters d)" by (rule sort_voters(2) [OF F(1)])
  have ne: "order \<noteq> []" using sub F(3) by auto
  have lt: "unat t < 2 ^ 64" "unat (qc_confirmed d) < 2 ^ 64"
    using unsigned_less [of t, where 'a = nat] unsigned_less [of "qc_confirmed d", where 'a = nat] by simp_all
  obtain m t' where s: "stakeByValidatorOrder order stakes = Inr (m, t')"
    using order_stake_total [OF dist, of Map.empty stakes 0] order total lt(1) ne
    by (auto simp: stakeByValidatorOrder_def stake_of_def sum_list_distinct_conv_sum_set [OF dist])
  note S = stakeByValidatorOrder_Inr [OF s]
  have t: "t' = t" using S(2) total by (simp add: word_unat_eq_iff)
  have m: "m v = Some (map_stake stakes v)" if "v \<in> set (qc_voters d)" for v using S(3) sub that by blast
  have sum: "(\<Sum>v\<leftarrow>qc_voters d. unat (map_stake stakes v)) = unat (qc_confirmed d)"
    using stake by (simp add: stake_of_def sum_list_distinct_conv_sum_set [OF dv])
  obtain r where r: "confirmed_stake m (qc_voters d) 0 = Inr r"
    using confirmed_stake_total [of "qc_voters d" m stakes 0] m sum lt(2) by auto
  have "r = qc_confirmed d"
    using confirmed_stake_Inr [OF r m] sum by (simp add: word_unat_eq_iff)
  then show ?thesis
    using agg s t q V(2) r F(7) by (simp add: VerifyBLSAggregateWithStake_def)
qed

lemma issued_accepted:
  assumes lib: "bls_complete lib" and inv: "collector_inv c" and signed_c: "all_signed lib keys c"
    and v: "vote_counts c v" and sig: "checked_vote lib keys v sig"
    and order: "distinct order" "set order = dom (vc_stake c)"
      "\<And>w. w \<in> set order \<Longrightarrow> w \<noteq> [] \<and> map_stake (vc_stake c) w \<noteq> 0"
    and q: "RequiredStake q (vc_total c) = Inr (vote_threshold c v)"
    and d: "issue lib c v sig order = Inr d"
  shows "VerifyBLSAggregateWithStake lib d order keys (vc_stake c) q = Inr ()"
proof -
  let ?n = "new_bucket c v sig"
  let ?q = "bucket_certificate (vote_key v) ?n (vote_threshold c v)"
  have n: "bucket_signed lib keys (vote_key v) ?n"
    using signed_c by (intro new_bucket_signed [OF inv v sig]) (simp add: all_signed_def)
  have ok: "bucket_ok (vc_stake c) ?n" by (rule new_bucket_ok(1) [OF inv v])
  have len: "length (b_signatures ?n) = length (b_voters ?n)"
    using n ok distinct_card [of "map fst (b_signatures ?n)"] distinct_card [of "b_voters ?n"]
    by (simp add: bucket_signed_def bucket_ok_def)
  have "v_voter v \<in> set order" using v order(2) by (auto simp: vote_counts_def)
  then have "order \<noteq> []" by auto
  with d len have att: "AttachBLSAggregate lib ?q order (b_signatures ?n) = Inr d"
    by (simp add: issue_def Let_def)
  have "\<forall>w \<in> set (qc_voters ?q). counted_vote lib keys ?q (b_signatures ?n) w"
    using n by (simp add: bucket_signed_def counted_vote_def bucket_certificate_def)
  note agg = attached_verifies [OF lib att this]
  have vs: "set (qc_voters d) = set (b_voters ?n)" using issue_fields(7) [OF d] by simp
  show ?thesis
    using issue_fields(5,6) [OF d] q ok vs collector_invD(2) [OF inv]
    by (intro stake_check_passes [OF agg order(1,3)]) (simp_all add: bucket_ok_def order(2))
qed

lemma run_accepted:
  assumes lib: "bls_complete lib" and inv: "collector_inv c" and "all_signed lib keys c"
    and st: "vc_stake c = stakes" and order: "distinct order" "set order = dom stakes"
      "\<And>w. w \<in> set order \<Longrightarrow> w \<noteq> [] \<and> map_stake stakes w \<noteq> 0"
    and q: "\<And>ty. RequiredStake q (vc_total c) = Inr (thresholdStakeForVoteType c ty)"
    and "\<And>v sig. (v, sig) \<in> set inputs \<Longrightarrow> checked_vote lib keys v sig"
    and "Inr (Some d) \<in> set (snd (collect lib c (map (\<lambda>(v, sig). (v, sig, order)) inputs)))"
  shows "VerifyBLSAggregateWithStake lib d order keys stakes q = Inr ()"
  using assms(2,3,4,8,9,10)
proof (induction inputs arbitrary: c)
  case Nil
  then show ?case by simp
next
  case (Cons x inputs)
  obtain v sig where x: "x = (v, sig)" by (cases x)
  let ?c = "fst (addVote lib c v sig order)"
  have chk: "checked_vote lib keys v sig" using Cons.prems(5) by (simp add: x)
  have th: "thresholdStakeForVoteType ?c = thresholdStakeForVoteType c"
    using step_config [of lib c v sig order] by (simp add: thresholdStakeForVoteType_def fun_eq_iff)
  show ?case
  proof (cases "snd (addVote lib c v sig order) = Inr (Some d)")
    case True
    show ?thesis
      using issued_accepted [OF lib Cons.prems(1,2) addVote_issued(1) [OF True] chk order(1), of q d]
        Cons.prems(3,4) order(2,3) addVote_issued(3) [OF True]
      by simp
  next
    case False
    then have "Inr (Some d) \<in> set (snd (collect lib ?c (map (\<lambda>(v, sig). (v, sig, order)) inputs)))"
      using Cons.prems(6) by (auto simp: x Let_def split_def)
    then show ?thesis
      using Cons.prems(3-5) step_config [of lib c v sig order]
      by (intro Cons.IH [OF call_inv [OF Cons.prems(1)] call_signed [OF Cons.prems(1,2) chk]]) (simp_all add: th)
  qed
qed

text \<open>
  C18: What a collector certifies, every node accepts. When the votes given to a collector carry
  signatures that passed \<open>VerifyBLSVote\<close>, each certificate that it issues passes
  \<open>VerifyBLSAggregateWithStake\<close> at any node with the same stakes, keys, quorum and order of
  validators: bitmap, aggregate signature, threshold and confirmed stake all agree.
\<close>

theorem collected_certificate_accepted:
  assumes "bls_complete lib" and "NewVoteCollector stakes q = Inr c" and "distinct (map fst stakes)"
    and "distinct order" and "set order = fst ` set stakes"
    and "\<And>v sig. (v, sig) \<in> set inputs \<Longrightarrow> checked_vote lib keys v sig"
    and "Inr (Some d) \<in> set (snd (collect lib c (map (\<lambda>(v, sig). (v, sig, order)) inputs)))"
  shows "VerifyBLSAggregateWithStake lib d order keys (map_of stakes) q = Inr ()"
proof (rule run_accepted [OF assms(1) _ _ _ assms(4) _ _ _ assms(6,7)])
  note N = NewVoteCollectorWithQuorums_Inr [OF assms(2) [unfolded NewVoteCollector_def] assms(3)]
  show "collector_inv c" "vc_stake c = map_of stakes" by (rule N)+
  show "all_signed lib keys c" by (simp add: all_signed_def N(4))
  show "set order = dom (map_of stakes)" using assms(5) by (simp add: dom_map_of_conv_image_fst)
  show "w \<noteq> [] \<and> map_stake (map_of stakes) w \<noteq> 0" if w: "w \<in> set order" for w
  proof -
    obtain s where s: "(w, s) \<in> set stakes" using w assms(5) by auto
    then have "map_of stakes w = Some s" using assms(3) by (simp add: map_of_is_SomeI)
    with N(7) [OF s] show ?thesis by (auto simp: map_stake_def)
  qed
  show "RequiredStake q (vc_total c) = Inr (thresholdStakeForVoteType c ty)" for ty
    using N(5,6) by (simp add: thresholdStakeForVoteType_def)
qed

section \<open>Instances\<close>

definition demo_stakes :: "(gostring \<times> u64) list" where
  "demo_stakes = [([97], 5), ([98], 4), ([99], 3)]"

definition demo_vote :: "u64 \<Rightarrow> gostring \<Rightarrow> u64 \<Rightarrow> Vote" where
  "demo_vote h w s =
     \<lparr>v_type = VoteTypeConfirm, v_slot = 5, v_height = h, v_hash = 1, v_voter = w, v_stake = s, v_created = 9\<rparr>"

definition demo_votes :: "Vote list" where
  "demo_votes = [demo_vote 4 [97] 5, demo_vote 4 [98] 4]"

definition demo_collector :: VoteCollector where
  "demo_collector =
     \<lparr>vc_stake = map_of demo_stakes, vc_confirm = 9, vc_timeout = 9, vc_total = 12,
      vc_buckets = Map.empty, vc_choices = Map.empty\<rparr>"

lemma demo_new: "NewVoteCollector demo_stakes demo_quorum = Inr demo_collector"
  by (simp add: NewVoteCollector_def NewVoteCollectorWithQuorums_def normalizeValidatorStake_def demo_stakes_def
      demo_quorum_def demo_collector_def RequiredStake_def maxConsensusTextLength_def)
    (simp add: fun_eq_iff)

lemma demo_distinct: "distinct (map fst demo_stakes)"
  by (simp add: demo_stakes_def)

text \<open>A library whose signatures are the keys themselves, and whose aggregates are concatenations.\<close>

definition chain_library :: "(bytes, bytes) bls_library" where
  "chain_library =
     \<lparr>bls_private_key = Some, bls_public_key = Some, bls_sign = (\<lambda>sk m. sk), bls_verify = (\<lambda>pk m s. s = pk),
      bls_aggregate = (\<lambda>ss. Some (concat ss)),
      bls_verify_aggregate = (\<lambda>pks ms a. length pks = length ms \<and> a = concat pks)\<rparr>"

lemma chain_complete: "bls_complete chain_library"
proof -
  have "ss = pks" if "length pks = n" "length ss = n" "\<forall>i < n. ss ! i = pks ! i" for n and pks ss :: "bytes list"
    using that by (intro nth_equalityI) simp_all
  then show ?thesis by (auto simp: bls_complete_def chain_library_def)
qed

definition demo_calls :: "(Vote \<times> bytes \<times> gostring list) list" where
  "demo_calls = map (\<lambda>v. (v, [], [])) (demo_votes @ [demo_vote 4 [99] 3])"

definition demo_issued :: "gostring list \<Rightarrow> u64 \<Rightarrow> QuorumCertificate" where
  "demo_issued voters stake =
     \<lparr>qc_type = VoteTypeConfirm, qc_slot = 5, qc_height = 4, qc_hash = 1, qc_threshold = 9,
      qc_confirmed = stake, qc_voters = voters, qc_created = 9, qc_scheme = [], qc_aggregate = [], qc_bitmap = []\<rparr>"

lemma demo_results:
  "snd (collect chain_library demo_collector demo_calls) =
     [Inr None, Inr (Some (demo_issued [[97], [98]] 9)), Inr (Some (demo_issued [[97], [98], [99]] 12))]"
  by code_simp



lemma demo_wrong_height: "vote_counts demo_collector (demo_vote 7 [99] 3)"
  by (simp add: vote_counts_def demo_vote_def demo_stakes_def demo_collector_def bucket_of_def empty_bucket_def
      Vote_Validate_def VoteTypeConfirm_def VoteTypeSkip_def VoteTypePrepare_def maxConsensusTextLength_def)

theorem wrong_height_vote_blocks_witness:
  "\<exists>e. addVote chain_library
      (fst (collect chain_library demo_collector ((demo_vote 7 [99] 3, [], []) # map (\<lambda>v. (v, [], [])) demo_votes)))
      (demo_vote 4 [97] 5) [] [] =
    (fst (collect chain_library demo_collector ((demo_vote 7 [99] 3, [], []) # map (\<lambda>v. (v, [], [])) demo_votes)), Inl e)"
  by (rule wrong_height_vote_blocks [OF demo_new demo_distinct, where calls = "[]" and x = "demo_vote 7 [99] 3"])
    (simp_all add: demo_wrong_height, simp_all add: demo_vote_def vote_key_def)

theorem collector_counts_once_witness:
  "\<exists>b. vc_buckets (fst (collect chain_library demo_collector demo_calls))
       \<lparr>vk_slot = 5, vk_type = VoteTypeConfirm, vk_hash = 1\<rparr> = Some b \<and> distinct (b_voters b)"
proof -
  let ?c = "fst (collect chain_library demo_collector demo_calls)"
  let ?k = "\<lparr>vk_slot = 5, vk_type = VoteTypeConfirm, vk_hash = 1\<rparr>"
  have "vc_buckets ?c ?k \<noteq> None" by code_simp
  then obtain b where b: "vc_buckets ?c ?k = Some b" by blast
  have "distinct (b_voters b)"
    using collector_counts_once [OF demo_new [unfolded NewVoteCollector_def] demo_distinct refl b] by blast
  with b show ?thesis by blast
qed

definition demo_signed :: "(Vote \<times> bytes) list" where
  "demo_signed = map (\<lambda>v. (v, v_voter v)) demo_votes"

lemma demo_aggregate_issued:
  "\<exists>d. Inr (Some d) \<in> set (snd (collect chain_library demo_collector
     (map (\<lambda>(v, sig). (v, sig, demo_order)) demo_signed)))"
proof -
  let ?issued = "\<lambda>r :: consensus_error + QuorumCertificate option. case r of Inr (Some _) \<Rightarrow> True | _ \<Rightarrow> False"
  have "list_ex ?issued (snd (collect chain_library demo_collector (map (\<lambda>(v, sig). (v, sig, demo_order)) demo_signed)))"
    by code_simp
  then obtain r where r: "?issued r" and mem: "r \<in> set (snd (collect chain_library demo_collector
      (map (\<lambda>(v, sig). (v, sig, demo_order)) demo_signed)))"
    unfolding list_ex_iff by blast
  from r obtain d where "r = Inr (Some d)" by (auto split: sum.splits option.splits)
  with mem show ?thesis by blast
qed

theorem collected_certificate_accepted_witness:
  "\<exists>d. VerifyBLSAggregateWithStake chain_library d demo_order (\<lambda>v. Some v) (map_of demo_stakes) demo_quorum = Inr ()"
proof -
  obtain d where d: "Inr (Some d) \<in> set (snd (collect chain_library demo_collector
      (map (\<lambda>(v, sig). (v, sig, demo_order)) demo_signed)))"
    using demo_aggregate_issued by blast
  have "checked_vote chain_library (\<lambda>v. Some v) v sig" if "(v, sig) \<in> set demo_signed" for v sig
    using that
    by (auto simp: demo_signed_def demo_votes_def demo_vote_def checked_vote_def VerifyBLSVote_def parse_public_key_def
        chain_library_def Vote_Validate_def VoteTypeConfirm_def VoteTypeSkip_def VoteTypePrepare_def
        maxConsensusTextLength_def)
  then have "VerifyBLSAggregateWithStake chain_library d demo_order (\<lambda>v. Some v) (map_of demo_stakes) demo_quorum = Inr ()"
    using d
    by (intro collected_certificate_accepted [OF chain_complete demo_new demo_distinct])
      (auto simp: demo_order_def demo_stakes_def)
  then show ?thesis by blast
qed

end
