(* ===== verification/Parallel_Execution.thy ===== *)
theory Parallel_Execution
  imports Simulator Votes
begin

text \<open>
  Executing the transactions of a block: the request of \<open>runtime/executor.go\<close> and the executor of
  \<open>runtime/fixed_executor.go\<close>, the limits of \<open>consensus/block_resource.go\<close>, and
  \<open>consensus/parallel_execution.go\<close>, which runs transactions whose accounts do not conflict side by
  side and commits their results batch by batch. The chain state and the receipts are those of
  \<open>consensus/proposal.go\<close>.
\<close>

section \<open>The executor\<close>

definition ExecutionModeFixedInstruction :: gostring where
  "ExecutionModeFixedInstruction = ascii ''fixed_instruction_v1''"

definition ExecutionModeGoOVM :: gostring where
  "ExecutionModeGoOVM = ascii ''goovm_v1''"

definition ExecutionModeOVMCompat :: gostring where
  "ExecutionModeOVMCompat = ascii ''ovm_compat_v1''"

record TransactionRequest =
  rq_chain :: gostring
  rq_slot :: u64
  rq_epoch :: u64
  rq_mode :: gostring
  rq_simulation :: TransactionSimulationInput

type_synonym executor = "TransactionRequest \<Rightarrow> runtime_error + TransactionExecutionResult"

definition validateTransactionRequest :: "TransactionRequest \<Rightarrow> runtime_error + unit" where
  "validateTransactionRequest request =
     (if rq_mode request \<noteq> [] \<and> rq_mode request \<noteq> ExecutionModeFixedInstruction \<and>
         rq_mode request \<noteq> ExecutionModeGoOVM \<and> rq_mode request \<noteq> ExecutionModeOVMCompat
      then Inl (RText ''unsupported execution mode'') else Inr ())"

text \<open>
  \<open>FixedExecutor.ExecuteTransaction\<close>, for an executor with the given registry. Logging and the
  cancellation of the context have no counterpart, and the mode that the result repeats is left
  out: no caller reads it.
\<close>

definition executor_input :: "ProgramRegistry \<Rightarrow> TransactionRequest \<Rightarrow> TransactionSimulationInput" where
  "executor_input programs request =
     (let input = rq_simulation request;
          input = (if rq_slot request \<noteq> 0 then input\<lparr>in_slot := rq_slot request\<rparr> else input);
          input = input\<lparr>in_epoch := rq_epoch request\<rparr>
      in if Registry_IsEmpty (in_registry input) \<and> length (in_extra input) = 0 \<and>
            in_fallback input = None \<and> \<not> Registry_IsEmpty programs
         then input\<lparr>in_registry := programs\<rparr> else input)"

definition FixedExecutor_ExecuteTransaction :: "host \<Rightarrow> ProgramRegistry \<Rightarrow> executor" where
  "FixedExecutor_ExecuteTransaction h programs request =
     rbind (validateTransactionRequest request) (\<lambda>_.
       case Simulate h (executor_input programs request) of
         (_, Inl e) \<Rightarrow> Inl (RStructure e)
       | (result, Inr _) \<Rightarrow> Inr result)"

section \<open>Resources of a block\<close>

definition MaxProposalTransactions :: nat where
  "MaxProposalTransactions = 1000"

definition MaxBlockComputeUnits :: u64 where
  "MaxBlockComputeUnits = MaxComputeUnitsPerTransaction * 5"

definition MaxBlockCostUnits :: u64 where
  "MaxBlockCostUnits = MaxBlockComputeUnits"

record blockResourceUsage =
  ru_compute :: u64
  ru_cost :: u64

definition addBlockResourceUsage :: "blockResourceUsage \<Rightarrow> blockResourceUsage \<Rightarrow> blockResourceUsage \<times> bool" where
  "addBlockResourceUsage current additional =
     (if MaxBlockComputeUnits < ru_compute current \<or> MaxBlockCostUnits < ru_cost current \<or>
         MaxBlockComputeUnits - ru_compute current < ru_compute additional \<or>
         MaxBlockCostUnits - ru_cost current < ru_cost additional
      then (current, True)
      else (\<lparr>ru_compute = ru_compute current + ru_compute additional,
             ru_cost = ru_cost current + ru_cost additional\<rparr>, False))"

definition estimateBlockTransactionResourceDemand :: "host \<Rightarrow> Transaction \<Rightarrow> consensus_error + blockResourceUsage" where
  "estimateBlockTransactionResourceDemand h t =
     rbind (wrap_err (CStructure ''estimate transaction resource demand'')
        (EstimateTransactionResourceDemand (hs_decode h) (hs_charge h) t DefaultBuiltinProgramIDs))
       (\<lambda>(computeUnits, _).
         if MaxComputeUnitsPerTransaction < computeUnits
         then Inl (CText ''compute demand exceeds transaction limit'')
         else Inr \<lparr>ru_compute = computeUnits, ru_cost = computeUnits\<rparr>)"

text \<open>The loop of \<open>selectBlockTransactionPrefix\<close>: \<open>n\<close> is the number of transactions already selected.\<close>

fun select_prefix ::
    "host \<Rightarrow> int \<Rightarrow> nat \<Rightarrow> blockResourceUsage \<Rightarrow> Transaction list \<Rightarrow>
     consensus_error + Transaction list \<times> blockResourceUsage \<times> bool" where
  "select_prefix h maximum n usage [] = Inr ([], usage, False)"
| "select_prefix h maximum n usage (t # ts) =
     (if maximum \<le> int n then Inr ([], usage, True)
      else rbind (estimateBlockTransactionResourceDemand h t) (\<lambda>demand.
        let (nextUsage, exceedsLimit) = addBlockResourceUsage usage demand
        in if exceedsLimit then Inr ([], usage, True)
           else rbind (select_prefix h maximum (Suc n) nextUsage ts) (\<lambda>(selected, usage, truncated).
             Inr (t # selected, usage, truncated))))"

definition selectBlockTransactionPrefix ::
    "host \<Rightarrow> Transaction list \<Rightarrow> int \<Rightarrow> consensus_error + Transaction list \<times> blockResourceUsage \<times> bool" where
  "selectBlockTransactionPrefix h transactions maximumTransactionCount =
     (if maximumTransactionCount < 0 then Inl (CText ''invalid block transaction count limit'')
      else select_prefix h maximumTransactionCount 0 \<lparr>ru_compute = 0, ru_cost = 0\<rparr> transactions)"

definition validateBlockTransactionResources :: "host \<Rightarrow> Transaction list \<Rightarrow> consensus_error + unit" where
  "validateBlockTransactionResources h transactions =
     rbind (selectBlockTransactionPrefix h transactions (int MaxProposalTransactions))
       (\<lambda>(selected, usage, truncated).
         if truncated \<or> length selected \<noteq> length transactions
         then Inl (CText ''proposal resource demand exceeds block limit'') else Inr ())"

definition addActualBlockResourceUsage ::
    "blockResourceUsage \<Rightarrow> TransactionExecutionResult \<Rightarrow> consensus_error + blockResourceUsage" where
  "addActualBlockResourceUsage current execution =
     (let (nextUsage, exceedsLimit) =
            addBlockResourceUsage current \<lparr>ru_compute = x_units execution, ru_cost = x_cost execution\<rparr>
      in if exceedsLimit then Inl (CText ''actual block resources exceed limit'') else Inr nextUsage)"

section \<open>The chain state\<close>

type_synonym chain_state = "AddressedAccount list"

text \<open>
  The index of an address is that of its last account; the map that the source keeps beside the
  list gives the same index after every replacement and every append.
\<close>

fun last_index :: "pubkey \<Rightarrow> chain_state \<Rightarrow> nat option" where
  "last_index k [] = None"
| "last_index k (a # as) =
     (case last_index k as of
        Some i \<Rightarrow> Some (Suc i)
      | None \<Rightarrow> if aa_address a = k then Some 0 else None)"

definition isBuiltinProgramPlaceholder :: "AddressedAccount \<Rightarrow> bool" where
  "isBuiltinProgramPlaceholder a \<longleftrightarrow>
     IsBuiltinProgram DefaultBuiltinProgramIDs (aa_address a) \<and> a_lamports (aa_account a) = 0 \<and>
     length (a_data (aa_account a)) = 0 \<and> \<not> a_executable (aa_account a) \<and>
     a_owner (aa_account a) = pid_NativeLoader DefaultBuiltinProgramIDs"

definition apply_write :: "chain_state \<Rightarrow> AddressedAccount \<Rightarrow> chain_state" where
  "apply_write accounts w =
     (case last_index (aa_address w) accounts of
        Some i \<Rightarrow> accounts[i := w]
      | None \<Rightarrow> if isBuiltinProgramPlaceholder w then accounts else accounts @ [w])"

definition applyWrites :: "chain_state \<Rightarrow> AddressedAccount list \<Rightarrow> chain_state" where
  "applyWrites state ws = foldl apply_write state ws"

definition hashReceipt :: "TransactionExecutionResult \<Rightarrow> hash" where
  "hashReceipt result =
     sha256_hash (put_le 8 (ucast (x_status result) :: u64) @ put_le 8 (f_total (x_fee result)) @
       concat (map (put_le 8) (x_post result)))"

definition markTransactionConfirmed :: "Transaction \<Rightarrow> u64 \<Rightarrow> Transaction" where
  "markTransactionConfirmed t feeLamports = t\<lparr>t_status := TransactionStatusConfirmed, t_fee := feeLamports\<rparr>"

section \<open>Parallel execution\<close>

text \<open>
  The original index of a transaction is only printed in error texts, and the number of workers
  only changes which goroutine runs a job, so neither is part of the input. The text that a
  rejected transaction carries is made from the error of its execution, which stands for it here.
\<close>

record parallelExecutionInput =
  pi_chain :: gostring
  pi_slot :: u64
  pi_epoch :: u64
  pi_transactions :: "Transaction list"
  pi_state :: chain_state
  pi_queue :: BlockhashQueue
  pi_processed :: "gostring set"
  pi_max :: int
  pi_reject :: bool
  pi_mark :: bool
  pi_mode :: gostring

record RejectedTransaction =
  rj_id :: gostring
  rj_transaction :: Transaction
  rj_status :: u16
  rj_error :: "TransactionError option"

record parallelExecutionOutput =
  po_state :: chain_state
  po_transactions :: "Transaction list"
  po_receipts :: "hash list"
  po_fees :: "FeeDetails list"
  po_rejected :: "RejectedTransaction list"
  po_usage :: blockResourceUsage

text \<open>The loop of \<open>selectParallelBatch\<close>; \<open>capacity\<close> is what is left of it.\<close>

fun select_batch ::
    "AccountLockSet \<Rightarrow> int \<Rightarrow> Transaction list \<Rightarrow> structure_error + Transaction list \<times> Transaction list" where
  "select_batch locks capacity [] = Inr ([], [])"
| "select_batch locks capacity (t # ts) =
     (if capacity \<le> 0
      then rbind (select_batch locks capacity ts) (\<lambda>(batch, remaining). Inr (batch, t # remaining))
      else rbind (TryLockTransaction locks t) (\<lambda>(locked, locks).
        if \<not> locked
        then rbind (select_batch locks capacity ts) (\<lambda>(batch, remaining). Inr (batch, t # remaining))
        else rbind (select_batch locks (capacity - 1) ts) (\<lambda>(batch, remaining). Inr (t # batch, remaining))))"

definition selectParallelBatch ::
    "Transaction list \<Rightarrow> int \<Rightarrow> consensus_error + Transaction list \<times> Transaction list" where
  "selectParallelBatch pending remainingCapacity =
     wrap_err (CStructure ''lock transaction'') (select_batch NewAccountLockSet remainingCapacity pending)"

definition zero_simulation_input :: "Transaction \<Rightarrow> chain_state \<Rightarrow> TransactionSimulationInput" where
  "zero_simulation_input t accounts =
     \<lparr>in_transaction = t, in_accounts = accounts, in_queue = \<lparr>bq_entries = [], bq_max_age = 0\<rparr>,
      in_slot = 0, in_epoch = 0,
      in_calculator = \<lparr>fc_per_signature = 0, fc_unit_price = 0, fc_storage_price = 0, fc_burn_percent = 0\<rparr>,
      in_budget = \<lparr>cb_units = 0, cb_price = 0, cb_loaded = 0, cb_storage = 0, cb_heap = 0\<rparr>,
      in_fee = 0, in_fee_source = 0, in_rent = \<lparr>rc_per_byte_year = 0, rc_years = 0, rc_overhead = 0\<rparr>,
      in_programs = zero_programs, in_registry = NewProgramHandlerRegistry, in_extra = [],
      in_fallback = None, in_processed = {}\<rparr>"

definition scheduled_request ::
    "parallelExecutionInput \<Rightarrow> chain_state \<Rightarrow> gostring set \<Rightarrow> Transaction \<Rightarrow> TransactionRequest" where
  "scheduled_request input state processed t =
     \<lparr>rq_chain = pi_chain input, rq_slot = pi_slot input, rq_epoch = pi_epoch input, rq_mode = pi_mode input,
      rq_simulation = (zero_simulation_input t state)
        \<lparr>in_queue := pi_queue input, in_slot := pi_slot input, in_epoch := pi_epoch input,
         in_processed := processed\<rparr>\<rparr>"

definition executeScheduledTransaction ::
    "executor \<Rightarrow> parallelExecutionInput \<Rightarrow> chain_state \<Rightarrow> gostring set \<Rightarrow> Transaction \<Rightarrow>
     consensus_error + TransactionExecutionResult" where
  "executeScheduledTransaction exec input state processed t =
     wrap_err (\<lambda>_. CText ''execute transaction'') (exec (scheduled_request input state processed t))"

text \<open>
  The jobs of a batch read one state and write to separate places of the result, so the order
  in which the workers run them does not matter. When several fail, the error returned is that
  of the worker that stored it first; the error value of the model does not tell them apart.
\<close>

definition executeParallelBatch ::
    "executor \<Rightarrow> parallelExecutionInput \<Rightarrow> chain_state \<Rightarrow> gostring set \<Rightarrow> Transaction list \<Rightarrow>
     consensus_error + (Transaction \<times> TransactionExecutionResult) list" where
  "executeParallelBatch exec input state processed batch =
     rmap (\<lambda>t. rbind (executeScheduledTransaction exec input state processed t) (\<lambda>r. Inr (t, r))) batch"

definition buildRejectedTransaction ::
    "host \<Rightarrow> Transaction \<Rightarrow> TransactionExecutionResult \<Rightarrow> consensus_error + RejectedTransaction" where
  "buildRejectedTransaction h t r =
     rbind (wrap_err (CStructure ''rejected transaction id'') (TxIDString h t)) (\<lambda>transactionID.
       Inr \<lparr>rj_id = transactionID, rj_transaction = t, rj_status = x_status r, rj_error = x_error r\<rparr>)"

text \<open>One iteration of \<open>applyParallelBatchResults\<close>, and the loop.\<close>

definition apply_result ::
    "host \<Rightarrow> parallelExecutionInput \<Rightarrow> chain_state \<Rightarrow> parallelExecutionOutput \<Rightarrow> gostring set \<Rightarrow>
     Transaction \<Rightarrow> TransactionExecutionResult \<Rightarrow>
     consensus_error + chain_state \<times> parallelExecutionOutput \<times> gostring set" where
  "apply_result h input state out processed t r =
     rbind (addActualBlockResourceUsage (po_usage out) r) (\<lambda>usage.
       let out = out\<lparr>po_usage := usage\<rparr>
       in if x_status r \<noteq> TransactionStatusConfirmed
          then if pi_reject input then Inl (CText ''transaction failed'')
               else rbind (buildRejectedTransaction h t r) (\<lambda>rejected.
                 Inr (state, out\<lparr>po_rejected := po_rejected out @ [rejected]\<rparr>, processed))
          else rbind (wrap_err (CStructure ''transaction id'') (TxIDString h t)) (\<lambda>transactionID.
            Inr (applyWrites state (x_written r),
                 out\<lparr>po_transactions := po_transactions out @
                           [if pi_mark input then markTransactionConfirmed t (f_total (x_fee r)) else t],
                         po_fees := po_fees out @ [x_fee r],
                         po_receipts := po_receipts out @ [hashReceipt r]\<rparr>,
                 insert transactionID processed)))"

fun applyParallelBatchResults ::
    "host \<Rightarrow> parallelExecutionInput \<Rightarrow> chain_state \<Rightarrow> parallelExecutionOutput \<Rightarrow> gostring set \<Rightarrow>
     (Transaction \<times> TransactionExecutionResult) list \<Rightarrow>
     consensus_error + chain_state \<times> parallelExecutionOutput \<times> gostring set" where
  "applyParallelBatchResults h input state out processed [] = Inr (state, out, processed)"
| "applyParallelBatchResults h input state out processed ((t, r) # results) =
     rbind (apply_result h input state out processed t r) (\<lambda>(state, out, processed).
       applyParallelBatchResults h input state out processed results)"

lemma select_batch_length:
  "select_batch l c ts = Inr (batch, remaining) \<Longrightarrow> length batch + length remaining = length ts"
  by (induction l c ts arbitrary: batch remaining rule: select_batch.induct)
    (auto simp: result_simps split: if_splits prod.splits)

lemma selectParallelBatch_shrinks:
  assumes "selectParallelBatch pending c = Inr (batch, remaining)" and "batch \<noteq> []"
  shows "length remaining < length pending"
  using assms select_batch_length [of NewAccountLockSet c pending batch remaining]
  by (cases batch) (auto simp: selectParallelBatch_def result_simps)

text \<open>
  The loop of \<open>executeTransactionsParallel\<close>. It ends because a batch is never empty, which the
  source checks.
\<close>

function parallel_loop ::
    "host \<Rightarrow> executor \<Rightarrow> parallelExecutionInput \<Rightarrow> chain_state \<Rightarrow> parallelExecutionOutput \<Rightarrow> gostring set \<Rightarrow>
     Transaction list \<Rightarrow> consensus_error + parallelExecutionOutput" where
  "parallel_loop h exec input state out processed pending =
     (if pending = [] \<or> pi_max input \<le> int (length (po_transactions out)) then Inr out
      else case selectParallelBatch pending (pi_max input - int (length (po_transactions out))) of
        Inl e \<Rightarrow> Inl e
      | Inr (batch, remaining) \<Rightarrow>
          if batch = [] then Inl (CText ''empty parallel execution batch'')
          else rbind (executeParallelBatch exec input state processed batch) (\<lambda>results.
            rbind (applyParallelBatchResults h input state out processed results)
              (\<lambda>(state, out, processed).
                parallel_loop h exec input state (out\<lparr>po_state := state\<rparr>) processed remaining)))"
  by pat_completeness auto
termination
  by (relation "measure (\<lambda>(_, _, _, _, _, _, pending). length pending)")
    (auto simp: selectParallelBatch_shrinks)

declare parallel_loop.simps [simp del]

definition validateParallelExecutionInput :: "executor option \<Rightarrow> parallelExecutionInput \<Rightarrow> consensus_error + executor" where
  "validateParallelExecutionInput exec input =
     (case exec of
        None \<Rightarrow> Inl (CText ''nil transaction executor'')
      | Some x \<Rightarrow> if pi_max input < 0 then Inl (CText ''invalid max included count'') else Inr x)"

definition executeTransactionsParallel ::
    "host \<Rightarrow> executor option \<Rightarrow> parallelExecutionInput \<Rightarrow> consensus_error + parallelExecutionOutput" where
  "executeTransactionsParallel h exec input =
     rbind (validateParallelExecutionInput exec input) (\<lambda>exec.
       parallel_loop h exec input (pi_state input)
         \<lparr>po_state = pi_state input, po_transactions = [], po_receipts = [], po_fees = [], po_rejected = [],
          po_usage = \<lparr>ru_compute = 0, ru_cost = 0\<rparr>\<rparr>
         (pi_processed input) (pi_transactions input))"

end
