(* ===== verification/Block_Replay.thy ===== *)
theory Block_Replay
  imports Parallel_Execution
begin

text \<open>
  A block is executed twice: by its producer, on the transactions it was given, and by each
  verifier, on the transactions that the producer included, in the order of the proposal. This
  theory shows when the two runs agree.
\<close>

section \<open>What a batch is\<close>

definition lockable :: "Transaction \<Rightarrow> bool" where
  "lockable t \<longleftrightarrow> (\<exists>rw. TransactionLockAccounts t = Inr rw)"

text \<open>The batch by conflicts alone: a transaction is taken if it is compatible with all taken before.\<close>

fun greedy :: "Transaction list \<Rightarrow> Transaction list \<Rightarrow> Transaction list \<times> Transaction list" where
  "greedy held [] = ([], [])"
| "greedy held (t # ts) =
     (if \<forall>u \<in> set held. compatible t u
      then (t # fst (greedy (t # held) ts), snd (greedy (t # held) ts))
      else (fst (greedy held ts), t # snd (greedy held ts)))"

lemma TryLock_Inr: "(\<exists>b. TryLockTransaction l t = Inr b) \<longleftrightarrow> lockable t"
  by (cases "TransactionLockAccounts t") (auto simp: TryLockTransaction_def lockable_def split: prod.splits)

lemma TryLock_False: "TryLockTransaction l t = Inr (False, l') \<Longrightarrow> l' = l"
  by (auto simp: TryLockTransaction_def result_simps split: if_splits)

lemma TryLock_lockable:
  assumes "lock_inv (l, held)" and "lockable t"
  shows "\<exists>l'. TryLockTransaction l t = Inr (\<forall>u \<in> set held. compatible t u, l') \<and>
    (if \<forall>u \<in> set held. compatible t u then lock_inv (l', t # held) else l' = l)"
proof -
  obtain b l' where l': "TryLockTransaction l t = Inr (b, l')"
    using assms(2) TryLock_Inr [of l t] by auto
  note b = TryLock_exact [OF assms(1) l']
  show ?thesis
  proof (cases b)
    case True
    then show ?thesis using l' b TryLock_True [of l t l' held] assms(1) by auto
  next
    case False
    then show ?thesis using l' b TryLock_False [of l t l'] by auto
  qed
qed

lemma select_batch_greedy:
  assumes "lock_inv (l, held)" and "int (length ts) \<le> c" and "\<forall>t \<in> set ts. lockable t"
  shows "select_batch l c ts = Inr (greedy held ts)"
  using assms
proof (induction ts arbitrary: l held c)
  case (Cons t ts)
  obtain l' where l': "TryLockTransaction l t = Inr (\<forall>u \<in> set held. compatible t u, l')"
    and inv': "if \<forall>u \<in> set held. compatible t u then lock_inv (l', t # held) else l' = l"
    using TryLock_lockable [of l held t] Cons.prems by auto
  show ?case
  proof (cases "\<forall>u \<in> set held. compatible t u")
    case True
    then have "select_batch l' (c - 1) ts = Inr (greedy (t # held) ts)"
      using Cons.IH [of l' "t # held" "c - 1"] Cons.prems inv' by auto
    then show ?thesis using True l' Cons.prems by (simp add: split_beta)
  next
    case False
    then have "select_batch l' c ts = Inr (greedy held ts)"
      using Cons.IH [of l' held c] Cons.prems inv' by auto
    then show ?thesis using False l' Cons.prems by (auto simp: split_beta)
  qed
qed simp

lemma select_batch_lockable:
  assumes "select_batch l c ts = Inr br" and "int (length ts) \<le> c"
  shows "\<forall>t \<in> set ts. lockable t"
  using assms
proof (induction ts arbitrary: l c br)
  case (Cons t ts)
  obtain b l' where l': "TryLockTransaction l t = Inr (b, l')"
    using Cons.prems by (auto simp: result_simps split: if_splits)
  moreover have "lockable t" using l' TryLock_Inr [of l t] by auto
  moreover have "\<exists>c' br'. select_batch l' c' ts = Inr br' \<and> int (length ts) \<le> c'"
    using Cons.prems l' by (cases b) (force simp: result_simps)+
  ultimately show ?case using Cons.IH by auto
qed simp

lemma lock_inv_new: "lock_inv (NewAccountLockSet, [])"
  by (simp add: lock_inv_def NewAccountLockSet_def)

lemma selectParallelBatch_greedy:
  assumes "int (length ts) \<le> c"
  shows "selectParallelBatch ts c = Inr br \<longleftrightarrow> (\<forall>t \<in> set ts. lockable t) \<and> br = greedy [] ts"
proof -
  have "selectParallelBatch ts c = Inr br \<longleftrightarrow> select_batch NewAccountLockSet c ts = Inr br"
    by (simp add: selectParallelBatch_def wrap_err_eq_Inr)
  then show ?thesis
    using select_batch_greedy [OF lock_inv_new assms] select_batch_lockable [OF _ assms, of NewAccountLockSet br]
    by fastforce
qed

lemma greedy_mset: "mset (fst (greedy held ts)) + mset (snd (greedy held ts)) = mset ts"
  by (induction ts arbitrary: held) auto

lemma greedy_blocked:
  "x \<in> set (snd (greedy held ts)) \<Longrightarrow> \<exists>u \<in> set held \<union> set (fst (greedy held ts)). \<not> compatible x u"
  by (induction ts arbitrary: held) (auto split: if_splits, (meson | force)+)

lemma greedy_free:
  "(\<forall>t \<in> set (fst (greedy held ts)). \<forall>u \<in> set held. compatible t u) \<and>
   sorted_wrt compatible (fst (greedy held ts))"
proof (induction ts arbitrary: held)
  case (Cons t ts)
  from Cons [of "t # held"] Cons [of held] show ?case
    using compatible_sym by auto
qed simp

text \<open>Scheduling a batch followed by what it blocks gives the same batch again.\<close>

lemma greedy_again:
  assumes "\<forall>t \<in> set b. \<forall>u \<in> set held. compatible t u" and "sorted_wrt compatible b"
    and "\<forall>x \<in> set q. \<exists>u \<in> set held \<union> set b. \<not> compatible x u"
  shows "greedy held (b @ q) = (b, q)"
  using assms
proof (induction b arbitrary: held)
  case Nil
  then show ?case by (induction q) auto
next
  case (Cons t b)
  then have "greedy (t # held) (b @ q) = (b, q)"
    by (intro Cons.IH) (auto simp: compatible_sym)
  then show ?case using Cons.prems by simp
qed

section \<open>Marks of included transactions\<close>

text \<open>
  The producer marks what it includes as confirmed and fills in the fee; neither is part of the
  signed message. An executor does not look at them.
\<close>

definition ignores_marks :: "host \<Rightarrow> executor \<Rightarrow> bool" where
  "ignores_marks h exec \<longleftrightarrow>
     (\<forall>t f. TxIDString h (markTransactionConfirmed t f) = TxIDString h t) \<and>
     (\<forall>input s p t f. exec (scheduled_request input s p (markTransactionConfirmed t f)) =
        exec (scheduled_request input s p t))"

lemma locks_ignore_marks [simp]:
  "TransactionLockAccounts (markTransactionConfirmed t f) = TransactionLockAccounts t"
  "lockable (markTransactionConfirmed t f) = lockable t"
  "compatible (markTransactionConfirmed t f) u = compatible t u"
  "compatible u (markTransactionConfirmed t f) = compatible u t"
  by (simp_all add: TransactionLockAccounts_def lockable_def compatible_def reads_def writes_def
      Transaction_OrdexusMessage_def markTransactionConfirmed_def)

definition remark :: "Transaction \<times> TransactionExecutionResult \<Rightarrow> Transaction \<times> TransactionExecutionResult" where
  "remark tr = (markTransactionConfirmed (fst tr) (f_total (x_fee (snd tr))), snd tr)"

text \<open>The run of a verifier has the input of the producer except for what it does with results.\<close>

definition verifies :: "parallelExecutionInput \<Rightarrow> parallelExecutionInput \<Rightarrow> bool" where
  "verifies v input \<longleftrightarrow>
     pi_chain v = pi_chain input \<and> pi_slot v = pi_slot input \<and> pi_epoch v = pi_epoch input \<and>
     pi_queue v = pi_queue input \<and> pi_mode v = pi_mode input \<and> pi_reject v \<and> \<not> pi_mark v"

lemma executeParallelBatch_fst:
  "executeParallelBatch exec input s p b = Inr results \<Longrightarrow> map fst results = b"
  by (induction b arbitrary: results) (auto simp: executeParallelBatch_def result_simps)

lemma executeParallelBatch_remark:
  assumes "ignores_marks h exec" and "verifies v input"
    and "executeParallelBatch exec input s p b = Inr results"
  shows "executeParallelBatch exec v s p (map (fst \<circ> remark) results) = Inr (map remark results)"
proof -
  have same: "scheduled_request v s p t = scheduled_request input s p t" for t
    using assms(2) by (simp add: scheduled_request_def verifies_def)
  have blind: "exec (scheduled_request input s p (markTransactionConfirmed t f)) =
      exec (scheduled_request input s p t)" for t f
    using assms(1) by (simp add: ignores_marks_def)
  show ?thesis
    using assms(3)
    by (induction b arbitrary: results)
      (auto simp: executeParallelBatch_def executeScheduledTransaction_def same blind remark_def result_simps)
qed

lemma apply_rejected:
  "applyParallelBatchResults h input s out p results = Inr (s', out', p') \<Longrightarrow>
     \<exists>rs. po_rejected out' = po_rejected out @ rs"
proof (induction results arbitrary: s out p)
  case (Cons tr results)
  obtain s1 o1 p1 where step: "apply_result h input s out p (fst tr) (snd tr) = Inr (s1, o1, p1)"
    and rest: "applyParallelBatchResults h input s1 o1 p1 results = Inr (s', out', p')"
    using Cons.prems by (cases tr) (auto simp: result_simps)
  have "\<exists>rs. po_rejected o1 = po_rejected out @ rs"
    using step by (auto simp: apply_result_def result_simps Let_def split: if_splits)
  then show ?case using Cons.IH [OF rest] by auto
qed simp

lemma apply_result_confirmed:
  assumes "apply_result h input s out p t r = Inr (s', out', p')" and "po_rejected out' = []"
    and "pi_mark input" and "pi_reject v" and "\<not> pi_mark v"
    and "TxIDString h (markTransactionConfirmed t (f_total (x_fee r))) = TxIDString h t"
  shows "apply_result h v s out p (markTransactionConfirmed t (f_total (x_fee r))) r = Inr (s', out', p')"
    and "po_transactions out' = po_transactions out @ [markTransactionConfirmed t (f_total (x_fee r))]"
  using assms by (auto simp: apply_result_def result_simps Let_def split: if_splits)

lemma apply_confirmed:
  assumes "ignores_marks h exec" and "pi_mark input" and "verifies v input"
    and "applyParallelBatchResults h input s out p results = Inr (s', out', p')" and "po_rejected out' = []"
  shows "applyParallelBatchResults h v s out p (map remark results) = Inr (s', out', p') \<and>
    po_transactions out' = po_transactions out @ map (fst \<circ> remark) results"
  using assms(4,5)
proof (induction results arbitrary: s out p)
  case (Cons tr results)
  obtain t r where tr: "tr = (t, r)" by force
  obtain s1 o1 p1 where step: "apply_result h input s out p t r = Inr (s1, o1, p1)"
    and rest: "applyParallelBatchResults h input s1 o1 p1 results = Inr (s', out', p')"
    using Cons.prems(1) by (auto simp: tr result_simps)
  have "po_rejected o1 = []" using apply_rejected [OF rest] Cons.prems(2) by auto
  with apply_result_confirmed [OF step this assms(2), of v] assms(1,3) Cons.IH [OF rest Cons.prems(2)]
  show ?case by (simp add: tr remark_def verifies_def ignores_marks_def)
qed simp

lemma loop_rejected:
  "parallel_loop h exec input s out p P = Inr outf \<Longrightarrow> \<exists>rs. po_rejected outf = po_rejected out @ rs"
proof (induction P arbitrary: s out p rule: length_induct)
  case (1 P)
  show ?case
  proof (cases "P = [] \<or> pi_max input \<le> int (length (po_transactions out))")
    case True
    then show ?thesis using "1.prems" by (simp add: parallel_loop.simps [of h exec input s out p P])
  next
    case False
    then obtain b r results s1 o1 p1
      where sel: "selectParallelBatch P (pi_max input - int (length (po_transactions out))) = Inr (b, r)"
        and b: "b \<noteq> []"
        and app: "applyParallelBatchResults h input s out p results = Inr (s1, o1, p1)"
        and rest: "parallel_loop h exec input s1 (o1\<lparr>po_state := s1\<rparr>) p1 r = Inr outf"
      using "1.prems" by (subst (asm) parallel_loop.simps) (auto simp: result_simps split: sum.splits if_splits)
    have "length r < length P" using selectParallelBatch_shrinks [OF sel b] .
    then show ?thesis using "1.IH" rest apply_rejected [OF app] by fastforce
  qed
qed

lemma loop_step:
  assumes "parallel_loop h exec input s out p P = Inr outf" and "P \<noteq> []"
    and "int (length (po_transactions out) + length P) \<le> pi_max input"
  obtains results s1 o1 p1 where "\<forall>t \<in> set P. lockable t"
    and "executeParallelBatch exec input s p (fst (greedy [] P)) = Inr results"
    and "applyParallelBatchResults h input s out p results = Inr (s1, o1, p1)"
    and "parallel_loop h exec input s1 (o1\<lparr>po_state := s1\<rparr>) p1 (snd (greedy [] P)) = Inr outf"
proof -
  have cap: "int (length P) \<le> pi_max input - int (length (po_transactions out))"
    and open_: "\<not> pi_max input \<le> int (length (po_transactions out))"
    using assms(2,3) by (cases P; simp)+
  obtain b r results s1 o1 p1
    where sel: "selectParallelBatch P (pi_max input - int (length (po_transactions out))) = Inr (b, r)"
      and run: "executeParallelBatch exec input s p b = Inr results"
        "applyParallelBatchResults h input s out p results = Inr (s1, o1, p1)"
        "parallel_loop h exec input s1 (o1\<lparr>po_state := s1\<rparr>) p1 r = Inr outf"
    using assms(1,2) open_
    by (subst (asm) parallel_loop.simps) (auto simp: result_simps split: sum.splits if_splits)
  have "\<forall>t \<in> set P. lockable t" "b = fst (greedy [] P)" "r = snd (greedy [] P)"
    using selectParallelBatch_greedy [OF cap, of "(b, r)"] sel by (metis fst_conv snd_conv)+
  with run that show thesis by blast
qed

lemma greedy_nonempty: "P \<noteq> [] \<Longrightarrow> fst (greedy [] P) \<noteq> []"
  by (cases P) auto

lemma loop_eq:
  assumes "P \<noteq> []" and "int (length (po_transactions out) + length P) \<le> pi_max input"
    and "\<forall>t \<in> set P. lockable t"
  shows "parallel_loop h exec input s out p P =
    rbind (executeParallelBatch exec input s p (fst (greedy [] P))) (\<lambda>results.
      rbind (applyParallelBatchResults h input s out p results) (\<lambda>(s, out, p).
        parallel_loop h exec input s (out\<lparr>po_state := s\<rparr>) p (snd (greedy [] P))))"
proof -
  have cap: "int (length P) \<le> pi_max input - int (length (po_transactions out))"
    and "\<not> pi_max input \<le> int (length (po_transactions out))"
    using assms(1,2) by (cases P; simp)+
  moreover have "selectParallelBatch P (pi_max input - int (length (po_transactions out))) = Inr (greedy [] P)"
    using selectParallelBatch_greedy [OF cap, of "greedy [] P"] assms(3) by simp
  ultimately show ?thesis
    using assms(1) greedy_nonempty [of P]
    by (simp add: parallel_loop.simps [of h exec input s out p P] split_beta)
qed

lemma loop_unfold:
  assumes "P \<noteq> []" and "int (length (po_transactions out) + length P) \<le> pi_max input"
    and "\<forall>t \<in> set P. lockable t"
    and "executeParallelBatch exec input s p (fst (greedy [] P)) = Inr results"
    and "applyParallelBatchResults h input s out p results = Inr (s1, o1, p1)"
  shows "parallel_loop h exec input s out p P =
    parallel_loop h exec input s1 (o1\<lparr>po_state := s1\<rparr>) p1 (snd (greedy [] P))"
  using assms by (simp add: loop_eq)

section \<open>Replay\<close>

lemma greedy_remarked:
  assumes "map fst results = fst (greedy [] P)"
    and "\<forall>q \<in> set Q. \<exists>t \<in> set (snd (greedy [] P)). \<exists>f. q = markTransactionConfirmed t f"
  shows "greedy [] (map (fst \<circ> remark) results @ Q) = (map (fst \<circ> remark) results, Q)"
proof (rule greedy_again)
  show "sorted_wrt compatible (map (fst \<circ> remark) results)"
    using greedy_free [of "[]" P] unfolding assms(1) [symmetric]
    by (simp add: sorted_wrt_map remark_def)
  show "\<forall>x \<in> set Q. \<exists>u \<in> set [] \<union> set (map (fst \<circ> remark) results). \<not> compatible x u"
  proof
    fix x
    assume "x \<in> set Q"
    then obtain t f where t: "t \<in> set (snd (greedy [] P))" and x: "x = markTransactionConfirmed t f"
      using assms(2) by blast
    obtain u where "u \<in> set (map fst results)" and "\<not> compatible t u"
      using greedy_blocked [OF t] assms(1) by auto
    then show "\<exists>u \<in> set [] \<union> set (map (fst \<circ> remark) results). \<not> compatible x u"
      by (force simp: x remark_def)
  qed
qed simp

text \<open>
  If no transaction was rejected, a verifier schedules the included transactions into the batches
  of the producer: each batch is again taken whole, and everything after it is blocked by it.
\<close>

lemma replay_loop:
  assumes "ignores_marks h exec" and "pi_mark input" and "verifies v input"
    and "parallel_loop h exec input s out p P = Inr outf" and "po_rejected outf = []"
    and "int (length (po_transactions out) + length P) \<le> pi_max input"
    and "int (length (po_transactions out) + length P) \<le> pi_max v"
  shows "\<exists>Q. po_transactions outf = po_transactions out @ Q \<and> length Q = length P \<and>
    (\<forall>q \<in> set Q. \<exists>t \<in> set P. \<exists>f. q = markTransactionConfirmed t f) \<and>
    parallel_loop h exec v s out p Q = Inr outf"
  using assms(4-)
proof (induction P arbitrary: s out p rule: length_induct)
  case (1 P)
  show ?case
  proof (cases "P = []")
    case True
    then show ?thesis using "1.prems"(1) by (simp add: parallel_loop.simps [of _ _ _ _ _ _ "[]"])
  next
    case False
    let ?b = "fst (greedy [] P)" and ?r = "snd (greedy [] P)"
    obtain results s1 o1 p1 where lock: "\<forall>t \<in> set P. lockable t"
      and ex: "executeParallelBatch exec input s p ?b = Inr results"
      and app: "applyParallelBatchResults h input s out p results = Inr (s1, o1, p1)"
      and rest: "parallel_loop h exec input s1 (o1\<lparr>po_state := s1\<rparr>) p1 ?r = Inr outf"
      using loop_step [OF "1.prems"(1) False "1.prems"(3)] by blast
    let ?B = "map (fst \<circ> remark) results"
    have fst_b: "map fst results = ?b" by (rule executeParallelBatch_fst [OF ex])
    have sizes: "length ?B + length ?r = length P" and sub: "set ?r \<subseteq> set P" "set ?b \<subseteq> set P"
      using arg_cong [OF greedy_mset [of "[]" P], of size] arg_cong [OF greedy_mset [of "[]" P], of set_mset] fst_b
      by (auto simp flip: length_map [of fst])
    have "po_rejected o1 = []" using loop_rejected [OF rest] "1.prems"(2) by simp
    from apply_confirmed [OF assms(1-3) app this]
    have app': "applyParallelBatchResults h v s out p (map remark results) = Inr (s1, o1, p1)"
      and o1: "po_transactions o1 = po_transactions out @ ?B" by auto
    have short: "length ?r < length P" using sizes greedy_nonempty [OF False] fst_b by (cases results) auto
    have keep: "po_transactions (o1\<lparr>po_state := s1\<rparr>) = po_transactions o1" by simp
    have room: "int (length (po_transactions (o1\<lparr>po_state := s1\<rparr>)) + length ?r) \<le> pi_max input"
      "int (length (po_transactions (o1\<lparr>po_state := s1\<rparr>)) + length ?r) \<le> pi_max v"
      using sizes "1.prems"(3,4) o1 by auto
    obtain Q where Q: "po_transactions outf = po_transactions o1 @ Q" "length Q = length ?r"
      "\<forall>q \<in> set Q. \<exists>t \<in> set ?r. \<exists>f. q = markTransactionConfirmed t f"
      "parallel_loop h exec v s1 (o1\<lparr>po_state := s1\<rparr>) p1 Q = Inr outf"
      using "1.IH" [rule_format, OF short rest "1.prems"(2) room] unfolding keep by (elim exE conjE) (rule that)
    have marks: "\<forall>q \<in> set (?B @ Q). \<exists>t \<in> set P. \<exists>f. q = markTransactionConfirmed t f"
    proof -
      have "fst tr \<in> set P" if "tr \<in> set results" for tr
        using that sub(2) unfolding fst_b [symmetric] by auto
      then show ?thesis using Q(3) sub(1) by (simp add: ball_Un remark_def) blast
    qed
    have again: "greedy [] (?B @ Q) = (?B, Q)" by (rule greedy_remarked [OF fst_b Q(3)])
    have locks': "\<forall>q \<in> set (?B @ Q). lockable q" using marks lock by fastforce
    have "?B @ Q \<noteq> []" using sizes Q(2) False by auto
    moreover have "int (length (po_transactions out) + length (?B @ Q)) \<le> pi_max v"
      using sizes Q(2) "1.prems"(4) by simp
    ultimately have "parallel_loop h exec v s out p (?B @ Q) = Inr outf"
      using loop_unfold [OF _ _ locks', of out v exec s p "map remark results" h s1 o1 p1] Q(4)
        executeParallelBatch_remark [OF assms(1,3) ex] app' by (simp only: again fst_conv snd_conv simp_thms)
    then show ?thesis using Q sizes o1 marks by (intro exI [of _ "?B @ Q"]) auto
  qed
qed

section \<open>The fixed executor\<close>

lemma mark_simps [simp]:
  "t_signatures (markTransactionConfirmed t f) = t_signatures t"
  "Transaction_OrdexusMessage (markTransactionConfirmed t f) = Transaction_OrdexusMessage t"
  "Transaction_Validate d (markTransactionConfirmed t f) = Transaction_Validate d t"
  by (simp_all add: markTransactionConfirmed_def Transaction_OrdexusMessage_def Transaction_Validate_def
      validateSignatureCount_def)

abbreviation mark_input :: "TransactionSimulationInput \<Rightarrow> u64 \<Rightarrow> TransactionSimulationInput" where
  "mark_input input f \<equiv> input\<lparr>in_transaction := markTransactionConfirmed (in_transaction input) f\<rparr>"

definition unsigned_ids_ignore_marks :: "host \<Rightarrow> bool" where
  "unsigned_ids_ignore_marks h \<longleftrightarrow>
     (\<forall>t f. hs_unsigned_id h (markTransactionConfirmed t f) = hs_unsigned_id h t)"

lemma TxIDString_mark:
  "unsigned_ids_ignore_marks h \<Longrightarrow> TxIDString h (markTransactionConfirmed t f) = TxIDString h t"
  by (simp add: TxIDString_def TxID_def unsigned_ids_ignore_marks_def split: list.split)

lemma checks_ignore_marks [simp]:
  "HasValidSignatures vf (markTransactionConfirmed t f) = HasValidSignatures vf t"
  "EstimateTransactionComputeBudget d c (markTransactionConfirmed t f) p = EstimateTransactionComputeBudget d c t p"
  "validateTransactionAuthorization (markTransactionConfirmed t f) m p = validateTransactionAuthorization t m p"
  by (simp_all add: HasValidSignatures_def VerifySignatures_def validateSignatureCount_def
      EstimateTransactionComputeBudget_def EstimateTransactionResourceDemand_def validateTransactionAuthorization_def)

lemma normalize_mark:
  "normalizeSimulationInput h (mark_input input f) =
     rbind (normalizeSimulationInput h input) (\<lambda>inp. Inr (mark_input inp f))"
  by (cases input)
    (simp add: normalizeSimulationInput_def Let_def rbind_assoc if_distrib [where f = "\<lambda>r. rbind r g" for g] cong: if_cong)

lemma admit_mark:
  "unsigned_ids_ignore_marks h \<Longrightarrow> admit h (mark_input input f) = admit h input"
  by (simp add: admit_def TxIDString_mark Let_def cong: if_cong)

lemma load_mark:
  "load_accounts h (mark_input input f) m fee =
     rbind (load_accounts h input m fee) (\<lambda>(a, lt).
       Inr (a, lt\<lparr>lt_transaction := markTransactionConfirmed (in_transaction input) f\<rparr>))"
  by (simp add: load_accounts_def NewLoadedTransaction_def LoadedTransaction_Validate_def Let_def rbind_def
      wrap_err_def split: sum.split)

lemma run_mark:
  "run_instructions (input\<lparr>in_transaction := t\<rparr>) (lt\<lparr>lt_transaction := t\<rparr>) reg n is A c r =
     run_instructions input lt reg n is A c r"
  by (induction "is" arbitrary: n A c r)
    (simp add: ExecuteInstructionSandbox_def roll_back_def Let_def split_beta split: sum.split)+

lemma prepare_mark:
  assumes "unsigned_ids_ignore_marks h"
  shows "prepareSimulation h (mark_input input f) =
    (case prepareSimulation h input of (lt, r, v) \<Rightarrow>
       (map_option (\<lambda>lt. lt\<lparr>lt_transaction := markTransactionConfirmed (in_transaction input) f\<rparr>) lt, r, v))"
proof (cases "admit h input")
  case (Inr mf)
  obtain m fee where mf: "mf = (m, fee)" by force
  show ?thesis
  proof (cases "load_accounts h input m fee")
    case (Inr al)
    obtain a lt where "al = (a, lt)" by force
    with Inr \<open>admit h input = Inr mf\<close> show ?thesis
      by (simp add: prepareSimulation_def admit_mark [OF assms] load_mark mf Let_def split: sum.split)
  qed (simp add: prepareSimulation_def admit_mark [OF assms] load_mark mf Inr Let_def split_beta)
qed (simp add: prepareSimulation_def admit_mark [OF assms] Let_def split_beta)

lemma finish_mark: "finish (input\<lparr>in_transaction := t\<rparr>) (lt\<lparr>lt_transaction := t\<rparr>) r = finish input lt r"
  by (auto simp: finish_def roll_back_def split: run.split sum.split)

lemma Simulate_mark:
  assumes "unsigned_ids_ignore_marks h"
  shows "Simulate h (mark_input input f) = Simulate h input"
proof (cases "normalizeSimulationInput h input")
  case (Inr inp)
  have "newSimulationProgramRegistry (inp\<lparr>in_transaction := t\<rparr>) = newSimulationProgramRegistry inp" for t
    by (simp add: newSimulationProgramRegistry_def split: option.split)
  then show ?thesis
    by (simp add: Simulate_def normalize_mark Inr prepare_mark [OF assms] run_mark finish_mark Let_def
        split: prod.split option.split sum.split)
qed (simp add: Simulate_def normalize_mark)

lemma fixed_executor_ignores_marks:
  assumes "unsigned_ids_ignore_marks h"
  shows "ignores_marks h (FixedExecutor_ExecuteTransaction h programs)"
proof -
  have "executor_input programs (scheduled_request input s p (markTransactionConfirmed t f)) =
      mark_input (executor_input programs (scheduled_request input s p t)) f" for input s p t f
    by (simp add: executor_input_def scheduled_request_def zero_simulation_input_def Let_def)
  moreover have "validateTransactionRequest (scheduled_request input s p (markTransactionConfirmed t f)) =
      validateTransactionRequest (scheduled_request input s p t)" for input s p t f
    by (simp add: validateTransactionRequest_def scheduled_request_def)
  ultimately show ?thesis using TxIDString_mark [OF assms] Simulate_mark [OF assms]
    by (simp add: ignores_marks_def FixedExecutor_ExecuteTransaction_def)
qed

end
