(* ===== verification/Block_Properties.thy ===== *)
theory Block_Properties
  imports Block_Replay
begin

text \<open>What the execution of blocks guarantees, and where producer and verifier part.\<close>

text \<open>The input of a verifier for a block that was produced from \<open>input\<close>.\<close>

definition verifier_input :: "parallelExecutionInput \<Rightarrow> Transaction list \<Rightarrow> parallelExecutionInput" where
  "verifier_input input ts =
     input\<lparr>pi_transactions := ts, pi_max := int (length ts), pi_reject := True, pi_mark := False\<rparr>"

text \<open>
  C5: If the producer of a block rejected none of its transactions, a verifier that executes the
  included transactions, in their new order, obtains the very same output: state, receipts, fees
  and resource usage.
\<close>

theorem verifier_replays_block:
  assumes "ignores_marks h exec" and "pi_mark input"
    and "int (length (pi_transactions input)) \<le> pi_max input"
    and "executeTransactionsParallel h (Some exec) input = Inr out" and "po_rejected out = []"
  shows "executeTransactionsParallel h (Some exec) (verifier_input input (po_transactions out)) = Inr out"
proof -
  let ?o = "\<lparr>po_state = pi_state input, po_transactions = [], po_receipts = [], po_fees = [],
    po_rejected = [], po_usage = \<lparr>ru_compute = 0, ru_cost = 0\<rparr>\<rparr>"
  let ?v = "verifier_input input (po_transactions out)"
  let ?w = "input\<lparr>pi_transactions := po_transactions out, pi_max := int (length (pi_transactions input)),
    pi_reject := True, pi_mark := False\<rparr>"
  have run: "parallel_loop h exec input (pi_state input) ?o (pi_processed input) (pi_transactions input) = Inr out"
    using assms(3,4) by (simp add: executeTransactionsParallel_def validateParallelExecutionInput_def)
  have "verifies ?w input" by (simp add: verifies_def)
  from replay_loop [OF assms(1,2) this run assms(5)] assms(3)
  have "parallel_loop h exec ?w (pi_state input) ?o (pi_processed input) (po_transactions out) = Inr out"
    and "length (po_transactions out) = length (pi_transactions input)" by auto
  then show ?thesis
    by (simp add: executeTransactionsParallel_def validateParallelExecutionInput_def verifier_input_def)
qed

section \<open>Runs on small blocks\<close>

text \<open>
  Transactions that write one or two accounts, and an executor that fails transactions with
  identifier 1 and lets the others leave their identifier in account 9 if they hold it.
\<close>

definition demo_host :: host where
  "demo_host =
     \<lparr>hs_decode = (\<lambda>_. Inl ErrInvalidInstruction), hs_charge = (\<lambda>_. Inl ErrInvalidInstruction),
      hs_verify = (\<lambda>_ _ _. True), hs_unsigned_id = (\<lambda>_. Inr 0)\<rparr>"

definition demo_transaction :: "signature \<Rightarrow> pubkey list \<Rightarrow> Transaction" where
  "demo_transaction n ks =
     \<lparr>t_signatures = [n], t_accounts = [], t_instructions = [], t_blockhash = 0,
      t_message = \<lparr>msg_header = \<lparr>h_required = 1, h_ro_signed = 0, h_ro_unsigned = 1\<rparr>, msg_keys = ks @ [5],
        msg_blockhash = 9, msg_instructions = [\<lparr>ci_program = 1, ci_accounts = [0], ci_data = []\<rparr>],
        msg_lookups = [], msg_version = 0, msg_uses_table = False\<rparr>,
      t_fee = 0, t_size = 0, t_submit = 0, t_status = 0\<rparr>"

definition demo_executor :: executor where
  "demo_executor request =
     (let t = in_transaction (rq_simulation request); n = hd (t_signatures t)
      in if n = 1 then Inr (zero_result\<lparr>x_status := TransactionStatusFailed\<rparr>)
         else Inr (zero_result\<lparr>x_status := TransactionStatusConfirmed,
           x_written := (if 9 \<in> set (msg_keys (t_message t))
             then [\<lparr>aa_address = 9, aa_account = zero_account\<lparr>a_data := [ucast n]\<rparr>\<rparr>] else [])\<rparr>))"

definition demo_input :: "Transaction list \<Rightarrow> parallelExecutionInput" where
  "demo_input ts =
     \<lparr>pi_chain = [], pi_slot = 1, pi_epoch = 0, pi_transactions = ts,
      pi_state = [\<lparr>aa_address = 9, aa_account = zero_account\<rparr>],
      pi_queue = \<lparr>bq_entries = [], bq_max_age = 0\<rparr>, pi_processed = {}, pi_max = 1000,
      pi_reject = False, pi_mark = True, pi_mode = ExecutionModeFixedInstruction\<rparr>"

lemma demo_locks:
  "k \<noteq> 5 \<Longrightarrow> TransactionLockAccounts (demo_transaction n [k]) = Inr ({5}, {k})"
  "k \<noteq> 5 \<Longrightarrow> l \<noteq> 5 \<Longrightarrow> k \<noteq> l \<Longrightarrow> TransactionLockAccounts (demo_transaction n [k, l]) = Inr ({5}, {k, l})"
  by (simp (no_asm_simp) add: TransactionLockAccounts_def demo_transaction_def Transaction_OrdexusMessage_def
      Message_IsZero_def NewResolvedMessage_def Message_Validate_def totalAccountCount_def message_limits
      validateMessageHeader_def validateCompiledInstructions_def validateInstruction_def
      validateAddressTableLookups_def LoadedAddresses_Validate_def no_addresses_def
      hasDuplicatePublicKeys_def ResolvedMessage_Validate_def IsWritableMessageAccount_def
      Resolved_StaticAccountMetas_def static_metas_def static_meta_def Let_def,
    rule conjI; rule set_eqI; auto simp: less_Suc_eq image_iff
      conj_disj_distribR conj_disj_distribL ex_disj_distrib)+

lemma demo_blind: "ignores_marks demo_host demo_executor"
proof -
  have "unsigned_ids_ignore_marks demo_host" by (simp add: unsigned_ids_ignore_marks_def demo_host_def)
  note TxIDString_mark [OF this]
  moreover have "t_message (markTransactionConfirmed t f) = t_message t" for t f
    by (simp add: markTransactionConfirmed_def)
  ultimately show ?thesis
    by (simp add: ignores_marks_def demo_executor_def scheduled_request_def zero_simulation_input_def Let_def)
qed

lemma demo_id: "TxIDString demo_host (demo_transaction n ks) = Inr (Base58Encode (put_le 64 n))"
  by (simp add: TxIDString_def TxID_def demo_transaction_def)

lemma demo_id_marked:
  "TxIDString demo_host (markTransactionConfirmed (demo_transaction n ks) f) = Inr (Base58Encode (put_le 64 n))"
  using demo_blind demo_id by (simp add: ignores_marks_def)

lemma demo_runs:
  "demo_executor (scheduled_request input s p (demo_transaction n ks)) =
     (if n = 1 then Inr (zero_result\<lparr>x_status := TransactionStatusFailed\<rparr>)
      else Inr (zero_result\<lparr>x_status := TransactionStatusConfirmed,
        x_written := (if 9 \<in> set ks
          then [\<lparr>aa_address = 9, aa_account = zero_account\<lparr>a_data := [ucast n]\<rparr>\<rparr>] else [])\<rparr>))"
  by (simp add: demo_executor_def scheduled_request_def zero_simulation_input_def demo_transaction_def Let_def)

lemma demo_runs_marked:
  "demo_executor (scheduled_request input s p (markTransactionConfirmed t f)) =
     demo_executor (scheduled_request input s p t)"
  using demo_blind by (simp add: ignores_marks_def)

definition demo_keys :: "pubkey list \<Rightarrow> bool" where
  "demo_keys ks \<longleftrightarrow> distinct ks \<and> 5 \<notin> set ks \<and> (length ks = 1 \<or> length ks = 2)"

lemma demo_accounts:
  assumes "demo_keys ks"
  shows "TransactionLockAccounts (demo_transaction n ks) = Inr ({5}, set ks)"
proof -
  obtain k l where "ks = [k] \<or> ks = [k, l]"
    using assms by (auto simp: demo_keys_def length_Suc_conv numeral_2_eq_2)
  then show ?thesis using assms by (auto simp: demo_keys_def demo_locks)
qed

lemma demo_lockable: "demo_keys ks \<Longrightarrow> lockable (demo_transaction n ks)"
  by (simp add: lockable_def demo_accounts)

lemma demo_compatible:
  assumes "demo_keys ks" and "demo_keys ls"
  shows "compatible (demo_transaction n ks) (demo_transaction m ls) \<longleftrightarrow> set ks \<inter> set ls = {}"
  using assms by (auto simp: compatible_def reads_def writes_def demo_accounts) (auto simp: demo_keys_def)

lemma demo_usage:
  "x_units r = 0 \<Longrightarrow> x_cost r = 0 \<Longrightarrow>
   addActualBlockResourceUsage \<lparr>ru_compute = 0, ru_cost = 0\<rparr> r = Inr \<lparr>ru_compute = 0, ru_cost = 0\<rparr>"
  by (simp add: addActualBlockResourceUsage_def addBlockResourceUsage_def)

text \<open>The output after some results, with account 9 holding \<open>d\<close>.\<close>

definition demo_state :: "bytes \<Rightarrow> chain_state" where
  "demo_state d = [\<lparr>aa_address = 9, aa_account = zero_account\<lparr>a_data := d\<rparr>\<rparr>]"

definition demo_result :: "bytes \<Rightarrow> Transaction list \<Rightarrow> hash list \<Rightarrow> RejectedTransaction list \<Rightarrow> parallelExecutionOutput" where
  "demo_result d ts hs rs =
     \<lparr>po_state = demo_state d, po_transactions = ts, po_receipts = hs, po_fees = map (\<lambda>_. zero_fee_details) ts,
      po_rejected = rs, po_usage = \<lparr>ru_compute = 0, ru_cost = 0\<rparr>\<rparr>"

definition demo_outcome :: "signature \<Rightarrow> pubkey list \<Rightarrow> TransactionExecutionResult" where
  "demo_outcome n ks =
     (if n = 1 then zero_result\<lparr>x_status := TransactionStatusFailed\<rparr>
      else zero_result\<lparr>x_status := TransactionStatusConfirmed,
        x_written := (if 9 \<in> set ks
          then [\<lparr>aa_address = 9, aa_account = zero_account\<lparr>a_data := [ucast n]\<rparr>\<rparr>] else [])\<rparr>)"

lemma demo_executes:
  "executeParallelBatch demo_executor input s p [] = Inr []"
  "executeParallelBatch demo_executor input s p (demo_transaction n ks # b) =
     rbind (executeParallelBatch demo_executor input s p b) (\<lambda>rs. Inr ((demo_transaction n ks, demo_outcome n ks) # rs))"
  "executeParallelBatch demo_executor input s p (markTransactionConfirmed (demo_transaction n ks) f # b) =
     rbind (executeParallelBatch demo_executor input s p b)
       (\<lambda>rs. Inr ((markTransactionConfirmed (demo_transaction n ks) f, demo_outcome n ks) # rs))"
  by (simp_all add: executeParallelBatch_def executeScheduledTransaction_def demo_runs demo_runs_marked
      demo_outcome_def)

lemma demo_confirm:
  assumes "n \<noteq> 1" and "TxIDString demo_host t = Inr i"
  shows "apply_result demo_host input (demo_state d) (demo_result e ts hs rs) p t (demo_outcome n ks) =
    Inr (demo_state (if 9 \<in> set ks then [ucast n] else d),
      demo_result e (ts @ [if pi_mark input then markTransactionConfirmed t 0 else t])
        (hs @ [hashReceipt (demo_outcome n ks)]) rs, insert i p)"
proof -
  have "f_total zero_fee_details = 0" by (simp add: zero_fee_details_def)
  then show ?thesis
    using assms by (simp add: apply_result_def demo_result_def demo_state_def demo_outcome_def demo_usage
        zero_result_def applyWrites_def apply_write_def status_defs)
qed

lemma demo_fail:
  assumes "\<not> pi_reject input" and "TxIDString demo_host t = Inr i"
  shows "apply_result demo_host input s (demo_result e ts hs rs) p t (demo_outcome 1 ks) =
    Inr (s, demo_result e ts hs (rs @ [\<lparr>rj_id = i, rj_transaction = t,
      rj_status = TransactionStatusFailed, rj_error = None\<rparr>]), p)"
  using assms by (simp add: apply_result_def demo_result_def demo_outcome_def demo_usage
      zero_result_def buildRejectedTransaction_def status_defs)

lemma demo_update: "demo_result e ts hs rs\<lparr>po_state := demo_state d\<rparr> = demo_result d ts hs rs"
  by (simp add: demo_result_def)

lemma demo_done: "parallel_loop h exec input s out p [] = Inr out"
  by (simp add: parallel_loop.simps)

lemma demo_start:
  "executeTransactionsParallel demo_host (Some demo_executor) (demo_input ts) =
     parallel_loop demo_host demo_executor (demo_input ts) (demo_state []) (demo_result [] [] [] []) {} ts"
  "executeTransactionsParallel demo_host (Some demo_executor) (verifier_input (demo_input ts) us) =
     parallel_loop demo_host demo_executor (verifier_input (demo_input ts) us) (demo_state [])
       (demo_result [] [] [] []) {} us"
  by (simp_all add: executeTransactionsParallel_def validateParallelExecutionInput_def demo_input_def
      verifier_input_def demo_state_def demo_result_def zero_account_def)

lemmas demo_simps = demo_executes demo_confirm demo_fail demo_update demo_done demo_id demo_id_marked
  demo_compatible demo_lockable demo_keys_def

definition demo_block :: "Transaction list" where
  "demo_block = [demo_transaction 1 [1], demo_transaction 2 [2], demo_transaction 3 [2, 9], demo_transaction 4 [1, 9]]"

lemma demo_input_simps [simp]:
  "pi_mark (demo_input ts)" "\<not> pi_reject (demo_input ts)" "pi_max (demo_input ts) = 1000"
  "\<not> pi_mark (verifier_input i us)" "pi_reject (verifier_input i us)" "pi_max (verifier_input i us) = int (length us)"
  by (simp_all add: demo_input_def verifier_input_def)

lemma demo_room: "length (po_transactions (demo_result d ts hs rs)) = length ts"
  by (simp add: demo_result_def)

lemma demo_produced:
  "\<exists>hs r. executeTransactionsParallel demo_host (Some demo_executor) (demo_input demo_block) =
     Inr (demo_result [4] (map (\<lambda>t. markTransactionConfirmed t 0)
       [demo_transaction 2 [2], demo_transaction 3 [2, 9], demo_transaction 4 [1, 9]]) hs [r])"
  unfolding demo_start demo_block_def
  by (simp add: demo_simps loop_eq demo_room) blast

lemma demo_replayed:
  "\<exists>hs. executeTransactionsParallel demo_host (Some demo_executor) (verifier_input (demo_input demo_block)
       (map (\<lambda>t. markTransactionConfirmed t 0)
         [demo_transaction 2 [2], demo_transaction 3 [2, 9], demo_transaction 4 [1, 9]])) =
     Inr (demo_result [3] (map (\<lambda>t. markTransactionConfirmed t 0)
         [demo_transaction 2 [2], demo_transaction 4 [1, 9], demo_transaction 3 [2, 9]]) hs [])"
  unfolding demo_start
  by (simp add: demo_simps loop_eq demo_room) blast

theorem verifier_replays_block_witness:
  "\<exists>out. executeTransactionsParallel demo_host (Some demo_executor)
      (demo_input [demo_transaction 3 [2, 9], demo_transaction 2 [2], demo_transaction 4 [1]]) = Inr out \<and>
    po_transactions out = map (\<lambda>t. markTransactionConfirmed t 0)
      [demo_transaction 3 [2, 9], demo_transaction 4 [1], demo_transaction 2 [2]] \<and>
    executeTransactionsParallel demo_host (Some demo_executor)
      (verifier_input (demo_input [demo_transaction 3 [2, 9], demo_transaction 2 [2], demo_transaction 4 [1]])
        (po_transactions out)) = Inr out"
proof -
  let ?i = "demo_input [demo_transaction 3 [2, 9], demo_transaction 2 [2], demo_transaction 4 [1]]"
  obtain hs where run: "executeTransactionsParallel demo_host (Some demo_executor) ?i =
    Inr (demo_result [3] (map (\<lambda>t. markTransactionConfirmed t 0)
      [demo_transaction 3 [2, 9], demo_transaction 4 [1], demo_transaction 2 [2]]) hs [])"
    unfolding demo_start by (simp add: demo_simps loop_eq demo_room)
  moreover have "int (length (pi_transactions ?i)) \<le> pi_max ?i" by (simp add: demo_input_def)
  ultimately show ?thesis
    using verifier_replays_block [OF demo_blind demo_input_simps(1) _ run] by (simp add: demo_result_def)
qed


end
