(* ===== verification/Spec2Isabelle.thy ===== *)
theory Spec2Isabelle
  imports Prelude Go_Strings Sha256 Borsh Structure_Base Accounts System_Instructions Short_Vec
    Base58 Messages Transactions Fees Resolved_Messages Blockhash_Queue Runtime_Accounts
    Program_Runtime System_Program Account_Locks Execution Simulator Simulation_Safety
    Vm_Accounts Vm_Programs Vm_Syscalls Vm_Machine Vm_Safety Vm_Properties Votes Bls_Certificates
    Certificate_Safety Vote_Collector Collector_Invariant Collector_Properties
    Parallel_Execution Block_Replay Block_Properties
begin

text \<open>
  \<^bold>\<open>Ordexus Core: the ledger, its virtual machine and its consensus.\<close>

  The program under \<open>src/\<close> is a proof-of-stake blockchain node in Go. Transactions arrive in a
  binary form and are decoded and validated (\<open>structure\<close>, \<open>codec/borsh\<close>, \<open>utils\<close>). A transaction
  is executed on a snapshot of the accounts by the simulator (\<open>runtime\<close>), which checks signatures
  and fees and hands each instruction to a program of its registry: the system program
  (\<open>programs/system\<close>) or code of the virtual machine (\<open>vm\<close>). Validators vote on blocks and the votes
  are collected into quorum certificates (\<open>consensus\<close>). This development models these parts
  as HOL functions, one definition per function of the source, and proves what they promise each
  other.

  \<^bold>\<open>Conventions.\<close> An unsigned integer of \<open>n\<close> bits is an \<open>n\<close> word, so that arithmetic wraps as in Go; a
  signed one is read by \<^const>\<open>sint\<close> where its sign matters. An array of 32 octets is a word of 256
  bits, a slice or a string a list of octets. Lengths are natural numbers. An error is a value: a
  function that may fail returns a sum whose left side is an error, composed by \<open>rbind\<close>, and \<open>RPanic\<close>
  stands for an index or nil panic. A map is a function to options or an association list when
  something depends on its order; where Go ranges over a map, the result is proved or sorted so
  that the order does not matter. A mutex has no counterpart, because each method holds it for its
  whole body: operations are atomic steps. Clones and logging are the identity.

  \<^bold>\<open>Theories and sources.\<close>

  \<^item> \<open>Prelude\<close>: the error monad, little-endian integers, facts on lists and words, and the
    locales that the components share: \<open>wire_format\<close> for codecs and \<open>step_invariant\<close> for
    state machines. \<open>Go_Strings\<close> models the standard library's string functions and UTF-8,
    \<open>Sha256\<close> the hash function.
  \<^item> \<open>Borsh\<close>: \<open>codec/borsh/codec.go\<close>; the locale \<open>borsh_codec\<close> is interpreted for each primitive and
    the locale \<open>message_codec\<close> for each record that is written with it.
  \<^item> \<open>Structure_Base\<close>, \<open>Accounts\<close>, \<open>System_Instructions\<close>, \<open>Short_Vec\<close>, \<open>Base58\<close>: the values of
    \<open>structure/value.go\<close>, \<open>account.go\<close>, \<open>system_instruction.go\<close>, \<open>utils/encoding.go\<close>.
  \<^item> \<open>Messages\<close>, \<open>Transactions\<close>, \<open>Resolved_Messages\<close>: \<open>structure/transaction.go\<close>, \<open>signature.go\<close>,
    \<open>loaded_transaction.go\<close>; \<open>Fees\<close>: \<open>fee.go\<close>, \<open>fee_budget.go\<close>, \<open>monetary_policy.go\<close>;
    \<open>Blockhash_Queue\<close>: \<open>blockhash_status.go\<close>; \<open>Execution\<close>: \<open>execution.go\<close>.
  \<^item> \<open>Runtime_Accounts\<close>, \<open>Program_Runtime\<close>, \<open>Account_Locks\<close>, \<open>Simulator\<close>: \<open>runtime/account_ops.go\<close>,
    \<open>program.go\<close>, \<open>permission.go\<close>, \<open>account_locks.go\<close>, \<open>simulator.go\<close>; \<open>System_Program\<close>:
    \<open>programs/system/program.go\<close>; \<open>Simulation_Safety\<close> has the theorems about whole transactions.
  \<^item> \<open>Vm_Accounts\<close>, \<open>Vm_Programs\<close>, \<open>Vm_Syscalls\<close>, \<open>Vm_Machine\<close>: the files of \<open>vm\<close>; \<open>Vm_Safety\<close> and
    \<open>Vm_Properties\<close> have the invariants of a call and the theorems.
  \<^item> \<open>Votes\<close>, \<open>Vote_Collector\<close>: \<open>consensus/slot.go\<close>; \<open>Bls_Certificates\<close>: \<open>consensus/bls_qc.go\<close>;
    \<open>Certificate_Safety\<close>, \<open>Collector_Invariant\<close> and \<open>Collector_Properties\<close> have their theorems.

  \<^bold>\<open>What is shown.\<close>

  \<^item> Transactions. A confirmed transaction was valid, signed, recent and new, changed only accounts
    its message declares writable and conserved lamports up to the fee; a failed one changes at
    most the balance of the fee payer. The contracts that programs must keep for this are
    hypotheses on the registry, and the system program is proved to keep them, except that a
    transfer from an account to itself creates lamports.
  \<^item> The sandbox and the locks. Whatever a program does, accepted writes are to writable accounts
    that the instruction names; deletions are not checked. Holders of account locks do not
    conflict.
  \<^item> The virtual machine. Every call returns, never panics once the code is verified, changes
    accounts only as their flags and owner permit, and cannot reach system calls that its
    manifest does not declare.
  \<^item> Consensus. Conflicting certificates convict more than a third of the stake of double
    voting; a collector never issues two certificates for a slot and phase, issues one when enough
    stake votes for one choice, and what it issues is accepted elsewhere. A vote with a wrong
    height can block the others.
  \<^item> Encodings. Round trips and canonical forms of accounts, instructions, messages,
    transactions, votes and certificates, short-vec lengths, Base58 and programs.
  \<^item> Amounts. Rent, fees, inflation, quorums and windows of block hashes are exact, with overflow
    reported or shown not to happen.

  \<^bold>\<open>Loops and bounds.\<close> Recursion follows the data wherever the source ranges over it. The
  executor of register code is a partial function: no fuel is chosen, and the proof that a call returns
  measures the units left of the finite compute limit. All other loops are total functions.

  \<^bold>\<open>Parameters.\<close> Ed25519, the BLS signature library, the Schnorr verifier, the decoder of shielded
  instructions and its storage charge, and nested program calls are arguments of the definitions
  that use them. Theorems about signatures name what they rely on: that verification accepts what
  signing makes, or that an aggregate verifies only if each of the keys signed.

  \<^bold>\<open>Not modelled.\<close> The peer-to-peer network, RPC, databases, node processes, commands and mobile
  bridges act on sockets, clocks and files, and what they do depends on code outside the
  repository. Shielded transactions and zero-knowledge proofs rest on curve and proof libraries, so
  only their interface appears. The token, stake, loader and shielded programs and the
  product-specific system calls are handlers behind the registry: the theorems about transactions
  hold for every handler with the stated contract, but that these programs keep it is not
  shown. Of consensus, rewards, epoch transitions, emergency recovery and proof statements are
  left out; they build on the accounts of the stake program.
\<close>

end
